theory Spec2Isabelle
  imports Main "HOL-Library.AList" "HOL-Library.Product_Lexorder" "HOL-Library.Multiset"
begin

section \<open>Attribute schemas and variant combinations of the storefront catalog\<close>

text \<open>
  A shallow embedding of \<^verbatim>\<open>src/actions/product-attributes.ts\<close>: the server
  actions that manage the attribute schemas of a product, and the generator of variant
  combinations. Every definition of the first part is a transcription of one function,
  query or JavaScript operator of that file; the second part states and proves the properties.

  Conventions of the embedding.
  \<^item> A JavaScript object used as a dictionary (\<^verbatim>\<open>Record<string, T>\<close>, a parsed JSON
    object) is an association list of its own properties, in the order of their creation.
    \<^verbatim>\<open>Object.keys\<close> lists the keys that are array indices first; the operator
    \<^verbatim>\<open>in\<close> also finds the names that the object inherits; a write to the key
    \<^verbatim>\<open>__proto__\<close> goes to the accessor that \<^verbatim>\<open>Object.prototype\<close> defines.
  \<^item> \<^verbatim>\<open>undefined\<close> and absent values are \<open>None\<close>.
  \<^item> A thrown exception is a value: computations return \<open>exn + 'a\<close>, a
    \<^verbatim>\<open>try/catch\<close> is the combinator \<open>try_catch\<close>.
  \<^item> The Supabase store is explicit state. Every call that leaves the process (a query, a
    command, \<^verbatim>\<open>auth.getUser\<close>, \<^verbatim>\<open>revalidatePath\<close>) consumes one entry of a
    \<open>plan\<close>, which says whether that call works, returns an error object or throws;
    the empty plan is the store that always works.
  \<^item> Every exported action is the statement \<^verbatim>\<open>const supabase = await createClient()\<close>
    followed by one \<^verbatim>\<open>try\<close> statement. The definition named after an action is its
    \<^verbatim>\<open>try\<close> statement, run with the client at hand; \<open>exported\<close> puts the
    construction of the client in front of it.
\<close>

subsection \<open>JavaScript values\<close>

type_synonym 'v js_record = "(string \<times> 'v) list"

text \<open>
  An array index is the decimal numeral, without a leading zero, of a number below
  4294967295, which is \<^verbatim>\<open>2 ** 32 - 1\<close>. \<^verbatim>\<open>Object.keys(obj)\<close> lists the own keys that are array indices in
  ascending numeric order and after them the other keys in the order of their creation;
  \<open>js_entries\<close> are the own properties in that order (\<^verbatim>\<open>Object.entries\<close>).
\<close>

definition is_digit :: "char \<Rightarrow> bool" where
  "is_digit c = ((48::nat) \<le> of_char c \<and> of_char c \<le> (57::nat))"

definition numeral_value :: "string \<Rightarrow> nat" where
  "numeral_value k = foldl (\<lambda>n c. 10 * n + (of_char c - 48)) 0 k"

definition array_index :: "string \<Rightarrow> nat option" where
  "array_index k =
     (if k \<noteq> [] \<and> list_all is_digit k \<and> (length k = 1 \<or> hd k \<noteq> CHR ''0'')
         \<and> numeral_value k < 4294967295
      then Some (numeral_value k) else None)"

definition key_order :: "string list \<Rightarrow> string list" where
  "key_order ks =
     sort_key (\<lambda>k. case array_index k of Some n \<Rightarrow> n | None \<Rightarrow> 0)
       (filter (\<lambda>k. array_index k \<noteq> None) ks)
     @ filter (\<lambda>k. array_index k = None) ks"

definition Object_keys :: "'v js_record \<Rightarrow> string list" where
  "Object_keys obj = key_order (map fst obj)"

text \<open>\<^verbatim>\<open>obj[k]\<close> for an own key \<open>k\<close>.\<close>

definition js_get :: "'v js_record \<Rightarrow> string \<Rightarrow> 'v option" where
  "js_get obj k = map_of obj k"

definition js_entries :: "'v js_record \<Rightarrow> 'v js_record" where
  "js_entries obj = map (\<lambda>k. (k, the (map_of obj k))) (Object_keys obj)"

text \<open>
  \<^verbatim>\<open>obj[k] = v\<close> for an array \<open>v\<close>, on an object that began as \<^verbatim>\<open>{}\<close> and is
  written in this way only (line 487). The value overwrites the own property \<open>k\<close> or
  becomes a new one. The key \<^verbatim>\<open>__proto__\<close> is the exception: it names the accessor
  of \<^verbatim>\<open>Object.prototype\<close>, whose setter makes the array the prototype of the object
  and creates no own property. An array inherits the accessor in its turn, so this holds
  at every later write as well. The prototype of this object is read nowhere and is not
  kept.
\<close>

definition js_set :: "'v list js_record \<Rightarrow> string \<Rightarrow> 'v list \<Rightarrow> 'v list js_record" where
  "js_set obj k v = (if k = ''__proto__'' then obj else AList.update k v obj)"

text \<open>\<^verbatim>\<open>xs[i]\<close> on an array: \<^verbatim>\<open>undefined\<close> out of range.\<close>

definition js_index :: "'a list \<Rightarrow> nat \<Rightarrow> 'a option" where
  "js_index xs i = (if i < length xs then Some (xs ! i) else None)"

text \<open>The type \<^verbatim>\<open>Json\<close> of the generated database types.\<close>

datatype json = JNull | JBool bool | JNum int | JStr string | JArr "json list" | JObj "(string \<times> json) list"

text \<open>
  A thrown value is an \<^verbatim>\<open>Error\<close> with its message, or something that is not an
  instance of \<^verbatim>\<open>Error\<close>. The engine's own \<^verbatim>\<open>TypeError\<close>s (a property read on
  \<^verbatim>\<open>null\<close>, a call of a method that is not there) carry an engine-specific message,
  abbreviated here.
\<close>

datatype exn = Error string | Thrown

definition TypeError :: exn where
  "TypeError = Error ''TypeError''"

fun js_truthy :: "json \<Rightarrow> bool" where
  "js_truthy JNull = False"
| "js_truthy (JBool b) = b"
| "js_truthy (JNum n) = (n \<noteq> 0)"
| "js_truthy (JStr s) = (s \<noteq> [])"
| "js_truthy (JArr xs) = True"
| "js_truthy (JObj fs) = True"

text \<open>\<^verbatim>\<open>typeof x === 'object'\<close>, which also holds of \<^verbatim>\<open>null\<close> and of arrays.\<close>

fun typeof_object :: "json \<Rightarrow> bool" where
  "typeof_object JNull = True"
| "typeof_object (JArr xs) = True"
| "typeof_object (JObj fs) = True"
| "typeof_object _ = False"

text \<open>The decimal numeral of an array index, as a property name.\<close>

function decimal :: "nat \<Rightarrow> string" where
  "decimal n = (if n < 10 then [char_of (48 + n)] else decimal (n div 10) @ [char_of (48 + n mod 10)])"
  by pat_completeness auto
termination
  by (relation "measure id") auto

declare decimal.simps [simp del]

definition index_of_key :: "string \<Rightarrow> nat \<Rightarrow> nat option" where
  "index_of_key k n = List.find (\<lambda>i. decimal i = k) [0..<n]"

fun own_keys :: "json \<Rightarrow> string list" where
  "own_keys (JObj fs) = map fst fs"
| "own_keys (JArr xs) = map decimal [0..<length xs] @ [''length'']"
| "own_keys (JStr s) = map decimal [0..<length s] @ [''length'']"
| "own_keys _ = []"

text \<open>
  The names that a parsed JSON object inherits from \<^verbatim>\<open>Object.prototype\<close>, and those
  that an array inherits from \<^verbatim>\<open>Array.prototype\<close> before them (ECMAScript 2023 to
  2025, with the accessor and the four legacy methods of its annex B).
\<close>

definition Object_prototype_names :: "string list" where
  "Object_prototype_names =
     [''constructor'', ''hasOwnProperty'', ''isPrototypeOf'', ''propertyIsEnumerable'',
      ''toLocaleString'', ''toString'', ''valueOf'', ''__proto__'',
      ''__defineGetter__'', ''__defineSetter__'', ''__lookupGetter__'', ''__lookupSetter__'']"

definition Array_prototype_names :: "string list" where
  "Array_prototype_names =
     [''length'', ''constructor'', ''at'', ''concat'', ''copyWithin'', ''entries'', ''every'',
      ''fill'', ''filter'', ''find'', ''findIndex'', ''findLast'', ''findLastIndex'', ''flat'',
      ''flatMap'', ''forEach'', ''includes'', ''indexOf'', ''join'', ''keys'', ''lastIndexOf'',
      ''map'', ''pop'', ''push'', ''reduce'', ''reduceRight'', ''reverse'', ''shift'', ''slice'',
      ''some'', ''sort'', ''splice'', ''toLocaleString'', ''toReversed'', ''toSorted'',
      ''toSpliced'', ''toString'', ''unshift'', ''values'', ''with'']"

text \<open>
  \<^verbatim>\<open>k in j\<close>, for a \<open>j\<close> that is an object or an array: \<open>k\<close> is an own
  key of \<open>j\<close> or a name that \<open>j\<close> inherits. On a value that is no object the
  operator throws; the only use (line 236) is guarded by \<^verbatim>\<open>typeof\<close>, and
  \<open>js_in\<close> is \<open>False\<close> there.
\<close>

fun js_in :: "string \<Rightarrow> json \<Rightarrow> bool" where
  "js_in k (JObj fs) = (k \<in> set (own_keys (JObj fs)) \<or> k \<in> set Object_prototype_names)"
| "js_in k (JArr xs) =
     (k \<in> set (own_keys (JArr xs)) \<or> k \<in> set Array_prototype_names
      \<or> k \<in> set Object_prototype_names)"
| "js_in k _ = False"

text \<open>\<^verbatim>\<open>j[k]\<close> (and \<^verbatim>\<open>j.k\<close>) on a JSON value: a \<^verbatim>\<open>TypeError\<close> on \<^verbatim>\<open>null\<close>.\<close>

fun js_prop :: "json \<Rightarrow> string \<Rightarrow> exn + json option" where
  "js_prop JNull k = Inl TypeError"
| "js_prop (JObj fs) k = Inr (map_of fs k)"
| "js_prop (JArr xs) k =
     Inr (if k = ''length'' then Some (JNum (int (length xs)))
          else map_option (\<lambda>i. xs ! i) (index_of_key k (length xs)))"
| "js_prop (JStr s) k =
     Inr (if k = ''length'' then Some (JNum (int (length s)))
          else map_option (\<lambda>i. JStr [s ! i]) (index_of_key k (length s)))"
| "js_prop _ k = Inr None"

subsection \<open>The combination generator\<close>

text \<open>
  The object \<^verbatim>\<open>currentCombination\<close> of the generator, which begins as \<^verbatim>\<open>{}\<close>:
  its own properties and its prototype. The values that the generator writes into it are
  whatever the caller sends in the arrays, JSON values or \<^verbatim>\<open>undefined\<close>; the
  declared type says strings.

  \<^verbatim>\<open>obj[k] = v\<close> overwrites the own property \<open>k\<close> or creates it, except for the key
  \<^verbatim>\<open>__proto__\<close> while the object has no own property of that name and inherits the
  accessor of \<^verbatim>\<open>Object.prototype\<close>. The object does not inherit it below a
  \<^verbatim>\<open>null\<close> prototype, nor through a parsed JSON object that has a member
  \<^verbatim>\<open>__proto__\<close> of its own, which shadows the accessor. The setter of the accessor
  makes an object or an array the new prototype, removes the prototype for \<^verbatim>\<open>null\<close>
  and ignores every other value; it creates no own property. The spread
  \<^verbatim>\<open>{ ...obj }\<close> copies the own properties in the order of \<^verbatim>\<open>Object.keys\<close>.
\<close>

datatype prototype = Object_prototype | Null_prototype | Value_prototype json

type_synonym js_object = "json option js_record \<times> prototype"

fun inherits_accessor :: "prototype \<Rightarrow> bool" where
  "inherits_accessor Object_prototype = True"
| "inherits_accessor Null_prototype = False"
| "inherits_accessor (Value_prototype (JObj fs)) = (''__proto__'' \<notin> fst ` set fs)"
| "inherits_accessor (Value_prototype j) = True"

fun set_prototype :: "json option \<Rightarrow> prototype \<Rightarrow> prototype" where
  "set_prototype (Some (JObj fs)) p = Value_prototype (JObj fs)"
| "set_prototype (Some (JArr xs)) p = Value_prototype (JArr xs)"
| "set_prototype (Some JNull) p = Null_prototype"
| "set_prototype v p = p"

fun js_assign :: "js_object \<Rightarrow> string \<Rightarrow> json option \<Rightarrow> js_object" where
  "js_assign (own, p) k v =
     (if k = ''__proto__'' \<and> k \<notin> fst ` set own \<and> inherits_accessor p
      then (own, set_prototype v p)
      else (AList.update k v own, p))"

definition js_spread :: "js_object \<Rightarrow> json option js_record" where
  "js_spread obj = js_entries (fst obj)"

text \<open>
  \<^verbatim>\<open>generateVariantCombinations\<close> (lines 500-530). The inner function mutates one
  shared \<^verbatim>\<open>currentCombination\<close> and pushes a copy of it onto \<^verbatim>\<open>combinations\<close>;
  both are threaded through as state. \<^verbatim>\<open>if (!currentKey) return\<close> leaves when
  \<^verbatim>\<open>keys[depth]\<close> is \<^verbatim>\<open>undefined\<close> and also when it is the empty string, which is
  falsy. \<^verbatim>\<open>if (values)\<close> fails only for a key without a value, since every array is
  truthy.
\<close>

type_synonym gen_state = "js_object \<times> json option js_record list"

function generateCombination ::
  "string list \<Rightarrow> json option list js_record \<Rightarrow> nat \<Rightarrow> gen_state \<Rightarrow> gen_state" where
  "generateCombination keys attributes depth (currentCombination, combinations) =
     (if depth = length keys then (currentCombination, combinations @ [js_spread currentCombination])
      else case js_index keys depth of
        None \<Rightarrow> (currentCombination, combinations)
      | Some currentKey \<Rightarrow>
          if currentKey = [] then (currentCombination, combinations)
          else case js_get attributes currentKey of
            None \<Rightarrow> (currentCombination, combinations)
          | Some values \<Rightarrow>
              fold (\<lambda>value st.
                      generateCombination keys attributes (depth + 1)
                        (js_assign (fst st) currentKey value, snd st))
                   values (currentCombination, combinations))"
  by pat_completeness auto
termination
  by (relation "measure (\<lambda>(keys, attributes, depth, st). length keys - depth)")
     (auto simp: js_index_def split: if_splits)

declare generateCombination.simps [simp del]

definition generateVariantCombinations ::
  "json option list js_record \<Rightarrow> json option js_record list" where
  "generateVariantCombinations attributes =
     snd (generateCombination (Object_keys attributes) attributes 0 (([], Object_prototype), []))"
subsection \<open>The store\<close>

text \<open>
  The rows of the tables this file reads and writes, with the columns it uses
  (\<^verbatim>\<open>product_attribute_schemas\<close> in full, since \<^verbatim>\<open>select('*')\<close> returns whole
  rows). Timestamps are instants; \<open>row_id\<close>, \<open>product_pk\<close> and \<open>catalog_pk\<close> are the
  columns \<^verbatim>\<open>id\<close>.
\<close>

record attribute_row =
  row_id :: int
  product_id :: int
  attribute_key :: string
  attribute_label :: string
  attribute_type :: string
  options :: json
  default_value :: json
  is_required :: bool
  is_variant_defining :: bool
  validation_rules :: json
  help_text :: "string option"
  sort_order :: int
  created_at :: int
  updated_at :: int

record brand_row =
  brand_id :: int
  brand_user_id :: string

record catalog_row =
  catalog_pk :: int
  catalog_id :: string
  catalog_brand_id :: int

record product_row =
  product_pk :: int
  product_catalog_id :: string

record variant_row =
  variant_id :: int
  variant_product_id :: int
  variant_attributes :: json

record store =
  brands :: "brand_row list"
  product_catalogs :: "catalog_row list"
  products :: "product_row list"
  product_attribute_schemas :: "attribute_row list"
  product_variants :: "variant_row list"
  next_schema_id :: int
  now :: int

text \<open>
  \<^verbatim>\<open>CreateAttributeData\<close> and \<^verbatim>\<open>UpdateAttributeData\<close> (lines 16-25): an optional
  field is an \<open>option\<close>, \<open>None\<close> when the caller leaves it out.
\<close>

record CreateAttributeData =
  new_product_id :: int
  new_attribute_key :: string
  new_attribute_label :: string
  new_attribute_type :: string
  new_options :: "json option"
  new_default_value :: "json option"
  new_is_required :: "bool option"
  new_is_variant_defining :: "bool option"
  new_validation_rules :: "json option"
  new_help_text :: "string option option"
  new_sort_order :: "int option"

record UpdateAttributeData =
  upd_id :: int
  upd_product_id :: "int option"
  upd_attribute_key :: "string option"
  upd_attribute_label :: "string option"
  upd_attribute_type :: "string option"
  upd_options :: "json option"
  upd_default_value :: "json option"
  upd_is_required :: "bool option"
  upd_is_variant_defining :: "bool option"
  upd_validation_rules :: "json option"
  upd_help_text :: "string option option"
  upd_sort_order :: "int option"

subsection \<open>Calls that leave the process\<close>

text \<open>
  A \<open>world\<close> is what a server action runs against: the tables, the authenticated user
  of the session (the \<^verbatim>\<open>id\<close> of \<^verbatim>\<open>auth.getUser()\<close>, if any), the plan of
  outcomes of the external calls still to come, and what the construction of the client
  throws, if it throws.
\<close>

datatype outcome = Works | Fails string | Throws exn

record world =
  db :: store
  session_user :: "string option"
  plan :: "outcome list"
  client_failure :: "exn option"

type_synonym 'a response = "'a option \<times> string option"
type_synonym 'a io = "world \<Rightarrow> (exn + 'a) \<times> world"

text \<open>The envelope \<^verbatim>\<open>{success: true, data?}\<close> or \<^verbatim>\<open>{success: false, error}\<close>.\<close>

datatype 'a envelope = Success "'a option" | Failure string

definition io_return :: "'a \<Rightarrow> 'a io" where
  "io_return x w = (Inr x, w)"

definition throw :: "exn \<Rightarrow> 'a io" where
  "throw e w = (Inl e, w)"

definition io_bind :: "'a io \<Rightarrow> ('a \<Rightarrow> 'b io) \<Rightarrow> 'b io" where
  "io_bind m f w = (case m w of (Inl e, w') \<Rightarrow> (Inl e, w') | (Inr x, w') \<Rightarrow> f x w')"

definition try_catch :: "'a io \<Rightarrow> (exn \<Rightarrow> 'a) \<Rightarrow> 'a io" where
  "try_catch body handler w =
     (case body w of (Inl e, w') \<Rightarrow> (Inr (handler e), w') | (Inr x, w') \<Rightarrow> (Inr x, w'))"

definition lift :: "exn + 'a \<Rightarrow> 'a io" where
  "lift r w = (r, w)"

text \<open>
  The \<^verbatim>\<open>catch\<close> block of every mutating action:
  \<^verbatim>\<open>error instanceof Error ? error.message : 'Unknown error occurred'\<close>.
\<close>

definition error_envelope :: "exn \<Rightarrow> 'a envelope" where
  "error_envelope e = Failure (case e of Error message \<Rightarrow> message | Thrown \<Rightarrow> ''Unknown error occurred'')"

text \<open>
  An external call takes the next outcome of the plan. A query or command that works
  returns what the store answers; one that fails returns no data and an error object; one
  that throws raises. \<^verbatim>\<open>auth.getUser()\<close> yields no user when it fails, and
  \<^verbatim>\<open>revalidatePath\<close>, which returns nothing, can only throw.
\<close>

definition next_outcome :: "world \<Rightarrow> outcome \<times> world" where
  "next_outcome w = (case plan w of [] \<Rightarrow> (Works, w) | out # rest \<Rightarrow> (out, w\<lparr>plan := rest\<rparr>))"

definition store_read :: "(store \<Rightarrow> 'a response) \<Rightarrow> 'a response io" where
  "store_read q w =
     (case next_outcome w of
        (Works, w') \<Rightarrow> (Inr (q (db w')), w')
      | (Fails message, w') \<Rightarrow> (Inr (None, Some message), w')
      | (Throws e, w') \<Rightarrow> (Inl e, w'))"

definition store_write :: "(store \<Rightarrow> 'a response \<times> store) \<Rightarrow> 'a response io" where
  "store_write c w =
     (case next_outcome w of
        (Works, w') \<Rightarrow> (Inr (fst (c (db w'))), w'\<lparr>db := snd (c (db w'))\<rparr>)
      | (Fails message, w') \<Rightarrow> (Inr (None, Some message), w')
      | (Throws e, w') \<Rightarrow> (Inl e, w'))"

definition auth_getUser :: "string option io" where
  "auth_getUser w =
     (case next_outcome w of
        (Works, w') \<Rightarrow> (Inr (session_user w'), w')
      | (Fails message, w') \<Rightarrow> (Inr None, w')
      | (Throws e, w') \<Rightarrow> (Inl e, w'))"

definition revalidatePath :: "unit io" where
  "revalidatePath w =
     (case next_outcome w of
        (Throws e, w') \<Rightarrow> (Inl e, w')
      | (_, w') \<Rightarrow> (Inr (), w'))"

text \<open>
  \<^verbatim>\<open>createClient\<close> is imported from \<^verbatim>\<open>@/lib/supabase/server\<close>, which is not
  among the sources: it is a parameter of the world, and it returns the client or throws
  \<open>client_failure\<close>. An exported action \<^verbatim>\<open>f\<close> is
  \<^verbatim>\<open>const supabase = await createClient()\<close> followed by the \<^verbatim>\<open>try\<close> statement
  that the definition \<open>f\<close> below transcribes: the action as a whole is
  \<open>exported f\<close>.
\<close>

definition createClient :: "unit io" where
  "createClient w = (case client_failure w of None \<Rightarrow> (Inr (), w) | Some e \<Rightarrow> (Inl e, w))"

definition exported :: "'a io \<Rightarrow> 'a io" where
  "exported action = io_bind createClient (\<lambda>supabase. action)"

text \<open>
  \<^verbatim>\<open>.single()\<close> of the query builder: the row when the query yields exactly one row,
  otherwise no data and an error object.
\<close>

definition single :: "'a list \<Rightarrow> 'a response" where
  "single rows = (case rows of [r] \<Rightarrow> (Some r, None)
                  | _ \<Rightarrow> (None, Some ''JSON object requested, multiple (or no) rows returned''))"

text \<open>
  The embedded resources of
  \<^verbatim>\<open>select('id, product_catalogs ( id, brands ( id, user_id ) )')\<close>: a many-to-one
  embedding is the referenced row or \<^verbatim>\<open>null\<close>. \<open>chain_user_id\<close> is the optional
  chain \<^verbatim>\<open>product?.product_catalogs?.brands?.user_id\<close>, and \<open>falsy_string\<close> its
  negation \<^verbatim>\<open>!...\<close>: \<^verbatim>\<open>undefined\<close> and the empty string are falsy.
\<close>

type_synonym brand_join = "int \<times> string"
type_synonym catalog_join = "int \<times> brand_join option"
type_synonym product_join = "int \<times> catalog_join option"

definition embed_brand :: "store \<Rightarrow> int \<Rightarrow> brand_join option" where
  "embed_brand s bid =
     map_option (\<lambda>b. (brand_id b, brand_user_id b)) (List.find (\<lambda>b. brand_id b = bid) (brands s))"

definition embed_catalog :: "store \<Rightarrow> string \<Rightarrow> catalog_join option" where
  "embed_catalog s cid =
     map_option (\<lambda>c. (catalog_pk c, embed_brand s (catalog_brand_id c)))
       (List.find (\<lambda>c. catalog_id c = cid) (product_catalogs s))"

definition embed_product :: "store \<Rightarrow> int \<Rightarrow> product_join option" where
  "embed_product s pid =
     map_option (\<lambda>p. (product_pk p, embed_catalog s (product_catalog_id p)))
       (List.find (\<lambda>p. product_pk p = pid) (products s))"

definition chain_user_id :: "product_join option \<Rightarrow> string option" where
  "chain_user_id product =
     (case product of None \<Rightarrow> None
      | Some (pid, catalog) \<Rightarrow>
          (case catalog of None \<Rightarrow> None
           | Some (cid, brand) \<Rightarrow> map_option snd brand))"

definition falsy_string :: "string option \<Rightarrow> bool" where
  "falsy_string x = (case x of None \<Rightarrow> True | Some s \<Rightarrow> s = [])"

subsection \<open>The queries and commands of the actions\<close>

text \<open>
  One definition per query, named after what it selects. \<open>select_other_key\<close> is the
  uniqueness query of \<^verbatim>\<open>updateProductAttribute\<close> (lines 148-154); its filter
  \<^verbatim>\<open>.eq('product_id', data.product_id!)\<close> uses the supplied \<^verbatim>\<open>product_id\<close> only,
  and a filter on \<^verbatim>\<open>undefined\<close> is rejected by the store, so no row comes back.
\<close>

definition select_product_owner :: "int \<Rightarrow> store \<Rightarrow> product_join response" where
  "select_product_owner pid s =
     single (map (\<lambda>p. (product_pk p, embed_catalog s (product_catalog_id p)))
               (filter (\<lambda>p. product_pk p = pid) (products s)))"

definition select_attribute_owner :: "int \<Rightarrow> store \<Rightarrow> (int \<times> string \<times> product_join option) response" where
  "select_attribute_owner aid s =
     single (map (\<lambda>a. (row_id a, attribute_key a, embed_product s (product_id a)))
               (filter (\<lambda>a. row_id a = aid) (product_attribute_schemas s)))"

definition select_existing_key :: "int \<Rightarrow> string \<Rightarrow> store \<Rightarrow> int response" where
  "select_existing_key pid k s =
     single (map row_id (filter (\<lambda>a. product_id a = pid \<and> attribute_key a = k)
                           (product_attribute_schemas s)))"

definition select_other_key :: "int option \<Rightarrow> string \<Rightarrow> int \<Rightarrow> store \<Rightarrow> int response" where
  "select_other_key pid k aid s =
     (case pid of
        None \<Rightarrow> (None, Some ''invalid input syntax for type bigint: undefined'')
      | Some p \<Rightarrow>
          single (map row_id (filter (\<lambda>a. product_id a = p \<and> attribute_key a = k \<and> row_id a \<noteq> aid)
                                (product_attribute_schemas s))))"

text \<open>
  The inserted row (lines 76-88): \<^verbatim>\<open>x || d\<close> replaces a falsy \<open>x\<close>,
  \<^verbatim>\<open>x ?? d\<close> a missing one; the store assigns \<^verbatim>\<open>id\<close> and the timestamps.
\<close>

definition or_default :: "json option \<Rightarrow> json \<Rightarrow> json" where
  "or_default x d = (case x of None \<Rightarrow> d | Some j \<Rightarrow> if js_truthy j then j else d)"

definition new_row :: "CreateAttributeData \<Rightarrow> store \<Rightarrow> attribute_row" where
  "new_row data s =
     \<lparr> row_id = next_schema_id s,
       product_id = new_product_id data,
       attribute_key = new_attribute_key data,
       attribute_label = new_attribute_label data,
       attribute_type = new_attribute_type data,
       options = or_default (new_options data) (JArr []),
       default_value = (case new_default_value data of None \<Rightarrow> JNull | Some j \<Rightarrow> j),
       is_required = (case new_is_required data of None \<Rightarrow> False | Some b \<Rightarrow> b),
       is_variant_defining = (case new_is_variant_defining data of None \<Rightarrow> True | Some b \<Rightarrow> b),
       validation_rules = or_default (new_validation_rules data) (JObj []),
       help_text = (case new_help_text data of None \<Rightarrow> None | Some h \<Rightarrow> h),
       sort_order = (case new_sort_order data of None \<Rightarrow> 0 | Some n \<Rightarrow> n),
       created_at = now s,
       updated_at = now s \<rparr>"

definition insert_schema :: "CreateAttributeData \<Rightarrow> store \<Rightarrow> attribute_row response \<times> store" where
  "insert_schema data s =
     ((Some (new_row data s), None),
      s\<lparr>product_attribute_schemas := product_attribute_schemas s @ [new_row data s],
        next_schema_id := next_schema_id s + 1\<rparr>)"

text \<open>\<^verbatim>\<open>.update(updateData).eq('id', data.id)\<close>: the supplied columns replace the old ones.\<close>

definition override :: "'a option \<Rightarrow> 'a \<Rightarrow> 'a" where
  "override x old = (case x of None \<Rightarrow> old | Some v \<Rightarrow> v)"

definition apply_update :: "UpdateAttributeData \<Rightarrow> attribute_row \<Rightarrow> attribute_row" where
  "apply_update data a =
     a\<lparr> product_id := override (upd_product_id data) (product_id a),
        attribute_key := override (upd_attribute_key data) (attribute_key a),
        attribute_label := override (upd_attribute_label data) (attribute_label a),
        attribute_type := override (upd_attribute_type data) (attribute_type a),
        options := override (upd_options data) (options a),
        default_value := override (upd_default_value data) (default_value a),
        is_required := override (upd_is_required data) (is_required a),
        is_variant_defining := override (upd_is_variant_defining data) (is_variant_defining a),
        validation_rules := override (upd_validation_rules data) (validation_rules a),
        help_text := override (upd_help_text data) (help_text a),
        sort_order := override (upd_sort_order data) (sort_order a) \<rparr>"

definition update_where_id :: "int \<Rightarrow> (attribute_row \<Rightarrow> attribute_row) \<Rightarrow> store \<Rightarrow> store" where
  "update_where_id aid f s =
     s\<lparr>product_attribute_schemas :=
         map (\<lambda>a. if row_id a = aid then f a else a) (product_attribute_schemas s)\<rparr>"

definition update_schema :: "UpdateAttributeData \<Rightarrow> store \<Rightarrow> attribute_row response \<times> store" where
  "update_schema data s =
     (single (map (apply_update data)
                (filter (\<lambda>a. row_id a = upd_id data) (product_attribute_schemas s))),
      update_where_id (upd_id data) (apply_update data) s)"

definition update_columns :: "int \<Rightarrow> (attribute_row \<Rightarrow> attribute_row) \<Rightarrow> store \<Rightarrow> unit response \<times> store" where
  "update_columns aid f s = ((None, None), update_where_id aid f s)"

definition delete_schema :: "int \<Rightarrow> store \<Rightarrow> unit response \<times> store" where
  "delete_schema aid s =
     ((None, None),
      s\<lparr>product_attribute_schemas := filter (\<lambda>a. row_id a \<noteq> aid) (product_attribute_schemas s)\<rparr>)"

text \<open>
  The reads of whole lists. \<^verbatim>\<open>.order('sort_order').order('created_at')\<close> sorts by
  \<open>sort_order\<close>, then by \<open>created_at\<close>, both ascending.
\<close>

definition select_variants :: "int \<Rightarrow> store \<Rightarrow> variant_row list response" where
  "select_variants pid s = (Some (filter (\<lambda>v. variant_product_id v = pid) (product_variants s)), None)"

definition select_attributes_ordered :: "int \<Rightarrow> store \<Rightarrow> attribute_row list response" where
  "select_attributes_ordered pid s =
     (Some (sort_key (\<lambda>a. (sort_order a, created_at a))
              (filter (\<lambda>a. product_id a = pid) (product_attribute_schemas s))), None)"

definition select_attribute :: "int \<Rightarrow> store \<Rightarrow> attribute_row response" where
  "select_attribute aid s = single (filter (\<lambda>a. row_id a = aid) (product_attribute_schemas s))"

subsection \<open>The server actions\<close>

text \<open>
  \<^verbatim>\<open>createProductAttribute\<close> (lines 30-106): the ownership check, the uniqueness check
  on \<^verbatim>\<open>(product_id, attribute_key)\<close>, the insert.
\<close>

definition createProductAttribute :: "CreateAttributeData \<Rightarrow> attribute_row envelope io" where
  "createProductAttribute data =
     try_catch
       (io_bind (store_read (select_product_owner (new_product_id data))) (\<lambda>(product, _).
        if falsy_string (chain_user_id product)
        then throw (Error ''Product not found or access denied'')
        else
        io_bind auth_getUser (\<lambda>user.
        if user = None \<or> chain_user_id product \<noteq> user
        then throw (Error ''Unauthorized'')
        else
        io_bind (store_read (select_existing_key (new_product_id data) (new_attribute_key data)))
          (\<lambda>(existingAttribute, _).
        if existingAttribute \<noteq> None
        then throw (Error ''Attribute key already exists for this product'')
        else
        io_bind (store_write (insert_schema data)) (\<lambda>(attribute, error).
        case error of
          Some message \<Rightarrow> throw (Error message)
        | None \<Rightarrow>
            io_bind revalidatePath (\<lambda>_. io_return (Success attribute)))))))
       error_envelope"

text \<open>
  \<^verbatim>\<open>updateProductAttribute\<close> (lines 111-185). After the guard on the ownership chain
  the attribute is not \<^verbatim>\<open>null\<close>, so the first case is the guard's own branch. The
  uniqueness check runs when \<^verbatim>\<open>data.attribute_key\<close> is truthy and differs from the
  stored key.
\<close>

definition updateProductAttribute :: "UpdateAttributeData \<Rightarrow> attribute_row envelope io" where
  "updateProductAttribute data =
     try_catch
       (io_bind (store_read (select_attribute_owner (upd_id data))) (\<lambda>(attribute, _).
        case attribute of
          None \<Rightarrow> throw (Error ''Attribute not found or access denied'')
        | Some (attribute_id, current_key, product) \<Rightarrow>
        if falsy_string (chain_user_id product)
        then throw (Error ''Attribute not found or access denied'')
        else
        io_bind auth_getUser (\<lambda>user.
        if user = None \<or> chain_user_id product \<noteq> user
        then throw (Error ''Unauthorized'')
        else
        io_bind
          (case upd_attribute_key data of
             None \<Rightarrow> io_return ()
           | Some k \<Rightarrow>
               if k \<noteq> [] \<and> k \<noteq> current_key
               then io_bind (store_read (select_other_key (upd_product_id data) k (upd_id data)))
                      (\<lambda>(existingAttribute, _).
                         if existingAttribute \<noteq> None
                         then throw (Error ''Attribute key already exists for this product'')
                         else io_return ())
               else io_return ()) (\<lambda>_.
        io_bind (store_write (update_schema data)) (\<lambda>(updatedAttribute, error).
        case error of
          Some message \<Rightarrow> throw (Error message)
        | None \<Rightarrow>
            io_bind revalidatePath (\<lambda>_. io_return (Success updatedAttribute)))))))
       error_envelope"

text \<open>The callback of \<^verbatim>\<open>variantsUsingAttribute?.some(...)\<close> (lines 231-237).\<close>

definition attribute_in_use :: "string \<Rightarrow> variant_row \<Rightarrow> bool" where
  "attribute_in_use k variant =
     (js_truthy (variant_attributes variant) \<and> typeof_object (variant_attributes variant)
      \<and> variant_attributes variant \<noteq> JNull \<and> js_in k (variant_attributes variant))"

text \<open>
  \<^verbatim>\<open>deleteProductAttribute\<close> (lines 190-263). The variants are those of
  \<^verbatim>\<open>attribute.products.id\<close>; a failed variants query leaves \<^verbatim>\<open>undefined\<close>, which
  is falsy.
\<close>

definition deleteProductAttribute :: "int \<Rightarrow> unit envelope io" where
  "deleteProductAttribute attributeId =
     try_catch
       (io_bind (store_read (select_attribute_owner attributeId)) (\<lambda>(attribute, _).
        case attribute of
          None \<Rightarrow> throw (Error ''Attribute not found or access denied'')
        | Some (attribute_id, k, None) \<Rightarrow> throw (Error ''Attribute not found or access denied'')
        | Some (attribute_id, k, Some (pid, catalog)) \<Rightarrow>
        if falsy_string (chain_user_id (Some (pid, catalog)))
        then throw (Error ''Attribute not found or access denied'')
        else
        io_bind auth_getUser (\<lambda>user.
        if user = None \<or> chain_user_id (Some (pid, catalog)) \<noteq> user
        then throw (Error ''Unauthorized'')
        else
        io_bind (store_read (select_variants pid)) (\<lambda>(variantsUsingAttribute, _).
        if (case variantsUsingAttribute of None \<Rightarrow> False
            | Some variants \<Rightarrow> list_ex (attribute_in_use k) variants)
        then throw (Error ''Cannot delete attribute that is used by variants'')
        else
        io_bind (store_write (delete_schema attributeId)) (\<lambda>(_, error).
        case error of
          Some message \<Rightarrow> throw (Error message)
        | None \<Rightarrow>
            io_bind revalidatePath (\<lambda>_. io_return (Success None)))))))
       error_envelope"

text \<open>\<^verbatim>\<open>getProductAttributes\<close> (lines 268-291) and \<^verbatim>\<open>getProductAttributeById\<close> (lines 296-318).\<close>

definition getProductAttributes :: "int \<Rightarrow> attribute_row list io" where
  "getProductAttributes productId =
     try_catch
       (io_bind (store_read (select_attributes_ordered productId)) (\<lambda>(attributes, error).
        case error of
          Some message \<Rightarrow> throw (Error message)
        | None \<Rightarrow> io_return (case attributes of None \<Rightarrow> [] | Some rows \<Rightarrow> rows)))
       (\<lambda>e. [])"

definition getProductAttributeById :: "int \<Rightarrow> attribute_row option io" where
  "getProductAttributeById attributeId =
     try_catch
       (io_bind (store_read (select_attribute attributeId)) (\<lambda>(attribute, error).
        case error of
          Some message \<Rightarrow> io_return None
        | None \<Rightarrow> io_return attribute))
       (\<lambda>e. None)"

text \<open>
  \<^verbatim>\<open>updateAttributeOrder\<close> (lines 323-352). \<^verbatim>\<open>Promise.all\<close> starts every update
  and rejects with the first rejection; the updates are modelled in the order of the list.
\<close>

fun run_all :: "'a io list \<Rightarrow> world \<Rightarrow> (exn + 'a) list \<times> world" where
  "run_all [] w = ([], w)"
| "run_all (m # ms) w =
     (case m w of (r, w') \<Rightarrow> (case run_all ms w' of (rs, w'') \<Rightarrow> (r # rs, w'')))"

fun first_rejection :: "(exn + 'a) list \<Rightarrow> exn + 'a list" where
  "first_rejection [] = Inr []"
| "first_rejection (Inl e # rs) = Inl e"
| "first_rejection (Inr x # rs) =
     (case first_rejection rs of Inl e \<Rightarrow> Inl e | Inr xs \<Rightarrow> Inr (x # xs))"

definition Promise_all :: "'a io list \<Rightarrow> 'a list io" where
  "Promise_all ms w = (case run_all ms w of (rs, w') \<Rightarrow> (first_rejection rs, w'))"

definition updateAttributeOrder :: "(int \<times> int) list \<Rightarrow> unit envelope io" where
  "updateAttributeOrder attributeOrders =
     try_catch
       (io_bind
          (Promise_all
             (map (\<lambda>(i, n). store_write (update_columns i (\<lambda>a. a\<lparr>sort_order := n\<rparr>)))
                attributeOrders)) (\<lambda>results.
        if filter (\<lambda>(d, error). error \<noteq> None) results \<noteq> []
        then throw (Error ''Failed to update attribute order'')
        else io_bind revalidatePath (\<lambda>_. io_return (Success None))))
       error_envelope"

text \<open>
  The array methods applied to the \<^verbatim>\<open>options\<close> column, with their callbacks:
  \<^verbatim>\<open>.some(existing => existing.value === v)\<close> stops at the first hit,
  \<^verbatim>\<open>.filter(option => option.value !== v)\<close> and \<^verbatim>\<open>.map(option => option.value)\<close>
  visit every entry. \<open>as_array\<close> is the cast \<^verbatim>\<open>as Array<...>\<close>: on a value that is
  not an array the method call that follows throws.
\<close>

fun some_value_eq :: "json list \<Rightarrow> string \<Rightarrow> exn + bool" where
  "some_value_eq [] v = Inr False"
| "some_value_eq (existing # rest) v =
     (case js_prop existing ''value'' of
        Inl e \<Rightarrow> Inl e
      | Inr x \<Rightarrow> if x = Some (JStr v) then Inr True else some_value_eq rest v)"

fun filter_value_ne :: "json list \<Rightarrow> string \<Rightarrow> exn + json list" where
  "filter_value_ne [] v = Inr []"
| "filter_value_ne (option # rest) v =
     (case js_prop option ''value'' of
        Inl e \<Rightarrow> Inl e
      | Inr x \<Rightarrow>
          (case filter_value_ne rest v of
             Inl e \<Rightarrow> Inl e
           | Inr kept \<Rightarrow> Inr (if x \<noteq> Some (JStr v) then option # kept else kept)))"

fun map_value :: "json list \<Rightarrow> exn + json option list" where
  "map_value [] = Inr []"
| "map_value (option # rest) =
     (case js_prop option ''value'' of
        Inl e \<Rightarrow> Inl e
      | Inr x \<Rightarrow> (case map_value rest of Inl e \<Rightarrow> Inl e | Inr xs \<Rightarrow> Inr (x # xs)))"

definition as_array :: "json \<Rightarrow> exn + json list" where
  "as_array j = (case j of JArr xs \<Rightarrow> Inr xs | _ \<Rightarrow> Inl TypeError)"

text \<open>\<^verbatim>\<open>addAttributeOption\<close> (lines 357-407); the option is the pair of its value and label.\<close>

definition addAttributeOption :: "int \<Rightarrow> string \<times> string \<Rightarrow> unit envelope io" where
  "addAttributeOption attributeId option =
     try_catch
       (io_bind (store_read (select_attribute attributeId)) (\<lambda>(attribute, fetchError).
        case (fetchError, attribute) of
          (Some message, _) \<Rightarrow> throw (Error ''Attribute not found'')
        | (None, None) \<Rightarrow> throw (Error ''Attribute not found'')
        | (None, Some a) \<Rightarrow>
        io_bind (lift (as_array (options a))) (\<lambda>existingOptions.
        io_bind (lift (some_value_eq existingOptions (fst option))) (\<lambda>optionExists.
        if optionExists
        then throw (Error ''Option value already exists'')
        else
        io_bind (store_write (update_columns attributeId
                   (\<lambda>r. r\<lparr>options := JArr (existingOptions @
                        [JObj [(''value'', JStr (fst option)), (''label'', JStr (snd option))]])\<rparr>)))
          (\<lambda>(_, error).
        case error of
          Some message \<Rightarrow> throw (Error message)
        | None \<Rightarrow>
            io_bind revalidatePath (\<lambda>_. io_return (Success None)))))))
       error_envelope"

text \<open>
  \<^verbatim>\<open>removeAttributeOption\<close> (lines 412-471); \<open>option_in_use\<close> is the callback
  \<^verbatim>\<open>attrs && attrs[attribute.attribute_key] === optionValue\<close>.
\<close>

definition option_in_use :: "string \<Rightarrow> string \<Rightarrow> variant_row \<Rightarrow> bool" where
  "option_in_use k optionValue variant =
     (js_truthy (variant_attributes variant)
      \<and> js_prop (variant_attributes variant) k = Inr (Some (JStr optionValue)))"

definition removeAttributeOption :: "int \<Rightarrow> string \<Rightarrow> unit envelope io" where
  "removeAttributeOption attributeId optionValue =
     try_catch
       (io_bind (store_read (select_attribute attributeId)) (\<lambda>(attribute, fetchError).
        case (fetchError, attribute) of
          (Some message, _) \<Rightarrow> throw (Error ''Attribute not found'')
        | (None, None) \<Rightarrow> throw (Error ''Attribute not found'')
        | (None, Some a) \<Rightarrow>
        io_bind (lift (as_array (options a))) (\<lambda>existingOptions.
        io_bind (lift (filter_value_ne existingOptions optionValue)) (\<lambda>updatedOptions.
        if length updatedOptions = length existingOptions
        then throw (Error ''Option not found'')
        else
        io_bind (store_read (select_variants (product_id a))) (\<lambda>(variants, _).
        if (case variants of None \<Rightarrow> False
            | Some vs \<Rightarrow> list_ex (option_in_use (attribute_key a) optionValue) vs)
        then throw (Error ''Cannot remove option that is used by variants'')
        else
        io_bind (store_write (update_columns attributeId (\<lambda>r. r\<lparr>options := JArr updatedOptions\<rparr>)))
          (\<lambda>(_, error).
        case error of
          Some message \<Rightarrow> throw (Error message)
        | None \<Rightarrow>
            io_bind revalidatePath (\<lambda>_. io_return (Success None))))))))
       error_envelope"

text \<open>
  \<^verbatim>\<open>getAttributeCombinations\<close> (lines 476-495); \<open>collect_options\<close> is the
  \<^verbatim>\<open>forEach\<close> over the attributes. The call of \<^verbatim>\<open>getProductAttributes\<close> is
  a call of the exported action, which constructs a client of its own.
\<close>

fun collect_options ::
  "attribute_row list \<Rightarrow> json option list js_record \<Rightarrow> exn + json option list js_record" where
  "collect_options [] combinations = Inr combinations"
| "collect_options (attr # rest) combinations =
     (case as_array (options attr) of
        Inl e \<Rightarrow> Inl e
      | Inr opts \<Rightarrow>
          (case map_value opts of
             Inl e \<Rightarrow> Inl e
           | Inr values \<Rightarrow> collect_options rest (js_set combinations (attribute_key attr) values)))"

definition getAttributeCombinations :: "int \<Rightarrow> json option list js_record io" where
  "getAttributeCombinations productId =
     try_catch
       (io_bind (exported (getProductAttributes productId)) (\<lambda>attributes.
        lift (collect_options attributes [])))
       (\<lambda>e. [])"

text \<open>
  \<^verbatim>\<open>getProductAttributeSchema\<close> (lines 535-553) and \<^verbatim>\<open>validateAttributeValues\<close>
  (lines 558-582) call a database function through \<^verbatim>\<open>supabase.rpc\<close>. The two
  database functions are not part of the sources and are parameters here. The envelope of
  \<^verbatim>\<open>validateAttributeValues\<close> carries its payload in the field \<^verbatim>\<open>valid\<close>.
\<close>

definition getProductAttributeSchema :: "(int \<Rightarrow> store \<Rightarrow> json response) \<Rightarrow> int \<Rightarrow> json io" where
  "getProductAttributeSchema get_product_attribute_schema productId =
     try_catch
       (io_bind (store_read (get_product_attribute_schema productId)) (\<lambda>(data, error).
        case error of
          Some message \<Rightarrow> throw (Error message)
        | None \<Rightarrow> io_return (or_default data (JObj []))))
       (\<lambda>e. JObj [])"

definition validateAttributeValues ::
  "(int \<Rightarrow> json js_record \<Rightarrow> store \<Rightarrow> json response) \<Rightarrow> int \<Rightarrow> json js_record
     \<Rightarrow> json envelope io" where
  "validateAttributeValues validate_attribute_values productId attributeValues =
     try_catch
       (io_bind (store_read (validate_attribute_values productId attributeValues)) (\<lambda>(data, error).
        case error of
          Some message \<Rightarrow> throw (Error message)
        | None \<Rightarrow> io_return (Success data)))
       error_envelope"

subsection \<open>Notions used to state the properties of the generator\<close>

text \<open>
  A choice is one position per key; \<open>odometer ns\<close> lists all choices below the bounds
  \<open>ns\<close> with the last position running fastest, \<open>lex_before\<close> is the strict
  lexicographic order on choices of equal length, and \<open>assignment attributes choice\<close>
  gives every key the value at its chosen position.
\<close>

fun odometer :: "nat list \<Rightarrow> nat list list" where
  "odometer [] = [[]]"
| "odometer (n # ns) = concat (map (\<lambda>i. map ((#) i) (odometer ns)) [0..<n])"

fun lex_before :: "nat list \<Rightarrow> nat list \<Rightarrow> bool" where
  "lex_before (i # is) (j # js) = (i < j \<or> (i = j \<and> lex_before is js))"
| "lex_before _ _ = False"

definition assignment :: "'v list js_record \<Rightarrow> nat list \<Rightarrow> 'v js_record" where
  "assignment attributes choice = map (\<lambda>((k, vs), i). (k, vs ! i)) (zip attributes choice)"

definition valid_choice :: "'v list js_record \<Rightarrow> nat list \<Rightarrow> bool" where
  "valid_choice attributes choice = list_all2 (\<lambda>(k, vs) i. i < length vs) attributes choice"

text \<open>
  A total assignment has the keys of the mapping, in order, each with one of its values;
  the mapping is taken in iteration order, \<open>js_entries attributes\<close>.
\<close>

definition total_assignment :: "'v list js_record \<Rightarrow> 'v js_record \<Rightarrow> bool" where
  "total_assignment attributes c = list_all2 (\<lambda>(k, vs) (k', v). k' = k \<and> v \<in> set vs) attributes c"

text \<open>
  The property of the output that the specification asks for: as many combinations as the
  product of the sizes, each a total assignment, every total assignment exactly once.
\<close>

definition each_assignment_once ::
  "json option list js_record \<Rightarrow> json option js_record list \<Rightarrow> bool" where
  "each_assignment_once attributes out \<longleftrightarrow>
     length out = prod_list (map (length \<circ> snd) attributes)
     \<and> (\<forall>c \<in> set out. total_assignment (js_entries attributes) c)
     \<and> (\<forall>c. total_assignment (js_entries attributes) c \<longrightarrow> count_list out c = 1)"

text \<open>
  The invariant of the shared \<^verbatim>\<open>currentCombination\<close> at depth \<open>d\<close>: its keys are an
  initial segment of \<open>keys\<close> of length at least \<open>d\<close>, and its first \<open>d\<close> values are
  \<open>pre\<close>.
\<close>

definition prefix_inv :: "string list \<Rightarrow> nat \<Rightarrow> 'v list \<Rightarrow> 'v js_record \<Rightarrow> bool" where
  "prefix_inv keys d pre cur \<longleftrightarrow>
     (\<exists>m. d \<le> m \<and> m \<le> length keys \<and> map fst cur = take m keys) \<and> take d (map snd cur) = pre"

text \<open>
  Nothing is emitted below a depth at which the key is the empty string or has no value
  to choose from.
\<close>

definition dead_end :: "json option list js_record \<Rightarrow> string \<Rightarrow> bool" where
  "dead_end attributes k \<longleftrightarrow> k = [] \<or> js_get attributes k = None \<or> js_get attributes k = Some []"

subsection \<open>Notions used to state the properties of the actions\<close>

text \<open>
  The keys that the store itself keeps unique: \<^verbatim>\<open>id\<close> of products, brands and
  attribute schemas, and \<^verbatim>\<open>catalog_id\<close>, the column that the foreign key of
  \<^verbatim>\<open>products\<close> references (the relationships of the generated database types).
\<close>

definition store_ok :: "store \<Rightarrow> bool" where
  "store_ok s \<longleftrightarrow>
     distinct (map product_pk (products s)) \<and> distinct (map catalog_id (product_catalogs s))
     \<and> distinct (map brand_id (brands s)) \<and> distinct (map row_id (product_attribute_schemas s))"

text \<open>User \<open>u\<close> owns the brand of the catalog of product \<open>pid\<close>.\<close>

definition owns_product :: "store \<Rightarrow> string \<Rightarrow> int \<Rightarrow> bool" where
  "owns_product s u pid =
     list_ex (\<lambda>p. product_pk p = pid \<and>
        list_ex (\<lambda>c. catalog_id c = product_catalog_id p \<and>
           list_ex (\<lambda>b. brand_id b = catalog_brand_id c \<and> brand_user_id b = u) (brands s))
          (product_catalogs s))
       (products s)"

text \<open>
  No two attribute schemas of one product share a key. The actions are the only guard
  of this property; nothing in the sources makes the store keep it.
\<close>

definition keys_unique :: "store \<Rightarrow> bool" where
  "keys_unique s = distinct (map (\<lambda>a. (product_id a, attribute_key a)) (product_attribute_schemas s))"

text \<open>
  The attribute-value map of a variant contains key \<open>k\<close>: the column holds a JSON object
  with a member \<open>k\<close>. Should the column hold a JSON array, its keys are its indices and
  \<^verbatim>\<open>length\<close>. A name is inherited when every object, or every array, has it from
  its prototype.
\<close>

fun contains_key :: "json \<Rightarrow> string \<Rightarrow> bool" where
  "contains_key (JObj fs) k = (k \<in> fst ` set fs)"
| "contains_key (JArr xs) k = (k = ''length'' \<or> index_of_key k (length xs) \<noteq> None)"
| "contains_key _ k = False"

definition inherited_name :: "string \<Rightarrow> bool" where
  "inherited_name k \<longleftrightarrow> k \<in> set Object_prototype_names \<or> k \<in> set Array_prototype_names"

text \<open>The attribute-value map of a variant has key \<open>k\<close> set to the string \<open>v\<close>.\<close>

definition holds_value :: "json \<Rightarrow> string \<Rightarrow> string \<Rightarrow> bool" where
  "holds_value j k v = (j \<noteq> JNull \<and> js_prop j k = Inr (Some (JStr v)))"

text \<open>The \<^verbatim>\<open>value\<close> field of an entry of \<^verbatim>\<open>options\<close>, and the values of a schema.\<close>

definition entry_value :: "json \<Rightarrow> json option" where
  "entry_value entry = (case js_prop entry ''value'' of Inl e \<Rightarrow> None | Inr x \<Rightarrow> x)"

definition option_values :: "attribute_row \<Rightarrow> json option list" where
  "option_values a = (case options a of JArr opts \<Rightarrow> map entry_value opts | _ \<Rightarrow> [])"

text \<open>
  The column \<^verbatim>\<open>options\<close> holds what the actions cast it to,
  \<^verbatim>\<open>Array<{ value: string; label: string }>\<close>: an array, none of its entries
  \<^verbatim>\<open>null\<close>.
\<close>

definition options_ok :: "attribute_row \<Rightarrow> bool" where
  "options_ok a = (case options a of JArr opts \<Rightarrow> JNull \<notin> set opts | _ \<Rightarrow> False)"


text \<open>
  Two worlds that differ in their plans only: in the first, one call throws \<open>e\<close> after
  some calls that work; the second always works. A computation is
  \<open>caught_or_unreached\<close> when, run in the first world, it either raises \<open>e\<close> or does
  not reach the throwing call and ends as in the second world.
\<close>

definition throws_later :: "exn \<Rightarrow> world \<Rightarrow> world \<Rightarrow> bool" where
  "throws_later e w v \<longleftrightarrow>
     db w = db v \<and> session_user w = session_user v \<and> client_failure w = client_failure v
     \<and> plan v = [] \<and> (\<exists>k rest. plan w = replicate k Works @ Throws e # rest)"

definition caught_or_unreached :: "exn \<Rightarrow> 'a io \<Rightarrow> bool" where
  "caught_or_unreached e m \<longleftrightarrow>
     (\<forall>w v. throws_later e w v \<longrightarrow>
        fst (m w) = Inl e \<or> (fst (m w) = fst (m v) \<and> throws_later e (snd (m w)) (snd (m v))))"

subsection \<open>A small catalog\<close>

text \<open>
  The store used to evaluate the actions: the brand of user alice with one catalog and
  two products. Product 1 has the attributes size (S, M, L), color (red, blue) and
  material (cotton), the last one not variant defining, and one variant of size M;
  product 2 has an attribute fit whose options repeat a value.
\<close>

definition option_entry :: "string \<Rightarrow> string \<Rightarrow> json" where
  "option_entry v l = JObj [(''value'', JStr v), (''label'', JStr l)]"

definition schema_row :: "int \<Rightarrow> int \<Rightarrow> string \<Rightarrow> json \<Rightarrow> bool \<Rightarrow> int \<Rightarrow> attribute_row" where
  "schema_row i p k opts defining n =
     \<lparr> row_id = i, product_id = p, attribute_key = k, attribute_label = k,
       attribute_type = ''select'', options = opts, default_value = JNull,
       is_required = False, is_variant_defining = defining, validation_rules = JObj [],
       help_text = None, sort_order = n, created_at = 10 + i, updated_at = 10 + i \<rparr>"

definition demo_store :: store where
  "demo_store =
     \<lparr> brands = [\<lparr>brand_id = 1, brand_user_id = ''alice''\<rparr>],
       product_catalogs = [\<lparr>catalog_pk = 1, catalog_id = ''c1'', catalog_brand_id = 1\<rparr>],
       products = [\<lparr>product_pk = 1, product_catalog_id = ''c1''\<rparr>,
                   \<lparr>product_pk = 2, product_catalog_id = ''c1''\<rparr>],
       product_attribute_schemas =
         [schema_row 1 1 ''color'' (JArr [option_entry ''red'' ''Red'', option_entry ''blue'' ''Blue'']) True 1,
          schema_row 2 1 ''size''
            (JArr [option_entry ''S'' ''Small'', option_entry ''M'' ''Medium'', option_entry ''L'' ''Large''])
            True 0,
          schema_row 3 1 ''material'' (JArr [option_entry ''cotton'' ''Cotton'']) False 1,
          schema_row 4 2 ''fit''
            (JArr [option_entry ''slim'' ''Slim'', option_entry ''slim'' ''Narrow'', option_entry ''wide'' ''Wide''])
            True 0],
       product_variants =
         [\<lparr>variant_id = 1, variant_product_id = 1, variant_attributes = JObj [(''size'', JStr ''M'')]\<rparr>],
       next_schema_id = 5,
       now = 100 \<rparr>"

text \<open>The world of a caller signed in as \<open>u\<close>, with a store that always works.\<close>

definition demo_world :: "string option \<Rightarrow> world" where
  "demo_world u = \<lparr> db = demo_store, session_user = u, plan = [], client_failure = None \<rparr>"

text \<open>The same store after a second schema with key color has come to product 1.\<close>

definition twin_world :: world where
  "twin_world =
     \<lparr> db = demo_store\<lparr>product_attribute_schemas :=
              product_attribute_schemas demo_store @ [schema_row 5 1 ''color'' (JArr []) True 2],
            next_schema_id := 6\<rparr>,
       session_user = Some ''alice'', plan = [], client_failure = None \<rparr>"

definition new_attribute :: "int \<Rightarrow> string \<Rightarrow> CreateAttributeData" where
  "new_attribute p k =
     \<lparr> new_product_id = p, new_attribute_key = k, new_attribute_label = k,
       new_attribute_type = ''select'', new_options = None, new_default_value = None,
       new_is_required = None, new_is_variant_defining = None, new_validation_rules = None,
       new_help_text = None, new_sort_order = None \<rparr>"

text \<open>An update that changes the key of a schema and supplies nothing else.\<close>

definition rename_key :: "int \<Rightarrow> string \<Rightarrow> UpdateAttributeData" where
  "rename_key i k =
     \<lparr> upd_id = i, upd_product_id = None, upd_attribute_key = Some k,
       upd_attribute_label = None, upd_attribute_type = None, upd_options = None,
       upd_default_value = None, upd_is_required = None, upd_is_variant_defining = None,
       upd_validation_rules = None, upd_help_text = None, upd_sort_order = None \<rparr>"

text \<open>The mapping \<^verbatim>\<open>{"__proto__": ["a", "c"], "x": ["b", "d"]}\<close>, as \<^verbatim>\<open>JSON.parse\<close> builds it.\<close>

definition proto_mapping :: "json option list js_record" where
  "proto_mapping =
     [(''__proto__'', [Some (JStr ''a''), Some (JStr ''c'')]), (''x'', [Some (JStr ''b''), Some (JStr ''d'')])]"

text \<open>The small catalog after alice has given product 1 an attribute with the key constructor.\<close>

definition constructor_world :: world where
  "constructor_world =
     \<lparr> db = demo_store\<lparr>product_attribute_schemas :=
              product_attribute_schemas demo_store @ [schema_row 5 1 ''constructor'' (JArr []) True 2],
            next_schema_id := 6\<rparr>,
       session_user = Some ''alice'', plan = [], client_failure = None \<rparr>"

text \<open>
  The small catalog after an update has set the options of the attribute material to
  \<^verbatim>\<open>null\<close>, which the column admits.
\<close>

definition null_options_world :: world where
  "null_options_world =
     \<lparr> db = update_where_id 3 (\<lambda>a. a\<lparr>options := JNull\<rparr>) demo_store,
       session_user = None, plan = [], client_failure = None \<rparr>"

text \<open>The world of alice when the client cannot be constructed.\<close>

definition clientless_world :: world where
  "clientless_world =
     \<lparr> db = demo_store, session_user = Some ''alice'', plan = [],
       client_failure = Some (Error ''no request scope'') \<rparr>"

section \<open>Properties of the combination generator\<close>

lemma update_at_position:
  "distinct (map fst al) \<Longrightarrow> i < length al \<Longrightarrow> fst (al ! i) = k \<Longrightarrow>
     AList.update k v al = al[i := (k, v)]"
proof (induction al arbitrary: i)
  case Nil
  then show ?case by simp
next
  case (Cons p al)
  show ?case
  proof (cases i)
    case 0
    with Cons.prems show ?thesis by (cases p) simp
  next
    case (Suc j)
    with Cons.prems have "fst p \<noteq> k"
      by (metis distinct.simps(2) length_Cons list.simps(9) not_less_eq nth_Cons_Suc nth_map nth_mem length_map)
    with Cons Suc show ?thesis by simp
  qed
qed

lemma update_fresh_key:
  "k \<notin> fst ` set al \<Longrightarrow> AList.update k v al = al @ [(k, v)]"
  by (induction al) auto

lemma update_prefix:
  assumes dk: "distinct keys" and d: "d < length keys"
    and cur: "map fst cur = take m keys" and dm: "d \<le> m" and mn: "m \<le> length keys"
  shows "map fst (AList.update (keys ! d) v cur) = take (max m (Suc d)) keys
       \<and> take (Suc d) (map snd (AList.update (keys ! d) v cur)) = take d (map snd cur) @ [v]"
proof (cases "d < m")
  case True
  from cur mn have len: "length cur = m"
    by (metis length_map length_take min.absorb2)
  have "fst (cur ! d) = keys ! d"
    using cur True len by (metis nth_map nth_take)
  moreover have "distinct (map fst cur)" using cur dk by simp
  ultimately have upd: "AList.update (keys ! d) v cur = cur[d := (keys ! d, v)]"
    using True len by (simp add: update_at_position)
  have "map fst (cur[d := (keys ! d, v)]) = (take m keys)[d := keys ! d]"
    by (simp add: map_update cur)
  also have "\<dots> = take m keys"
    using True d by (metis list_update_id nth_take)
  finally have a: "map fst (AList.update (keys ! d) v cur) = take (max m (Suc d)) keys"
    using upd True by (simp add: max_absorb1 Suc_leI)
  have "take (Suc d) (map snd (cur[d := (keys ! d, v)])) = take d (map snd cur) @ [v]"
    using True len by (simp add: map_update take_Suc_conv_app_nth)
  with a upd show ?thesis by simp
next
  case False
  with dm have md: "m = d" by simp
  from cur mn have len: "length cur = m"
    by (metis length_map length_take min.absorb2)
  have "keys ! d \<notin> set (take d keys)"
    using dk d by (metis distinct_take id_take_nth_drop distinct_append disjoint_iff list.set_intros(1) set_append UnCI not_distinct_conv_prefix)
  then have "keys ! d \<notin> fst ` set cur"
    using cur md by (metis set_map)
  then have upd: "AList.update (keys ! d) v cur = cur @ [(keys ! d, v)]"
    by (simp add: update_fresh_key)
  have "map fst (cur @ [(keys ! d, v)]) = take (Suc d) keys"
    using cur md d by (simp add: take_Suc_conv_app_nth)
  moreover have "take (Suc d) (map snd (cur @ [(keys ! d, v)])) = take d (map snd cur) @ [v]"
    using len md by simp
  ultimately show ?thesis using upd md by (simp add: max_def)
qed

lemma mset_key_order: "mset (key_order ks) = mset ks"
proof -
  have "filter_mset (\<lambda>k. array_index k \<noteq> None) (mset ks)
          + filter_mset (\<lambda>k. \<not> array_index k \<noteq> None) (mset ks) = mset ks"
    by (rule multiset_partition[symmetric])
  then show ?thesis by (simp add: key_order_def)
qed

lemma set_key_order: "set (key_order ks) = set ks"
  by (metis mset_key_order set_mset_mset)

lemma distinct_key_order: "distinct (key_order ks) = distinct ks"
  by (metis mset_key_order mset_eq_imp_distinct_iff)

lemma length_key_order: "length (key_order ks) = length ks"
  by (metis mset_key_order mset_eq_length)

lemma key_order_idem: "key_order (key_order ks) = key_order ks"
proof -
  let ?f = "\<lambda>k. case array_index k of Some n \<Rightarrow> n | None \<Rightarrow> (0::nat)"
  let ?P = "\<lambda>k. array_index k \<noteq> None"
  let ?Q = "\<lambda>k. array_index k = None"
  let ?idx = "sort_key ?f (filter ?P ks)"
  have a: "filter ?P ?idx = ?idx"
    by (simp add: filter_sort)
  have b: "filter ?P (filter ?Q ks) = []"
    by (auto simp: filter_empty_conv)
  have c: "filter ?Q ?idx = []"
    by (auto simp: filter_empty_conv)
  have d: "filter ?Q (filter ?Q ks) = filter ?Q ks"
    by simp
  have e: "sort_key ?f ?idx = ?idx"
    by (rule sort_key_id_if_sorted) simp
  have "key_order (?idx @ filter ?Q ks) = sort_key ?f (filter ?P ?idx @ filter ?P (filter ?Q ks))
          @ (filter ?Q ?idx @ filter ?Q (filter ?Q ks))"
    unfolding key_order_def by (simp only: filter_append)
  also have "\<dots> = ?idx @ filter ?Q ks"
    by (simp only: a b c d e append_Nil2 append_Nil)
  finally show ?thesis
    unfolding key_order_def[of ks] .
qed

lemma map_entries_distinct:
  "distinct (map fst al) \<Longrightarrow> map (\<lambda>k. (k, the (map_of al k))) (map fst al) = al"
proof -
  assume d: "distinct (map fst al)"
  have "map ((\<lambda>k. (k, the (map_of al k))) \<circ> fst) al = al"
  proof (rule map_idI)
    fix x assume "x \<in> set al"
    with d have "map_of al (fst x) = Some (snd x)" by simp
    then show "((\<lambda>k. (k, the (map_of al k))) \<circ> fst) x = x" by simp
  qed
  then show ?thesis by simp
qed

lemma js_entries_id:
  "distinct (map fst al) \<Longrightarrow> key_order (map fst al) = map fst al \<Longrightarrow> js_entries al = al"
  using map_entries_distinct[of al] by (simp add: js_entries_def Object_keys_def)

lemma map_fst_js_entries: "map fst (js_entries obj) = Object_keys obj"
  by (simp add: js_entries_def comp_def)

lemma js_entries_fixed:
  "distinct (map fst obj) \<Longrightarrow> js_entries (js_entries obj) = js_entries obj"
  by (rule js_entries_id)
     (simp_all add: map_fst_js_entries Object_keys_def distinct_key_order key_order_idem)

lemma js_get_entries:
  "k \<in> fst ` set obj \<Longrightarrow> js_get obj k = Some v \<longleftrightarrow> (k, v) \<in> set (js_entries obj)"
proof -
  assume k: "k \<in> fst ` set obj"
  then obtain w where w: "map_of obj k = Some w"
    by (metis domIff dom_map_of_conv_image_fst not_Some_eq)
  have "(k, v) \<in> set (js_entries obj) \<longleftrightarrow> v = w"
    using k w by (auto simp: js_entries_def Object_keys_def set_key_order)
  with w show ?thesis by (auto simp: js_get_def)
qed

lemma nth_js_entries:
  "i < length obj \<Longrightarrow> js_get obj (Object_keys obj ! i) = Some (snd (js_entries obj ! i))"
proof -
  assume i: "i < length obj"
  then have l: "i < length (Object_keys obj)"
    by (simp add: Object_keys_def length_key_order)
  then have "Object_keys obj ! i \<in> fst ` set obj"
    by (metis nth_mem Object_keys_def set_key_order set_map)
  then obtain w where w: "map_of obj (Object_keys obj ! i) = Some w"
    by (metis domIff dom_map_of_conv_image_fst not_Some_eq)
  with l show ?thesis by (simp add: js_entries_def js_get_def)
qed

lemma fold_emits:
  assumes step: "\<And>v cur combs. v \<in> set vs \<Longrightarrow> I cur \<Longrightarrow>
            \<exists>cur'. G v (cur, combs) = (cur', combs @ out v) \<and> I cur'"
    and "I cur"
  shows "\<exists>cur'. fold G vs (cur, combs) = (cur', combs @ concat (map out vs)) \<and> I cur'"
  using assms
proof (induction vs arbitrary: cur combs)
  case Nil
  then show ?case by simp
next
  case (Cons v vs)
  from Cons.prems obtain c1 where c1: "G v (cur, combs) = (c1, combs @ out v)" "I c1"
    by (meson list.set_intros(1))
  have "\<exists>cur'. fold G vs (c1, combs @ out v) = (cur', (combs @ out v) @ concat (map out vs)) \<and> I cur'"
    by (rule Cons.IH) (use Cons.prems c1 in auto)
  with c1 show ?case by simp
qed

lemma generateCombination_emits:
  assumes dk: "distinct keys" and ne: "[] \<notin> set keys" and np: "''__proto__'' \<notin> set keys"
    and ko: "key_order keys = keys" and keys: "keys = map fst entries"
    and get: "\<And>i. i < length keys \<Longrightarrow> js_get attributes (keys ! i) = Some (snd (entries ! i))"
  shows "d \<le> length keys \<Longrightarrow> prefix_inv keys d pre cur \<Longrightarrow>
     \<exists>cur'. generateCombination keys attributes d ((cur, p), combs) =
        ((cur', p), combs @ map (\<lambda>ch. zip keys (pre @ ch)) (product_lists (drop d (map snd entries))))
        \<and> prefix_inv keys d pre cur'"
proof (induction "length keys - d" arbitrary: d pre cur combs)
  case 0
  then have dn: "d = length keys" by simp
  from "0.prems"(2) dn have fst_cur: "map fst cur = keys" and pre: "pre = map snd cur"
    by (auto simp: prefix_inv_def)
  have "zip keys pre = cur"
    unfolding fst_cur[symmetric] pre by (simp add: zip_map_fst_snd)
  moreover have "js_spread (cur, p) = cur"
    unfolding js_spread_def using dk ko fst_cur by (simp add: js_entries_id)
  ultimately show ?case
    using dn "0.prems" keys by (simp add: generateCombination.simps)
next
  case (Suc n)
  then have dlt: "d < length keys" by simp
  let ?k = "keys ! d"
  let ?vs = "snd (entries ! d)"
  let ?rest = "product_lists (drop (Suc d) (map snd entries))"
  have kne: "?k \<noteq> []" using ne dlt by (metis nth_mem)
  have knp: "?k \<noteq> ''__proto__''" using np dlt by (metis nth_mem)
  have get: "js_get attributes ?k = Some ?vs"
    using get dlt by simp
  let ?G = "\<lambda>value st. generateCombination keys attributes (d + 1) (js_assign (fst st) ?k value, snd st)"
  let ?out = "\<lambda>v. map (\<lambda>ch. zip keys (pre @ v # ch)) ?rest"
  let ?I = "\<lambda>c. snd c = p \<and> prefix_inv keys d pre (fst c)"
  have "\<exists>cur'. fold ?G ?vs ((cur, p), combs) = (cur', combs @ concat (map ?out ?vs)) \<and> ?I cur'"
  proof (rule fold_emits[where I = ?I])
    show "?I (cur, p)" using Suc.prems by simp
  next
    fix v co cs
    assume "v \<in> set ?vs" and I: "?I co"
    obtain c where co: "co = (c, p)" using I by (cases co) simp
    from I co have inv: "prefix_inv keys d pre c" by simp
    then obtain m where m: "d \<le> m" "m \<le> length keys" "map fst c = take m keys"
      and pre: "take d (map snd c) = pre" by (auto simp: prefix_inv_def)
    have asg: "js_assign (c, p) ?k v = (AList.update ?k v c, p)"
      using knp by simp
    from update_prefix[OF dk dlt m(3) m(1) m(2), of v]
    have a: "map fst (AList.update ?k v c) = take (max m (Suc d)) keys"
      and b: "take (Suc d) (map snd (AList.update ?k v c)) = pre @ [v]"
      using pre by auto
    have inv': "prefix_inv keys (Suc d) (pre @ [v]) (AList.update ?k v c)"
      unfolding prefix_inv_def using a b m dlt by (auto intro!: exI[where x = "max m (Suc d)"])
    have "n = length keys - Suc d" using Suc.hyps(2) by simp
    from Suc.hyps(1)[OF this _ inv', of cs] dlt
    obtain c' where c': "generateCombination keys attributes (Suc d) ((AList.update ?k v c, p), cs) =
        ((c', p), cs @ map (\<lambda>ch. zip keys ((pre @ [v]) @ ch)) ?rest)"
      and inv'': "prefix_inv keys (Suc d) (pre @ [v]) c'" by auto
    have "length c = m" using m by (metis length_map length_take min.absorb2)
    then have lpre: "length pre = d" using pre m(1) by auto
    from inv'' obtain m' where m': "Suc d \<le> m'" "m' \<le> length keys" "map fst c' = take m' keys"
      and pre': "take (Suc d) (map snd c') = pre @ [v]" by (auto simp: prefix_inv_def)
    have "take d (map snd c') = take d (take (Suc d) (map snd c'))" by simp
    also have "\<dots> = pre" unfolding pre' using lpre by simp
    finally have "prefix_inv keys d pre c'"
      unfolding prefix_inv_def using m' by (auto intro!: exI[where x = m'])
    with c' asg co show "\<exists>cur'. ?G v (co, cs) = (cur', cs @ ?out v) \<and> ?I cur'"
      by simp
  qed
  moreover have "drop d (map snd entries) = ?vs # drop (Suc d) (map snd entries)"
    using dlt keys by (metis Cons_nth_drop_Suc length_map nth_map)
  then have "map (\<lambda>ch. zip keys (pre @ ch)) (product_lists (drop d (map snd entries)))
      = concat (map ?out ?vs)"
    by (simp add: map_concat comp_def)
  moreover have "generateCombination keys attributes d ((cur, p), combs) = fold ?G ?vs ((cur, p), combs)"
    using dlt kne get by (subst generateCombination.simps) (simp add: js_index_def)
  ultimately show ?case by auto
qed

lemma generateVariantCombinations_product:
  assumes "distinct (Object_keys attributes)" and "[] \<notin> set (Object_keys attributes)"
    and "''__proto__'' \<notin> set (Object_keys attributes)"
  shows "generateVariantCombinations attributes =
           map (zip (Object_keys attributes)) (product_lists (map snd (js_entries attributes)))"
proof -
  have inv: "prefix_inv (Object_keys attributes) 0 [] []"
    by (auto simp: prefix_inv_def intro: exI[where x = 0])
  have ko: "key_order (Object_keys attributes) = Object_keys attributes"
    by (simp add: Object_keys_def key_order_idem)
  have len: "length (Object_keys attributes) = length attributes"
    by (simp add: Object_keys_def length_key_order)
  from generateCombination_emits[OF assms ko map_fst_js_entries[symmetric] _ _ inv,
      of attributes Object_prototype "[]"] nth_js_entries[of _ attributes] len
  show ?thesis
    by (auto simp: generateVariantCombinations_def)
qed

lemma fold_keeps_snd:
  assumes "\<And>v st. v \<in> set vs \<Longrightarrow> snd (G v st) = snd st"
  shows "snd (fold G vs st) = snd st"
  using assms by (induction vs arbitrary: st) auto

lemma generateCombination_dead_end:
  "d \<le> length keys \<Longrightarrow> \<exists>k \<in> set (drop d keys). dead_end attributes k \<Longrightarrow>
     snd (generateCombination keys attributes d st) = snd st"
proof (induction "length keys - d" arbitrary: d st)
  case 0
  then show ?case by simp
next
  case (Suc n)
  then have dlt: "d < length keys" by simp
  note gen = generateCombination.simps[of keys attributes d]
  obtain cur combs where st: "st = (cur, combs)" by (cases st)
  show ?case
  proof (cases "dead_end attributes (keys ! d)")
    case True
    with dlt st show ?thesis by (auto simp: gen js_index_def dead_end_def)
  next
    case False
    have "drop d keys = keys ! d # drop (Suc d) keys"
      using dlt by (simp add: Cons_nth_drop_Suc)
    with Suc.prems False have rest: "\<exists>k \<in> set (drop (Suc d) keys). dead_end attributes k"
      by auto
    have n: "n = length keys - Suc d" using Suc.hyps(2) by simp
    have inner: "\<And>v s. snd (generateCombination keys attributes (Suc d) s) = snd s"
      using Suc.hyps(1)[OF n _ rest] dlt by simp
    from False obtain vs where vs: "js_get attributes (keys ! d) = Some vs" and kne: "keys ! d \<noteq> []"
      by (auto simp: dead_end_def)
    have "snd (fold (\<lambda>value st. generateCombination keys attributes (d + 1)
                (js_assign (fst st) (keys ! d) value, snd st)) vs (cur, combs)) = combs"
      by (subst fold_keeps_snd) (simp_all add: inner)
    with dlt st kne vs show ?thesis by (simp add: gen js_index_def)
  qed
qed

lemma generateVariantCombinations_dead_end:
  assumes "\<exists>k \<in> set (Object_keys attributes). dead_end attributes k"
  shows "generateVariantCombinations attributes = []"
  using generateCombination_dead_end[of 0 "Object_keys attributes" attributes "(([], Object_prototype), [])"] assms
  by (simp add: generateVariantCombinations_def)

lemma generateVariantCombinations_empty_key:
  assumes "[] \<in> set (Object_keys attributes)"
  shows "generateVariantCombinations attributes = []"
  using assms by (intro generateVariantCombinations_dead_end) (auto simp: dead_end_def)

lemma generateVariantCombinations_no_value:
  assumes "distinct (map fst attributes)" and "[] \<in> snd ` set attributes"
  shows "generateVariantCombinations attributes = []"
proof -
  from assms(2) obtain k where k: "(k, []) \<in> set attributes" by force
  with assms(1) have "js_get attributes k = Some []"
    by (simp add: js_get_def)
  moreover from k have "k \<in> set (Object_keys attributes)"
    by (force simp: Object_keys_def set_key_order)
  ultimately show ?thesis
    by (intro generateVariantCombinations_dead_end) (auto simp: dead_end_def)
qed

lemma odometer_valid:
  "c \<in> set (odometer ns) \<Longrightarrow> list_all2 (<) c ns"
  by (induction ns arbitrary: c) auto

lemma sorted_wrt_concat_upt:
  assumes "\<And>i. i < n \<Longrightarrow> sorted_wrt P (g i)"
    and "\<And>i j x y. i < j \<Longrightarrow> j < n \<Longrightarrow> x \<in> set (g i) \<Longrightarrow> y \<in> set (g j) \<Longrightarrow> P x y"
  shows "sorted_wrt P (concat (map g [0..<n]))"
  using assms
proof (induction n)
  case 0
  then show ?case by simp
next
  case (Suc n)
  have "sorted_wrt P (concat (map g [0..<n]))"
    by (rule Suc.IH) (use Suc.prems in auto)
  moreover have "sorted_wrt P (g n)" using Suc.prems(1) by simp
  moreover have "\<forall>x\<in>set (concat (map g [0..<n])). \<forall>y\<in>set (g n). P x y"
    using Suc.prems(2) by auto
  ultimately show ?case by (simp add: sorted_wrt_append)
qed

lemma odometer_sorted: "sorted_wrt lex_before (odometer ns)"
proof (induction ns)
  case Nil
  then show ?case by simp
next
  case (Cons n ns)
  show ?case
    unfolding odometer.simps
    by (rule sorted_wrt_concat_upt) (use Cons in \<open>auto simp: sorted_wrt_map\<close>)
qed

lemma product_lists_odometer:
  "product_lists vss = map (\<lambda>c. map (\<lambda>(vs, i). vs ! i) (zip vss c)) (odometer (map length vss))"
proof (induction vss)
  case Nil
  then show ?case by simp
next
  case (Cons vs vss)
  have "map (\<lambda>v. map ((#) v) (product_lists vss)) vs
      = map (\<lambda>i. map ((#) (vs ! i)) (product_lists vss)) [0..<length vs]"
    by (rule nth_equalityI) simp_all
  then show ?case
    by (simp add: Cons map_concat comp_def)
qed

lemma zip_keys_assignment:
  "zip (map fst attributes) (map (\<lambda>(vs, i). vs ! i) (zip (map snd attributes) c))
     = assignment attributes c"
  unfolding assignment_def
  by (induction attributes arbitrary: c) (auto split: list.splits prod.splits simp: zip_Cons1)

lemma valid_choice_odometer:
  "c \<in> set (odometer (map (length \<circ> snd) attributes)) \<Longrightarrow> valid_choice attributes c"
  unfolding valid_choice_def
  by (drule odometer_valid) (auto simp: list_all2_conv_all_nth split: prod.splits)

lemma length_product_lists_prod:
  "length (product_lists xss) = prod_list (map length xss)"
  by (induction xss) (simp_all add: length_concat comp_def sum_list_triv)

lemma total_assignment_iff:
  "total_assignment attributes c \<longleftrightarrow>
     (\<exists>xs. list_all2 (\<lambda>x ys. x \<in> set ys) xs (map snd attributes) \<and> c = zip (map fst attributes) xs)"
proof
  assume t: "total_assignment attributes c"
  have "map fst c = map fst attributes"
    using t unfolding total_assignment_def by (induction rule: list_all2_induct) auto
  then have "c = zip (map fst attributes) (map snd c)"
    by (metis zip_map_fst_snd)
  moreover have "list_all2 (\<lambda>x ys. x \<in> set ys) (map snd c) (map snd attributes)"
    using t unfolding total_assignment_def by (induction rule: list_all2_induct) auto
  ultimately show "\<exists>xs. list_all2 (\<lambda>x ys. x \<in> set ys) xs (map snd attributes) \<and> c = zip (map fst attributes) xs"
    by blast
next
  assume "\<exists>xs. list_all2 (\<lambda>x ys. x \<in> set ys) xs (map snd attributes) \<and> c = zip (map fst attributes) xs"
  then show "total_assignment attributes c"
    by (auto simp: total_assignment_def list_all2_conv_all_nth split: prod.splits)
qed

lemma set_generateVariantCombinations:
  assumes "distinct (Object_keys attributes)" and "[] \<notin> set (Object_keys attributes)"
    and "''__proto__'' \<notin> set (Object_keys attributes)"
  shows "c \<in> set (generateVariantCombinations attributes) \<longleftrightarrow>
           total_assignment (js_entries attributes) c"
  unfolding generateVariantCombinations_product[OF assms] total_assignment_iff
  by (auto simp: product_lists_set map_fst_js_entries)

lemma distinct_generateVariantCombinations:
  assumes "distinct (Object_keys attributes)" and "[] \<notin> set (Object_keys attributes)"
    and "''__proto__'' \<notin> set (Object_keys attributes)"
    and "\<forall>vs \<in> snd ` set (js_entries attributes). distinct vs"
  shows "distinct (generateVariantCombinations attributes)"
proof -
  let ?vss = "map snd (js_entries attributes)"
  have "distinct (product_lists ?vss)"
    using assms(4) by (intro distinct_product_lists) auto
  moreover have "inj_on (zip (Object_keys attributes)) (set (product_lists ?vss))"
  proof (rule inj_onI)
    fix xs ys
    assume "xs \<in> set (product_lists ?vss)" "ys \<in> set (product_lists ?vss)"
      and eq: "zip (Object_keys attributes) xs = zip (Object_keys attributes) ys"
    then have "length xs = length (Object_keys attributes)" "length ys = length (Object_keys attributes)"
      by (auto simp: js_entries_def dest: in_set_product_lists_length)
    with eq show "xs = ys"
      by (metis map_snd_zip)
  qed
  ultimately show ?thesis
    unfolding generateVariantCombinations_product[OF assms(1,2,3)]
    by (simp add: distinct_map)
qed

lemma count_list_distinct:
  "distinct xs \<Longrightarrow> x \<in> set xs \<Longrightarrow> count_list xs x = 1"
  by (induction xs) (auto simp: count_list_0_iff)

text \<open>The equations that evaluate the generator on a given mapping.\<close>

lemmas generator_eval =
  generateVariantCombinations_def Object_keys_def key_order_def array_index_def is_digit_def
  numeral_value_def generateCombination.simps js_index_def js_get_def js_spread_def js_entries_def

subsection \<open>C1: the order of the combinations\<close>

text \<open>
  For every mapping whose keys are distinct and none of them \<^verbatim>\<open>__proto__\<close>,
  \<open>generateVariantCombinations\<close> emits its combinations in lexicographic order with
  respect to the key order and, within each key, the order of its values: the output is
  the list of assignments of a strictly lexicographically increasing list of choices, each
  of them a valid choice of one position per key; and when no key is the empty string these
  are all the choices in odometer order, the last key running fastest.
\<close>

lemma generateVariantCombinations_lexicographic:
  assumes "distinct (Object_keys attributes)" and "''__proto__'' \<notin> set (Object_keys attributes)"
  shows "\<exists>choices.
            generateVariantCombinations attributes = map (assignment (js_entries attributes)) choices
          \<and> sorted_wrt lex_before choices
          \<and> (\<forall>c \<in> set choices. valid_choice (js_entries attributes) c)
          \<and> ([] \<notin> set (Object_keys attributes) \<longrightarrow>
               choices = odometer (map (length \<circ> snd) (js_entries attributes)))"
proof (cases "[] \<in> set (Object_keys attributes)")
  case True
  then have "generateVariantCombinations attributes = map (assignment (js_entries attributes)) []"
    by (simp add: generateVariantCombinations_empty_key)
  then show ?thesis using True by (intro exI[where x = "[]"]) simp
next
  case False
  let ?e = "js_entries attributes"
  let ?cs = "odometer (map (length \<circ> snd) ?e)"
  have "generateVariantCombinations attributes = map (assignment ?e) ?cs"
    unfolding generateVariantCombinations_product[OF assms(1) False assms(2)]
      map_fst_js_entries[symmetric]
    by (subst product_lists_odometer) (simp add: comp_def zip_keys_assignment)
  moreover have "sorted_wrt lex_before ?cs" by (rule odometer_sorted)
  moreover have "\<forall>c \<in> set ?cs. valid_choice ?e c"
    using valid_choice_odometer by blast
  ultimately show ?thesis by blast
qed

text \<open>
  Claim C1 at a failing input. The mapping \<^verbatim>\<open>{"__proto__": ["a", "c"], "x": ["b", "d"]}\<close>,
  as \<^verbatim>\<open>JSON.parse\<close> builds it, has the two own keys \<^verbatim>\<open>__proto__\<close> and
  \<^verbatim>\<open>x\<close>. The claim asks for the four assignments (a,b), (a,d), (c,b), (c,d) in
  this order. The write \<^verbatim>\<open>currentCombination['__proto__'] = value\<close> reaches the
  accessor of \<^verbatim>\<open>Object.prototype\<close> and creates no property, so the generator emits
  \<^verbatim>\<open>{x: b}, {x: d}, {x: b}, {x: d}\<close>: no combination carries the first key, each
  one comes twice, and \<^verbatim>\<open>{x: d}\<close> precedes \<^verbatim>\<open>{x: b}\<close>; likewise
  \<^verbatim>\<open>{"__proto__": ["a"], "x": ["b"]}\<close> gives \<^verbatim>\<open>{x: b}\<close> alone. For the mapping of the
  specification, \<^verbatim>\<open>{color: [red, blue], size: [S, M, L]}\<close>, the output is as the
  claim says.
\<close>

theorem generateVariantCombinations_proto_key:
  "Object_keys proto_mapping = [''__proto__'', ''x'']
   \<and> map (assignment (js_entries proto_mapping)) (odometer (map (length \<circ> snd) (js_entries proto_mapping))) =
       [[(''__proto__'', Some (JStr ''a'')), (''x'', Some (JStr ''b''))],
        [(''__proto__'', Some (JStr ''a'')), (''x'', Some (JStr ''d''))],
        [(''__proto__'', Some (JStr ''c'')), (''x'', Some (JStr ''b''))],
        [(''__proto__'', Some (JStr ''c'')), (''x'', Some (JStr ''d''))]]
   \<and> generateVariantCombinations proto_mapping =
       [[(''x'', Some (JStr ''b''))], [(''x'', Some (JStr ''d''))],
        [(''x'', Some (JStr ''b''))], [(''x'', Some (JStr ''d''))]]
   \<and> generateVariantCombinations [(''__proto__'', [Some (JStr ''a'')]), (''x'', [Some (JStr ''b'')])] =
       [[(''x'', Some (JStr ''b''))]]
   \<and> generateVariantCombinations
         [(''color'', [Some (JStr ''red''), Some (JStr ''blue'')]),
          (''size'', [Some (JStr ''S''), Some (JStr ''M''), Some (JStr ''L'')])] =
       [[(''color'', Some (JStr ''red'')), (''size'', Some (JStr ''S''))],
        [(''color'', Some (JStr ''red'')), (''size'', Some (JStr ''M''))],
        [(''color'', Some (JStr ''red'')), (''size'', Some (JStr ''L''))],
        [(''color'', Some (JStr ''blue'')), (''size'', Some (JStr ''S''))],
        [(''color'', Some (JStr ''blue'')), (''size'', Some (JStr ''M''))],
        [(''color'', Some (JStr ''blue'')), (''size'', Some (JStr ''L''))]]"
  by (simp add: proto_mapping_def generator_eval assignment_def upt_rec)

subsection \<open>C2: the combinations are the Cartesian product\<close>

lemma mset_js_entries:
  assumes "distinct (map fst obj)"
  shows "mset (js_entries obj) = mset obj"
proof -
  have "mset (js_entries obj) = image_mset (\<lambda>k. (k, the (map_of obj k))) (mset (key_order (map fst obj)))"
    by (simp add: js_entries_def Object_keys_def)
  also have "\<dots> = mset (map (\<lambda>k. (k, the (map_of obj k))) (map fst obj))"
    by (simp only: mset_key_order mset_map)
  also have "\<dots> = mset obj"
    using assms by (simp only: map_entries_distinct)
  finally show ?thesis .
qed

lemma prod_list_js_entries:
  assumes "distinct (map fst obj)"
  shows "prod_list (map (length \<circ> snd) (js_entries obj)) = prod_list (map (length \<circ> snd) obj)"
proof -
  have "mset (map (length \<circ> snd) (js_entries obj)) = mset (map (length \<circ> snd) obj)"
    using mset_js_entries[OF assms] by (metis mset_map)
  then show ?thesis
    by (metis prod_mset_prod_list)
qed

text \<open>
  Claim C2 asks, for every mapping, for as many combinations as the product of the sizes
  of the value sequences, each a total assignment, every total assignment exactly once
  (\<open>each_assignment_once\<close>). A value that occurs twice in a sequence is used twice:
  for \<^verbatim>\<open>{color: [red, red]}\<close> the only total assignment is emitted two times. And
  the guard \<^verbatim>\<open>if (!currentKey) return\<close> stops at a key that is the empty string: for
  the mapping of the empty string to \<^verbatim>\<open>[a]\<close> nothing is emitted, where the product
  of the sizes is 1.
\<close>

theorem generateVariantCombinations_repeated_value:
  "total_assignment (js_entries [(''color'', [Some (JStr ''red''), Some (JStr ''red'')])])
     [(''color'', Some (JStr ''red''))]
   \<and> count_list (generateVariantCombinations [(''color'', [Some (JStr ''red''), Some (JStr ''red'')])])
         [(''color'', Some (JStr ''red''))] = 2
   \<and> \<not> each_assignment_once [(''color'', [Some (JStr ''red''), Some (JStr ''red'')])]
          (generateVariantCombinations [(''color'', [Some (JStr ''red''), Some (JStr ''red'')])])
   \<and> generateVariantCombinations [('''', [Some (JStr ''a'')])] = []
   \<and> prod_list (map (length \<circ> snd) [('''', [Some (JStr ''a'')])]) = 1
   \<and> \<not> each_assignment_once [('''', [Some (JStr ''a'')])]
          (generateVariantCombinations [('''', [Some (JStr ''a'')])])"
proof -
  let ?m = "[(''color'', [Some (JStr ''red''), Some (JStr ''red'')])]"
  have t: "total_assignment (js_entries ?m) [(''color'', Some (JStr ''red''))]"
    by (simp add: total_assignment_def generator_eval)
  have c: "count_list (generateVariantCombinations ?m) [(''color'', Some (JStr ''red''))] = 2"
    by (simp add: generator_eval)
  have "\<not> each_assignment_once ?m (generateVariantCombinations ?m)"
  proof
    assume "each_assignment_once ?m (generateVariantCombinations ?m)"
    with t have "count_list (generateVariantCombinations ?m) [(''color'', Some (JStr ''red''))] = 1"
      unfolding each_assignment_once_def by blast
    with c show False by simp
  qed
  moreover have e: "generateVariantCombinations [('''', [Some (JStr ''a'')])] = []"
    by (simp add: generator_eval)
  moreover have "\<not> each_assignment_once [('''', [Some (JStr ''a'')])]
      (generateVariantCombinations [('''', [Some (JStr ''a'')])])"
    unfolding e by (simp add: each_assignment_once_def)
  ultimately show ?thesis
    using t c by simp
qed

text \<open>
  Claim C2, amended. For every mapping with distinct keys: the empty mapping yields exactly
  the empty assignment; a mapping with an empty value sequence yields no combination; and
  when no key is the empty string or \<^verbatim>\<open>__proto__\<close>, the number of combinations is
  the product of the sizes of the value sequences, the combinations are exactly the total
  assignments, and every total assignment occurs exactly once provided no value sequence
  repeats a value.
\<close>

theorem generateVariantCombinations_cartesian:
  assumes "distinct (Object_keys attributes)"
  shows "(attributes = [] \<longrightarrow> generateVariantCombinations attributes = [[]])
       \<and> ([] \<in> snd ` set attributes \<longrightarrow> generateVariantCombinations attributes = [])
       \<and> ([] \<notin> set (Object_keys attributes) \<and> ''__proto__'' \<notin> set (Object_keys attributes) \<longrightarrow>
            length (generateVariantCombinations attributes) = prod_list (map (length \<circ> snd) attributes)
          \<and> (\<forall>c. c \<in> set (generateVariantCombinations attributes) \<longleftrightarrow>
                   total_assignment (js_entries attributes) c)
          \<and> ((\<forall>vs \<in> snd ` set attributes. distinct vs) \<longrightarrow>
               (\<forall>c. total_assignment (js_entries attributes) c \<longrightarrow>
                  count_list (generateVariantCombinations attributes) c = 1)))"
proof (intro conjI impI)
  assume "attributes = []"
  then show "generateVariantCombinations attributes = [[]]"
    by (simp add: generator_eval)
next
  assume "[] \<in> snd ` set attributes"
  moreover have "distinct (map fst attributes)"
    using assms by (simp add: Object_keys_def distinct_key_order)
  ultimately show "generateVariantCombinations attributes = []"
    by (intro generateVariantCombinations_no_value)
next
  assume "[] \<notin> set (Object_keys attributes) \<and> ''__proto__'' \<notin> set (Object_keys attributes)"
  then have ne: "[] \<notin> set (Object_keys attributes)"
    and np: "''__proto__'' \<notin> set (Object_keys attributes)" by simp_all
  have d: "distinct (map fst attributes)"
    using assms by (simp add: Object_keys_def distinct_key_order)
  show "length (generateVariantCombinations attributes) = prod_list (map (length \<circ> snd) attributes)"
    unfolding generateVariantCombinations_product[OF assms ne np] prod_list_js_entries[OF d, symmetric]
    by (simp add: length_product_lists_prod)
  show "\<forall>c. c \<in> set (generateVariantCombinations attributes) \<longleftrightarrow>
              total_assignment (js_entries attributes) c"
    using set_generateVariantCombinations[OF assms ne np] by blast
  assume "\<forall>vs \<in> snd ` set attributes. distinct vs"
  moreover have "set (js_entries attributes) = set attributes"
    using mset_js_entries[OF d] by (metis set_mset_mset)
  ultimately have dv: "\<forall>vs \<in> snd ` set (js_entries attributes). distinct vs" by simp
  show "\<forall>c. total_assignment (js_entries attributes) c \<longrightarrow>
          count_list (generateVariantCombinations attributes) c = 1"
    using distinct_generateVariantCombinations[OF assms ne np dv]
      set_generateVariantCombinations[OF assms ne np]
    by (simp add: count_list_distinct)
qed

text \<open>The theorem at the mapping \<^verbatim>\<open>{a: [x, y], b: [z]}\<close> and at \<^verbatim>\<open>{a: [x], b: []}\<close>.\<close>

theorem generateVariantCombinations_cartesian_witness:
  "distinct (Object_keys [(''a'', [Some (JStr ''x''), Some (JStr ''y'')]), (''b'', [Some (JStr ''z'')])])
   \<and> [] \<notin> set (Object_keys [(''a'', [Some (JStr ''x''), Some (JStr ''y'')]), (''b'', [Some (JStr ''z'')])])
   \<and> ''__proto__'' \<notin> set (Object_keys [(''a'', [Some (JStr ''x''), Some (JStr ''y'')]), (''b'', [Some (JStr ''z'')])])
   \<and> distinct [Some (JStr ''x''), Some (JStr ''y'')] \<and> distinct [Some (JStr ''z'')]
   \<and> length (generateVariantCombinations
         [(''a'', [Some (JStr ''x''), Some (JStr ''y'')]), (''b'', [Some (JStr ''z'')])]) = 2
   \<and> total_assignment (js_entries [(''a'', [Some (JStr ''x''), Some (JStr ''y'')]), (''b'', [Some (JStr ''z'')])])
         [(''a'', Some (JStr ''y'')), (''b'', Some (JStr ''z''))]
   \<and> count_list (generateVariantCombinations
         [(''a'', [Some (JStr ''x''), Some (JStr ''y'')]), (''b'', [Some (JStr ''z'')])])
         [(''a'', Some (JStr ''y'')), (''b'', Some (JStr ''z''))] = 1
   \<and> [] \<in> snd ` set [(''a'', [Some (JStr ''x'')]), (''b'', [])]
   \<and> generateVariantCombinations [(''a'', [Some (JStr ''x'')]), (''b'', [])] = []
   \<and> generateVariantCombinations [] = [[]]"
proof -
  let ?m = "[(''a'', [Some (JStr ''x''), Some (JStr ''y'')]), (''b'', [Some (JStr ''z'')])]"
  let ?n = "[(''a'', [Some (JStr ''x'')]), (''b'', [])]"
  have k: "Object_keys ?m = [''a'', ''b'']" and k': "Object_keys ?n = [''a'', ''b'']"
    and k'': "Object_keys ([] :: json option list js_record) = []"
    by (simp_all add: generator_eval)
  have d: "distinct (Object_keys ?m)" and d': "distinct (Object_keys ?n)"
    and d'': "distinct (Object_keys ([] :: json option list js_record))"
    unfolding k k' k'' by simp_all
  have t: "total_assignment (js_entries ?m) [(''a'', Some (JStr ''y'')), (''b'', Some (JStr ''z''))]"
    by (simp add: total_assignment_def js_entries_def k)
  from generateVariantCombinations_cartesian[OF d] generateVariantCombinations_cartesian[OF d']
    generateVariantCombinations_cartesian[OF d''] t
  show ?thesis unfolding k by simp
qed

section \<open>Properties of the server actions\<close>

subsection \<open>Rows found by their keys, and the store that always works\<close>

lemma filter_key_single:
  "distinct (map f xs) \<Longrightarrow> x \<in> set xs \<Longrightarrow> filter (\<lambda>y. f y = f x) xs = [x]"
proof (induction xs)
  case Nil
  then show ?case by simp
next
  case (Cons y ys)
  show ?case
  proof (cases "y = x")
    case True
    have "filter (\<lambda>z. f z = f x) ys = []"
      using Cons.prems(1) True by (force simp: filter_empty_conv image_iff)
    with True show ?thesis by simp
  next
    case False
    with Cons.prems have "x \<in> set ys" by simp
    then have "f y \<noteq> f x" using Cons.prems(1) by auto
    with Cons \<open>x \<in> set ys\<close> show ?thesis by simp
  qed
qed

lemma find_key_single:
  "distinct (map f xs) \<Longrightarrow> x \<in> set xs \<Longrightarrow> List.find (\<lambda>y. f y = f x) xs = Some x"
proof (induction xs)
  case Nil
  then show ?case by simp
next
  case (Cons y ys)
  then show ?case by (cases "y = x") auto
qed

lemma filter_absent: "(\<forall>x \<in> set xs. \<not> P x) \<Longrightarrow> filter P xs = []"
  by (simp add: filter_empty_conv)

lemma embed_brand_owner:
  assumes "distinct (map brand_id (brands s))" "b \<in> set (brands s)"
  shows "embed_brand s (brand_id b) = Some (brand_id b, brand_user_id b)"
  using find_key_single[OF assms] by (simp add: embed_brand_def)

lemma embed_catalog_owner:
  assumes "distinct (map catalog_id (product_catalogs s))" "c \<in> set (product_catalogs s)"
  shows "embed_catalog s (catalog_id c) = Some (catalog_pk c, embed_brand s (catalog_brand_id c))"
  using find_key_single[OF assms] by (simp add: embed_catalog_def)

lemma embed_product_owner:
  assumes "distinct (map product_pk (products s))" "p \<in> set (products s)"
  shows "embed_product s (product_pk p) = Some (product_pk p, embed_catalog s (product_catalog_id p))"
  using find_key_single[OF assms] by (simp add: embed_product_def)

lemma owns_product_chain:
  assumes ok: "store_ok s" and own: "owns_product s u pid"
  shows "\<exists>c. embed_product s pid = Some (pid, c) \<and> chain_user_id (Some (pid, c)) = Some u
           \<and> select_product_owner pid s = (Some (pid, c), None)"
proof -
  from own obtain p c b where p: "p \<in> set (products s)" "product_pk p = pid"
    and c: "c \<in> set (product_catalogs s)" "catalog_id c = product_catalog_id p"
    and b: "b \<in> set (brands s)" "brand_id b = catalog_brand_id c" "brand_user_id b = u"
    by (auto simp: owns_product_def list_ex_iff)
  from ok have d: "distinct (map product_pk (products s))" "distinct (map catalog_id (product_catalogs s))"
    "distinct (map brand_id (brands s))" by (auto simp: store_ok_def)
  have eb: "embed_brand s (catalog_brand_id c) = Some (brand_id b, u)"
    using embed_brand_owner[OF d(3) b(1)] b by simp
  have ec: "embed_catalog s (product_catalog_id p) = Some (catalog_pk c, Some (brand_id b, u))"
    using embed_catalog_owner[OF d(2) c(1)] c eb by simp
  have ep: "embed_product s pid = Some (pid, Some (catalog_pk c, Some (brand_id b, u)))"
    using embed_product_owner[OF d(1) p(1)] p ec by simp
  have "filter (\<lambda>q. product_pk q = pid) (products s) = [p]"
    using filter_key_single[OF d(1) p(1)] p by simp
  then have "select_product_owner pid s = (Some (pid, Some (catalog_pk c, Some (brand_id b, u))), None)"
    using p ec by (simp add: select_product_owner_def single_def)
  with ep show ?thesis by (auto simp: chain_user_id_def)
qed

lemma select_attribute_owner_chain:
  assumes ok: "store_ok s" and a: "a \<in> set (product_attribute_schemas s)"
    and own: "owns_product s u (product_id a)"
  shows "\<exists>c. select_attribute_owner (row_id a) s =
               (Some (row_id a, attribute_key a, Some (product_id a, c)), None)
           \<and> chain_user_id (Some (product_id a, c)) = Some u"
proof -
  from owns_product_chain[OF ok own] obtain c where
    c: "embed_product s (product_id a) = Some (product_id a, c)"
       "chain_user_id (Some (product_id a, c)) = Some u" by blast
  from ok have "distinct (map row_id (product_attribute_schemas s))" by (simp add: store_ok_def)
  from filter_key_single[OF this a] c show ?thesis
    by (simp add: select_attribute_owner_def single_def)
qed

lemma select_attribute_found:
  assumes ok: "store_ok s" and a: "a \<in> set (product_attribute_schemas s)"
  shows "select_attribute (row_id a) s = (Some a, None)"
proof -
  from ok have "distinct (map row_id (product_attribute_schemas s))" by (simp add: store_ok_def)
  from filter_key_single[OF this a] show ?thesis
    by (simp add: select_attribute_def single_def)
qed

lemma select_attribute_missing:
  "\<forall>a \<in> set (product_attribute_schemas s). row_id a \<noteq> aid \<Longrightarrow>
     select_attribute aid s = (None, Some ''JSON object requested, multiple (or no) rows returned'')"
  by (simp add: select_attribute_def single_def filter_absent)

lemma next_outcome_reliable: "plan w = [] \<Longrightarrow> next_outcome w = (Works, w)"
  by (simp add: next_outcome_def)

lemma store_read_reliable: "plan w = [] \<Longrightarrow> store_read q w = (Inr (q (db w)), w)"
  by (simp add: store_read_def next_outcome_reliable)

lemma store_write_reliable:
  "plan w = [] \<Longrightarrow> store_write c w = (Inr (fst (c (db w))), w\<lparr>db := snd (c (db w))\<rparr>)"
  by (simp add: store_write_def next_outcome_reliable)

lemma auth_getUser_reliable: "plan w = [] \<Longrightarrow> auth_getUser w = (Inr (session_user w), w)"
  by (simp add: auth_getUser_def next_outcome_reliable)

lemma revalidatePath_reliable: "plan w = [] \<Longrightarrow> revalidatePath w = (Inr (), w)"
  by (simp add: revalidatePath_def next_outcome_reliable)

lemmas reliable = store_read_reliable store_write_reliable auth_getUser_reliable revalidatePath_reliable

lemmas io_defs = io_bind_def io_return_def throw_def try_catch_def lift_def error_envelope_def

lemma js_prop_entry_value: "entry \<noteq> JNull \<Longrightarrow> js_prop entry ''value'' = Inr (entry_value entry)"
  by (cases entry) (simp_all add: entry_value_def)

lemma filter_value_ne_total:
  "JNull \<notin> set opts \<Longrightarrow>
     filter_value_ne opts v = Inr (filter (\<lambda>entry. entry_value entry \<noteq> Some (JStr v)) opts)"
  by (induction opts) (auto simp: js_prop_entry_value)

lemma some_value_eq_total:
  "JNull \<notin> set opts \<Longrightarrow>
     some_value_eq opts v = Inr (list_ex (\<lambda>entry. entry_value entry = Some (JStr v)) opts)"
  by (induction opts) (auto simp: js_prop_entry_value)

lemma map_value_total:
  "JNull \<notin> set opts \<Longrightarrow> map_value opts = Inr (map entry_value opts)"
  by (induction opts) (auto simp: js_prop_entry_value)

lemma length_filter_none:
  "length (filter P xs) = length xs \<longleftrightarrow> (\<forall>x \<in> set xs. P x)"
  by (metis filter_id_conv length_filter_less linorder_neq_iff filter_True)

lemma demo_store_ok: "store_ok demo_store"
  by (simp add: store_ok_def demo_store_def schema_row_def)

lemma alice_owns: "owns_product demo_store ''alice'' 1" "owns_product demo_store ''alice'' 2"
  by (simp_all add: owns_product_def demo_store_def)

lemma demo_keys_unique: "keys_unique demo_store"
  by (simp add: keys_unique_def demo_store_def schema_row_def)

lemma twin_store_ok: "store_ok (db twin_world)"
  by (simp add: store_ok_def twin_world_def demo_store_def schema_row_def)

lemma demo_rows:
  "product_attribute_schemas demo_store =
     [schema_row 1 1 ''color'' (JArr [option_entry ''red'' ''Red'', option_entry ''blue'' ''Blue'']) True 1,
      schema_row 2 1 ''size''
        (JArr [option_entry ''S'' ''Small'', option_entry ''M'' ''Medium'', option_entry ''L'' ''Large''])
        True 0,
      schema_row 3 1 ''material'' (JArr [option_entry ''cotton'' ''Cotton'']) False 1,
      schema_row 4 2 ''fit''
        (JArr [option_entry ''slim'' ''Slim'', option_entry ''slim'' ''Narrow'', option_entry ''wide'' ''Wide''])
        True 0]"
  by (simp add: demo_store_def)

lemma demo_variants:
  "product_variants demo_store =
     [\<lparr>variant_id = 1, variant_product_id = 1, variant_attributes = JObj [(''size'', JStr ''M'')]\<rparr>]"
  by (simp add: demo_store_def)

lemma demo_world_simps:
  "plan (demo_world u) = []" "session_user (demo_world u) = u" "db (demo_world u) = demo_store"
  by (simp_all add: demo_world_def)

lemma entry_value_option_entry: "entry_value (option_entry v l) = Some (JStr v)"
  by (simp add: entry_value_def option_entry_def)

lemma createProductAttribute_authorized:
  assumes "plan w = []" "store_ok (db w)" "owns_product (db w) u (new_product_id data)"
    "u \<noteq> []" "session_user w = Some u"
  shows "createProductAttribute data w =
     (case fst (select_existing_key (new_product_id data) (new_attribute_key data) (db w)) of
        Some i \<Rightarrow> (Inr (Failure ''Attribute key already exists for this product''), w)
      | None \<Rightarrow> (Inr (Success (Some (new_row data (db w)))),
                  w\<lparr>db := snd (insert_schema data (db w))\<rparr>))"
proof -
  from owns_product_chain[OF assms(2,3)] obtain c where
    c: "chain_user_id (Some (new_product_id data, c)) = Some u"
       "select_product_owner (new_product_id data) (db w) = (Some (new_product_id data, c), None)"
    by blast
  show ?thesis
    unfolding createProductAttribute_def
    using assms(1,4,5) c
    by (auto simp: io_defs reliable falsy_string_def insert_schema_def split: option.splits prod.splits)
qed

subsection \<open>C3: uniqueness of the key at creation\<close>

text \<open>
  Where the claim holds. On a store with well-formed primary keys whose calls work and
  whose attribute keys are unique per product, and for the owner of the product as caller:
  \<open>createProductAttribute\<close> fails with the Conflict message whenever an attribute schema
  with the same \<^verbatim>\<open>(product_id, attribute_key)\<close> exists, and leaves the store
  unchanged; and it succeeds, appending the new row, whenever no schema of that product has
  the key, whatever keys the other products use.
\<close>

lemma createProductAttribute_uniqueness:
  assumes "plan w = []" and "store_ok (db w)"
    and "owns_product (db w) u (new_product_id data)" and "u \<noteq> []" and "session_user w = Some u"
  shows "(keys_unique (db w)
          \<and> (\<exists>a \<in> set (product_attribute_schemas (db w)).
                product_id a = new_product_id data \<and> attribute_key a = new_attribute_key data)
          \<longrightarrow> createProductAttribute data w =
                (Inr (Failure ''Attribute key already exists for this product''), w))
       \<and> ((\<forall>a \<in> set (product_attribute_schemas (db w)).
              product_id a = new_product_id data \<longrightarrow> attribute_key a \<noteq> new_attribute_key data)
          \<longrightarrow> createProductAttribute data w =
                (Inr (Success (Some (new_row data (db w)))),
                 w\<lparr>db := (db w)\<lparr>product_attribute_schemas :=
                                 product_attribute_schemas (db w) @ [new_row data (db w)],
                               next_schema_id := next_schema_id (db w) + 1\<rparr>\<rparr>))"
proof (intro conjI impI)
  let ?P = "\<lambda>a. product_id a = new_product_id data \<and> attribute_key a = new_attribute_key data"
  let ?rows = "product_attribute_schemas (db w)"
  note run = createProductAttribute_authorized[OF assms]
  {
    assume "keys_unique (db w) \<and> (\<exists>a \<in> set ?rows. ?P a)"
    then obtain a where u: "distinct (map (\<lambda>a. (product_id a, attribute_key a)) ?rows)"
      and a: "a \<in> set ?rows" "?P a" by (auto simp: keys_unique_def)
    have "filter (\<lambda>y. (product_id y, attribute_key y) = (product_id a, attribute_key a)) ?rows = [a]"
      by (rule filter_key_single[OF u a(1)])
    with a(2) have "filter ?P ?rows = [a]" by simp
    then show "createProductAttribute data w =
                (Inr (Failure ''Attribute key already exists for this product''), w)"
      by (simp add: run select_existing_key_def single_def)
  next
    assume "\<forall>a \<in> set ?rows. product_id a = new_product_id data \<longrightarrow> attribute_key a \<noteq> new_attribute_key data"
    then have "filter ?P ?rows = []" by (auto simp: filter_empty_conv)
    then show "createProductAttribute data w =
                (Inr (Success (Some (new_row data (db w)))),
                 w\<lparr>db := (db w)\<lparr>product_attribute_schemas :=
                                 product_attribute_schemas (db w) @ [new_row data (db w)],
                               next_schema_id := next_schema_id (db w) + 1\<rparr>\<rparr>)"
      by (simp add: run select_existing_key_def single_def insert_schema_def)
  }
qed

text \<open>
  Claim C3 at two failing inputs. The check reads the existing schema with
  \<^verbatim>\<open>.single()\<close> and looks only at the data of the answer (lines 62-69). First, when
  the read fails, the answer carries an error and no data: in the small catalog, where
  product 1 has one schema with key color, alice creates a second one when the third call
  of the action, the uniqueness query, fails. Second, \<^verbatim>\<open>.single()\<close> yields no data
  when two schemas match: once product 1 has two schemas with key color, alice creates a
  third one with every call working.
\<close>

theorem createProductAttribute_twin_key:
  "owns_product demo_store ''alice'' 1 \<and> keys_unique demo_store
   \<and> list_ex (\<lambda>a. product_id a = 1 \<and> attribute_key a = ''color'')
        (product_attribute_schemas demo_store)
   \<and> fst (createProductAttribute (new_attribute 1 ''color'')
            (demo_world (Some ''alice'')\<lparr>plan := [Works, Works, Fails ''connection lost'']\<rparr>)) =
       Inr (Success (Some (new_row (new_attribute 1 ''color'') demo_store)))
   \<and> map (\<lambda>a. (row_id a, product_id a, attribute_key a))
        (product_attribute_schemas (db (snd (createProductAttribute (new_attribute 1 ''color'')
            (demo_world (Some ''alice'')\<lparr>plan := [Works, Works, Fails ''connection lost'']\<rparr>))))) =
       [(1, 1, ''color''), (2, 1, ''size''), (3, 1, ''material''), (4, 2, ''fit''), (5, 1, ''color'')]
   \<and> owns_product (db twin_world) ''alice'' 1 \<and> session_user twin_world = Some ''alice''
   \<and> plan twin_world = []
   \<and> list_ex (\<lambda>a. product_id a = 1 \<and> attribute_key a = ''color'')
        (product_attribute_schemas (db twin_world))
   \<and> fst (createProductAttribute (new_attribute 1 ''color'') twin_world) =
       Inr (Success (Some (new_row (new_attribute 1 ''color'') (db twin_world))))
   \<and> fst (createProductAttribute (new_attribute 1 ''color'') twin_world) \<noteq>
       Inr (Failure ''Attribute key already exists for this product'')"
proof -
  have own: "owns_product (db twin_world) ''alice'' 1"
    by (simp add: owns_product_def twin_world_def demo_store_def)
  have u: "session_user twin_world = Some ''alice''" and p: "plan twin_world = []"
    by (simp_all add: twin_world_def)
  have ex: "list_ex (\<lambda>a. product_id a = 1 \<and> attribute_key a = ''color'')
        (product_attribute_schemas (db twin_world))"
    by (simp add: twin_world_def demo_store_def schema_row_def)
  have ex': "list_ex (\<lambda>a. product_id a = 1 \<and> attribute_key a = ''color'')
        (product_attribute_schemas demo_store)"
    by (simp add: demo_store_def schema_row_def)
  have none: "fst (select_existing_key 1 ''color'' (db twin_world)) = None"
    by (simp add: select_existing_key_def single_def twin_world_def demo_store_def schema_row_def)
  have "createProductAttribute (new_attribute 1 ''color'') twin_world =
      (Inr (Success (Some (new_row (new_attribute 1 ''color'') (db twin_world)))),
       twin_world\<lparr>db := snd (insert_schema (new_attribute 1 ''color'') (db twin_world))\<rparr>)"
    using createProductAttribute_authorized[OF p twin_store_ok, of "''alice''" "new_attribute 1 ''color''"]
      own u none
    by (simp add: new_attribute_def)
  moreover have "createProductAttribute (new_attribute 1 ''color'')
        (demo_world (Some ''alice'')\<lparr>plan := [Works, Works, Fails ''connection lost'']\<rparr>) =
      (Inr (Success (Some (new_row (new_attribute 1 ''color'') demo_store))),
       demo_world (Some ''alice'')\<lparr>db := snd (insert_schema (new_attribute 1 ''color'') demo_store)\<rparr>)"
    using owns_product_chain[OF demo_store_ok alice_owns(1)]
    by (auto simp: createProductAttribute_def io_defs store_read_def store_write_def auth_getUser_def
          revalidatePath_def next_outcome_def demo_world_def new_attribute_def falsy_string_def
          insert_schema_def)
  moreover have "map (\<lambda>a. (row_id a, product_id a, attribute_key a))
        (product_attribute_schemas (snd (insert_schema (new_attribute 1 ''color'') demo_store))) =
       [(1, 1, ''color''), (2, 1, ''size''), (3, 1, ''material''), (4, 2, ''fit''), (5, 1, ''color'')]"
    by (simp add: insert_schema_def new_row_def new_attribute_def demo_store_def schema_row_def)
  ultimately show ?thesis
    using own u p ex ex' alice_owns(1) demo_keys_unique by simp
qed

subsection \<open>C4: uniqueness of the key at update\<close>

text \<open>
  The outcome of an update by the owner. The uniqueness query filters on the
  \<^verbatim>\<open>product_id\<close> that the caller supplies; without one it finds nothing, so the
  Conflict message cannot arise.
\<close>

lemma updateProductAttribute_authorized:
  assumes "plan w = []" "store_ok (db w)" "a \<in> set (product_attribute_schemas (db w))"
    "upd_id data = row_id a" "owns_product (db w) u (product_id a)" "u \<noteq> []" "session_user w = Some u"
  shows "updateProductAttribute data w =
     (if (case upd_attribute_key data of None \<Rightarrow> False
          | Some k \<Rightarrow> k \<noteq> [] \<and> k \<noteq> attribute_key a
               \<and> fst (select_other_key (upd_product_id data) k (row_id a) (db w)) \<noteq> None)
      then (Inr (Failure ''Attribute key already exists for this product''), w)
      else (Inr (Success (Some (apply_update data a))),
            w\<lparr>db := update_where_id (row_id a) (apply_update data) (db w)\<rparr>))"
proof -
  from select_attribute_owner_chain[OF assms(2,3,5)] obtain c where
    c: "select_attribute_owner (row_id a) (db w) =
          (Some (row_id a, attribute_key a, Some (product_id a, c)), None)"
       "chain_user_id (Some (product_id a, c)) = Some u" by blast
  from assms(2) have "distinct (map row_id (product_attribute_schemas (db w)))"
    by (simp add: store_ok_def)
  from filter_key_single[OF this assms(3)]
  have upd: "fst (update_schema data (db w)) = (Some (apply_update data a), None)"
    "snd (update_schema data (db w)) = update_where_id (row_id a) (apply_update data) (db w)"
    using assms(4) by (simp_all add: update_schema_def single_def)
  show ?thesis
    unfolding updateProductAttribute_def
    using assms(1,4,6,7) c upd
    by (auto simp: io_defs reliable falsy_string_def split: option.splits prod.splits)
qed

lemma updateProductAttribute_no_product_id:
  assumes "plan w = []" "upd_product_id data = None"
  shows "fst (updateProductAttribute data w) \<noteq>
           Inr (Failure ''Attribute key already exists for this product'')"
  unfolding updateProductAttribute_def
  using assms
  by (auto simp: io_defs reliable select_other_key_def update_schema_def single_def
           split: option.splits prod.splits list.splits)

text \<open>
  Claim C4 at a failing input. In the small catalog, where keys are unique, alice renames
  the attribute size of product 1 to color and supplies no \<^verbatim>\<open>product_id\<close>. Product 1
  already has another schema with key color, so the claim asks for a Conflict; the action
  succeeds and leaves product 1 with two schemas of key color.
\<close>

theorem updateProductAttribute_key_collision:
  "keys_unique demo_store
   \<and> owns_product demo_store ''alice'' 1
   \<and> list_ex (\<lambda>a. product_id a = 1 \<and> attribute_key a = ''color'' \<and> row_id a \<noteq> 2)
        (product_attribute_schemas demo_store)
   \<and> list_ex (\<lambda>a. row_id a = 2 \<and> product_id a = 1 \<and> attribute_key a = ''size'')
        (product_attribute_schemas demo_store)
   \<and> fst (updateProductAttribute (rename_key 2 ''color'') (demo_world (Some ''alice''))) =
       Inr (Success (Some (schema_row 2 1 ''size''
            (JArr [option_entry ''S'' ''Small'', option_entry ''M'' ''Medium'', option_entry ''L'' ''Large''])
            True 0 \<lparr>attribute_key := ''color''\<rparr>)))
   \<and> map (\<lambda>a. (row_id a, product_id a, attribute_key a))
        (product_attribute_schemas
           (db (snd (updateProductAttribute (rename_key 2 ''color'') (demo_world (Some ''alice'')))))) =
       [(1, 1, ''color''), (2, 1, ''color''), (3, 1, ''material''), (4, 2, ''fit'')]"
proof -
  let ?w = "demo_world (Some ''alice'')"
  let ?a = "schema_row 2 1 ''size''
            (JArr [option_entry ''S'' ''Small'', option_entry ''M'' ''Medium'', option_entry ''L'' ''Large''])
            True 0"
  have p: "plan ?w = []" and s: "session_user ?w = Some ''alice''" and d: "db ?w = demo_store"
    by (simp_all add: demo_world_def)
  have ok: "store_ok (db ?w)" using demo_store_ok d by simp
  have a: "?a \<in> set (product_attribute_schemas (db ?w))"
    by (simp add: d demo_store_def)
  have i: "upd_id (rename_key 2 ''color'') = row_id ?a"
    by (simp add: rename_key_def schema_row_def)
  have o: "owns_product (db ?w) ''alice'' (product_id ?a)"
    using alice_owns(1) d by (simp add: schema_row_def)
  have r: "updateProductAttribute (rename_key 2 ''color'') ?w =
      (Inr (Success (Some (apply_update (rename_key 2 ''color'') ?a))),
            ?w\<lparr>db := update_where_id (row_id ?a) (apply_update (rename_key 2 ''color'')) (db ?w)\<rparr>)"
    using updateProductAttribute_authorized[OF p ok a i o _ s]
    by (simp add: rename_key_def select_other_key_def)
  have e: "list_ex (\<lambda>a. product_id a = 1 \<and> attribute_key a = ''color'' \<and> row_id a \<noteq> 2)
        (product_attribute_schemas demo_store)"
     "list_ex (\<lambda>a. row_id a = 2 \<and> product_id a = 1 \<and> attribute_key a = ''size'')
        (product_attribute_schemas demo_store)"
    by (simp_all add: demo_store_def schema_row_def)
  have u: "apply_update (rename_key 2 ''color'') ?a = ?a\<lparr>attribute_key := ''color''\<rparr>"
    by (simp add: apply_update_def rename_key_def override_def schema_row_def)
  have m: "map (\<lambda>a. (row_id a, product_id a, attribute_key a))
        (product_attribute_schemas
           (update_where_id (row_id ?a) (apply_update (rename_key 2 ''color'')) demo_store)) =
       [(1, 1, ''color''), (2, 1, ''color''), (3, 1, ''material''), (4, 2, ''fit'')]"
    by (simp add: update_where_id_def demo_store_def schema_row_def apply_update_def rename_key_def override_def)
  from demo_keys_unique alice_owns(1) e r u m d show ?thesis by simp
qed

subsection \<open>C5: an attribute in use is not deleted\<close>

lemma attribute_in_use_iff:
  "\<not> inherited_name k \<Longrightarrow> attribute_in_use k v \<longleftrightarrow> contains_key (variant_attributes v) k"
  by (cases "variant_attributes v")
     (auto simp: attribute_in_use_def inherited_name_def index_of_key_def find_None_iff)

lemma deleteProductAttribute_authorized:
  assumes "plan w = []" "store_ok (db w)" "a \<in> set (product_attribute_schemas (db w))"
    "owns_product (db w) u (product_id a)" "u \<noteq> []" "session_user w = Some u"
  shows "deleteProductAttribute (row_id a) w =
     (if list_ex (attribute_in_use (attribute_key a))
           (filter (\<lambda>v. variant_product_id v = product_id a) (product_variants (db w)))
      then (Inr (Failure ''Cannot delete attribute that is used by variants''), w)
      else (Inr (Success None),
            w\<lparr>db := (db w)\<lparr>product_attribute_schemas :=
                 filter (\<lambda>x. row_id x \<noteq> row_id a) (product_attribute_schemas (db w))\<rparr>\<rparr>))"
proof -
  from select_attribute_owner_chain[OF assms(2,3,4)] obtain c where
    c: "select_attribute_owner (row_id a) (db w) =
          (Some (row_id a, attribute_key a, Some (product_id a, c)), None)"
       "chain_user_id (Some (product_id a, c)) = Some u" by blast
  show ?thesis
    unfolding deleteProductAttribute_def
    using assms(1,5,6) c
    by (auto simp: io_defs reliable falsy_string_def select_variants_def delete_schema_def
             split: option.splits prod.splits)
qed

text \<open>
  Where the claim holds. For every store with well-formed primary keys whose calls work,
  every attribute schema of it whose key is not an inherited name, and the owner of its
  product as caller: \<open>deleteProductAttribute\<close> fails with the in-use Conflict message, the
  store unchanged, whenever some variant of the same product has an attribute-value map
  containing the key of the schema; and when the key is absent from all variants of the
  product, the deletion succeeds and removes exactly the rows with that id.
\<close>

lemma deleteProductAttribute_in_use_guard:
  assumes "plan w = []" and "store_ok (db w)" and "a \<in> set (product_attribute_schemas (db w))"
    and "owns_product (db w) u (product_id a)" and "u \<noteq> []" and "session_user w = Some u"
    and "\<not> inherited_name (attribute_key a)"
  shows "((\<exists>v \<in> set (product_variants (db w)).
             variant_product_id v = product_id a \<and> contains_key (variant_attributes v) (attribute_key a))
          \<longrightarrow> deleteProductAttribute (row_id a) w =
                (Inr (Failure ''Cannot delete attribute that is used by variants''), w))
       \<and> ((\<forall>v \<in> set (product_variants (db w)).
             variant_product_id v = product_id a \<longrightarrow> \<not> contains_key (variant_attributes v) (attribute_key a))
          \<longrightarrow> deleteProductAttribute (row_id a) w =
                (Inr (Success None),
                 w\<lparr>db := (db w)\<lparr>product_attribute_schemas :=
                      filter (\<lambda>x. row_id x \<noteq> row_id a) (product_attribute_schemas (db w))\<rparr>\<rparr>))"
  unfolding deleteProductAttribute_authorized[OF assms(1-6)]
  by (auto simp: list_ex_iff attribute_in_use_iff[OF assms(7)])

text \<open>
  Claim C5 at two failing inputs. First, the guard tests the key with the operator
  \<^verbatim>\<open>in\<close> (line 236), which also finds the names that every object inherits: once
  product 1 has an attribute with the key \<^verbatim>\<open>constructor\<close>, which no variant contains,
  alice cannot delete it, because the variant of product 1 holds an object. Second, the
  error of the variants query is never read (lines 226-237): in the small catalog, where
  the variant of product 1 has a size, alice deletes the attribute size when the third call
  of the action, the variants query, fails.
\<close>

theorem deleteProductAttribute_misjudged:
  "owns_product (db constructor_world) ''alice'' 1 \<and> session_user constructor_world = Some ''alice''
   \<and> plan constructor_world = []
   \<and> list_ex (\<lambda>a. row_id a = 5 \<and> product_id a = 1 \<and> attribute_key a = ''constructor'')
        (product_attribute_schemas (db constructor_world))
   \<and> product_variants (db constructor_world) =
       [\<lparr>variant_id = 1, variant_product_id = 1, variant_attributes = JObj [(''size'', JStr ''M'')]\<rparr>]
   \<and> \<not> list_ex (\<lambda>v. variant_product_id v = 1 \<and> contains_key (variant_attributes v) ''constructor'')
        (product_variants (db constructor_world))
   \<and> deleteProductAttribute 5 constructor_world =
       (Inr (Failure ''Cannot delete attribute that is used by variants''), constructor_world)
   \<and> owns_product demo_store ''alice'' 1
   \<and> list_ex (\<lambda>a. row_id a = 2 \<and> product_id a = 1 \<and> attribute_key a = ''size'')
        (product_attribute_schemas demo_store)
   \<and> list_ex (\<lambda>v. variant_product_id v = 1 \<and> contains_key (variant_attributes v) ''size'')
        (product_variants demo_store)
   \<and> fst (deleteProductAttribute 2
            (demo_world (Some ''alice'')\<lparr>plan := [Works, Works, Fails ''connection lost'']\<rparr>)) =
       Inr (Success None)
   \<and> map row_id (product_attribute_schemas (db (snd (deleteProductAttribute 2
            (demo_world (Some ''alice'')\<lparr>plan := [Works, Works, Fails ''connection lost'']\<rparr>))))) =
       [1, 3, 4]"
proof -
  let ?c = "schema_row 5 1 ''constructor'' (JArr []) True 2"
  have own: "owns_product (db constructor_world) ''alice'' 1"
    by (simp add: owns_product_def constructor_world_def demo_store_def)
  have u: "session_user constructor_world = Some ''alice''" and p: "plan constructor_world = []"
    by (simp_all add: constructor_world_def)
  have ok: "store_ok (db constructor_world)"
    by (simp add: store_ok_def constructor_world_def demo_store_def schema_row_def)
  have a: "?c \<in> set (product_attribute_schemas (db constructor_world))"
    by (simp add: constructor_world_def)
  have ex: "list_ex (\<lambda>a. row_id a = 5 \<and> product_id a = 1 \<and> attribute_key a = ''constructor'')
        (product_attribute_schemas (db constructor_world))"
    by (simp add: constructor_world_def demo_store_def schema_row_def)
  have vs: "product_variants (db constructor_world) =
       [\<lparr>variant_id = 1, variant_product_id = 1, variant_attributes = JObj [(''size'', JStr ''M'')]\<rparr>]"
    by (simp add: constructor_world_def demo_store_def)
  have absent: "\<not> list_ex (\<lambda>v. variant_product_id v = 1 \<and> contains_key (variant_attributes v) ''constructor'')
        (product_variants (db constructor_world))"
    unfolding vs by simp
  have used: "list_ex (attribute_in_use ''constructor'')
           (filter (\<lambda>v. variant_product_id v = 1) (product_variants (db constructor_world)))"
    unfolding vs by (simp add: attribute_in_use_def Object_prototype_names_def)
  have c1: "deleteProductAttribute 5 constructor_world =
       (Inr (Failure ''Cannot delete attribute that is used by variants''), constructor_world)"
    using deleteProductAttribute_authorized[OF p ok a _ _ u] own used
    by (simp add: schema_row_def)
  have e2: "list_ex (\<lambda>a. row_id a = 2 \<and> product_id a = 1 \<and> attribute_key a = ''size'')
        (product_attribute_schemas demo_store)"
    and v2: "list_ex (\<lambda>v. variant_product_id v = 1 \<and> contains_key (variant_attributes v) ''size'')
        (product_variants demo_store)"
    by (simp_all add: demo_store_def schema_row_def)
  let ?size = "schema_row 2 1 ''size''
            (JArr [option_entry ''S'' ''Small'', option_entry ''M'' ''Medium'', option_entry ''L'' ''Large''])
            True 0"
  have a2: "?size \<in> set (product_attribute_schemas demo_store)"
    by (simp add: demo_store_def)
  from select_attribute_owner_chain[OF demo_store_ok a2] alice_owns(1)
  obtain c where c: "select_attribute_owner 2 demo_store = (Some (2, ''size'', Some (1, c)), None)"
    "chain_user_id (Some (1, c)) = Some ''alice''"
    by (auto simp: schema_row_def)
  have c2: "deleteProductAttribute 2
        (demo_world (Some ''alice'')\<lparr>plan := [Works, Works, Fails ''connection lost'']\<rparr>) =
      (Inr (Success None),
       demo_world (Some ''alice'')\<lparr>db := snd (delete_schema 2 demo_store)\<rparr>)"
    using c
    by (simp add: deleteProductAttribute_def io_defs store_read_def store_write_def auth_getUser_def
          revalidatePath_def next_outcome_def demo_world_def falsy_string_def delete_schema_def)
  have m: "map row_id (product_attribute_schemas (snd (delete_schema 2 demo_store))) = [1, 3, 4]"
    by (simp add: delete_schema_def demo_store_def schema_row_def)
  from own u p ex vs absent c1 alice_owns(1) e2 v2 c2 m show ?thesis by simp
qed

subsection \<open>C6: removing an option\<close>

lemma option_in_use_iff:
  "option_in_use k v variant \<longleftrightarrow> holds_value (variant_attributes variant) k v"
  by (cases "variant_attributes variant")
     (auto simp: option_in_use_def holds_value_def index_of_key_def split: if_splits)

lemma removeAttributeOption_found:
  assumes "plan w = []" "store_ok (db w)" "a \<in> set (product_attribute_schemas (db w))"
    "options a = JArr opts" "JNull \<notin> set opts"
  shows "removeAttributeOption (row_id a) v w =
     (if \<forall>entry \<in> set opts. entry_value entry \<noteq> Some (JStr v)
      then (Inr (Failure ''Option not found''), w)
      else if list_ex (option_in_use (attribute_key a) v)
                (filter (\<lambda>x. variant_product_id x = product_id a) (product_variants (db w)))
      then (Inr (Failure ''Cannot remove option that is used by variants''), w)
      else (Inr (Success None),
            w\<lparr>db := update_where_id (row_id a)
                 (\<lambda>r. r\<lparr>options := JArr (filter (\<lambda>entry. entry_value entry \<noteq> Some (JStr v)) opts)\<rparr>)
                 (db w)\<rparr>))"
  unfolding removeAttributeOption_def
  using assms(1,4,5) select_attribute_found[OF assms(2,3)]
  by (auto simp: io_defs reliable as_array_def filter_value_ne_total length_filter_none
        select_variants_def update_columns_def split: option.splits prod.splits)

text \<open>
  Claim C6 asks that a successful removal shrinks the options by exactly one entry. The
  action filters out every entry with the value: the attribute fit of the small catalog
  lists the value slim twice, and removing slim leaves one entry of three.
\<close>

theorem removeAttributeOption_repeated_value:
  "list_ex (\<lambda>a. row_id a = 4 \<and> options a =
        JArr [option_entry ''slim'' ''Slim'', option_entry ''slim'' ''Narrow'', option_entry ''wide'' ''Wide''])
     (product_attribute_schemas demo_store)
   \<and> fst (removeAttributeOption 4 ''slim'' (demo_world None)) = Inr (Success None)
   \<and> map options (filter (\<lambda>a. row_id a = 4)
        (product_attribute_schemas (db (snd (removeAttributeOption 4 ''slim'' (demo_world None))))))
       = [JArr [option_entry ''wide'' ''Wide'']]"
proof -
  let ?a = "schema_row 4 2 ''fit''
        (JArr [option_entry ''slim'' ''Slim'', option_entry ''slim'' ''Narrow'', option_entry ''wide'' ''Wide''])
        True 0"
  let ?opts = "[option_entry ''slim'' ''Slim'', option_entry ''slim'' ''Narrow'', option_entry ''wide'' ''Wide'']"
  have a: "?a \<in> set (product_attribute_schemas (db (demo_world None)))"
    by (simp add: demo_world_simps demo_rows)
  have o: "options ?a = JArr ?opts" by (simp add: schema_row_def)
  have n: "JNull \<notin> set ?opts" by (simp add: option_entry_def)
  have ok: "store_ok (db (demo_world None))" by (simp add: demo_world_simps demo_store_ok)
  have "removeAttributeOption (row_id ?a) ''slim'' (demo_world None) =
      (Inr (Success None),
       demo_world None\<lparr>db := update_where_id (row_id ?a)
           (\<lambda>r. r\<lparr>options := JArr (filter (\<lambda>entry. entry_value entry \<noteq> Some (JStr ''slim'')) ?opts)\<rparr>)
           (db (demo_world None))\<rparr>)"
    unfolding removeAttributeOption_found[OF demo_world_simps(1) ok a o n]
    by (simp add: entry_value_option_entry demo_world_simps demo_variants schema_row_def)
  then have r: "removeAttributeOption 4 ''slim'' (demo_world None) =
      (Inr (Success None),
       demo_world None\<lparr>db := update_where_id 4
           (\<lambda>r. r\<lparr>options := JArr [option_entry ''wide'' ''Wide'']\<rparr>) demo_store\<rparr>)"
    by (simp add: entry_value_option_entry demo_world_simps schema_row_def)
  have "list_ex (\<lambda>a. row_id a = 4 \<and> options a = JArr ?opts) (product_attribute_schemas demo_store)"
    by (simp add: demo_rows schema_row_def)
  moreover have "map options (filter (\<lambda>a. row_id a = 4)
        (product_attribute_schemas (update_where_id 4
           (\<lambda>r. r\<lparr>options := JArr [option_entry ''wide'' ''Wide'']\<rparr>) demo_store)))
       = [JArr [option_entry ''wide'' ''Wide'']]"
    by (simp add: update_where_id_def demo_rows schema_row_def)
  ultimately show ?thesis using r by simp
qed

text \<open>
  Claim C6, amended. For every store with well-formed primary keys whose calls work:
  \<open>removeAttributeOption\<close> fails with the NotFound message for the attribute when no
  schema has the id; and for a schema whose options are an array without \<^verbatim>\<open>null\<close>
  entries it fails with the NotFound message for the option when no entry has the value,
  fails with the in-use Conflict message when an entry has the value and some variant of the
  same product has the key of the schema set to that value, and otherwise succeeds,
  replacing the options of the schema by the entries with another value, in their order:
  the options shrink by the number of entries with the value, which is one when the value
  occurs once.
\<close>

theorem removeAttributeOption_guarded:
  assumes "plan w = []" and "store_ok (db w)"
  shows "((\<forall>a \<in> set (product_attribute_schemas (db w)). row_id a \<noteq> aid)
          \<longrightarrow> removeAttributeOption aid v w = (Inr (Failure ''Attribute not found''), w))
       \<and> (a \<in> set (product_attribute_schemas (db w)) \<and> options a = JArr opts \<and> JNull \<notin> set opts
          \<longrightarrow>
            ((\<forall>entry \<in> set opts. entry_value entry \<noteq> Some (JStr v))
              \<longrightarrow> removeAttributeOption (row_id a) v w = (Inr (Failure ''Option not found''), w))
          \<and> ((\<exists>entry \<in> set opts. entry_value entry = Some (JStr v))
              \<and> (\<exists>x \<in> set (product_variants (db w)).
                    variant_product_id x = product_id a
                    \<and> holds_value (variant_attributes x) (attribute_key a) v)
              \<longrightarrow> removeAttributeOption (row_id a) v w =
                    (Inr (Failure ''Cannot remove option that is used by variants''), w))
          \<and> ((\<exists>entry \<in> set opts. entry_value entry = Some (JStr v))
              \<and> (\<forall>x \<in> set (product_variants (db w)).
                    variant_product_id x = product_id a
                    \<longrightarrow> \<not> holds_value (variant_attributes x) (attribute_key a) v)
              \<longrightarrow> removeAttributeOption (row_id a) v w =
                    (Inr (Success None),
                     w\<lparr>db := (db w)\<lparr>product_attribute_schemas :=
                          map (\<lambda>r. if row_id r = row_id a
                                    then r\<lparr>options := JArr (filter (\<lambda>entry. entry_value entry \<noteq> Some (JStr v)) opts)\<rparr>
                                    else r)
                            (product_attribute_schemas (db w))\<rparr>\<rparr>)
                  \<and> length (filter (\<lambda>entry. entry_value entry \<noteq> Some (JStr v)) opts)
                      + length (filter (\<lambda>entry. entry_value entry = Some (JStr v)) opts) = length opts
                  \<and> (length (filter (\<lambda>entry. entry_value entry = Some (JStr v)) opts) = 1
                      \<longrightarrow> length (filter (\<lambda>entry. entry_value entry \<noteq> Some (JStr v)) opts) + 1
                            = length opts)))"
proof (intro conjI impI)
  assume "\<forall>a \<in> set (product_attribute_schemas (db w)). row_id a \<noteq> aid"
  from select_attribute_missing[OF this] assms(1)
  show "removeAttributeOption aid v w = (Inr (Failure ''Attribute not found''), w)"
    unfolding removeAttributeOption_def by (simp add: io_defs reliable)
next
  assume h: "a \<in> set (product_attribute_schemas (db w)) \<and> options a = JArr opts \<and> JNull \<notin> set opts"
  note run = removeAttributeOption_found[OF assms, of a opts v]
  have len: "length (filter (\<lambda>entry. entry_value entry \<noteq> Some (JStr v)) opts)
        + length (filter (\<lambda>entry. entry_value entry = Some (JStr v)) opts) = length opts"
    using sum_length_filter_compl[of "\<lambda>entry. entry_value entry = Some (JStr v)" opts] by simp
  {
    assume "\<forall>entry \<in> set opts. entry_value entry \<noteq> Some (JStr v)"
    with h run show "removeAttributeOption (row_id a) v w = (Inr (Failure ''Option not found''), w)"
      by simp
  next
    assume "(\<exists>entry \<in> set opts. entry_value entry = Some (JStr v))
              \<and> (\<exists>x \<in> set (product_variants (db w)).
                    variant_product_id x = product_id a
                    \<and> holds_value (variant_attributes x) (attribute_key a) v)"
    with h run show "removeAttributeOption (row_id a) v w =
                    (Inr (Failure ''Cannot remove option that is used by variants''), w)"
      by (auto simp: list_ex_iff option_in_use_iff)
  next
    assume c: "(\<exists>entry \<in> set opts. entry_value entry = Some (JStr v))
              \<and> (\<forall>x \<in> set (product_variants (db w)).
                    variant_product_id x = product_id a
                    \<longrightarrow> \<not> holds_value (variant_attributes x) (attribute_key a) v)"
    with h run show "removeAttributeOption (row_id a) v w =
                    (Inr (Success None),
                     w\<lparr>db := (db w)\<lparr>product_attribute_schemas :=
                          map (\<lambda>r. if row_id r = row_id a
                                    then r\<lparr>options := JArr (filter (\<lambda>entry. entry_value entry \<noteq> Some (JStr v)) opts)\<rparr>
                                    else r)
                            (product_attribute_schemas (db w))\<rparr>\<rparr>)"
      by (auto simp: list_ex_iff option_in_use_iff update_where_id_def)
    show "length (filter (\<lambda>entry. entry_value entry \<noteq> Some (JStr v)) opts)
        + length (filter (\<lambda>entry. entry_value entry = Some (JStr v)) opts) = length opts"
      by (rule len)
    assume "length (filter (\<lambda>entry. entry_value entry = Some (JStr v)) opts) = 1"
    with len show "length (filter (\<lambda>entry. entry_value entry \<noteq> Some (JStr v)) opts) + 1 = length opts"
      by simp
  }
qed

text \<open>
  The theorem in the small catalog, on the attribute size with options S, M, L and a
  variant of size M: no schema 9, no option XL, M in use, L removed.
\<close>

theorem removeAttributeOption_guarded_witness:
  "plan (demo_world None) = [] \<and> store_ok demo_store
   \<and> \<not> list_ex (\<lambda>a. row_id a = 9) (product_attribute_schemas demo_store)
   \<and> removeAttributeOption 9 ''M'' (demo_world None) =
       (Inr (Failure ''Attribute not found''), demo_world None)
   \<and> list_ex (\<lambda>a. row_id a = 2 \<and> product_id a = 1 \<and> attribute_key a = ''size'' \<and> options a =
        JArr [option_entry ''S'' ''Small'', option_entry ''M'' ''Medium'', option_entry ''L'' ''Large''])
        (product_attribute_schemas demo_store)
   \<and> removeAttributeOption 2 ''XL'' (demo_world None) =
       (Inr (Failure ''Option not found''), demo_world None)
   \<and> list_ex (\<lambda>x. variant_product_id x = 1 \<and> holds_value (variant_attributes x) ''size'' ''M'')
        (product_variants demo_store)
   \<and> removeAttributeOption 2 ''M'' (demo_world None) =
       (Inr (Failure ''Cannot remove option that is used by variants''), demo_world None)
   \<and> \<not> list_ex (\<lambda>x. variant_product_id x = 1 \<and> holds_value (variant_attributes x) ''size'' ''L'')
        (product_variants demo_store)
   \<and> fst (removeAttributeOption 2 ''L'' (demo_world None)) = Inr (Success None)
   \<and> map options (filter (\<lambda>a. row_id a = 2)
        (product_attribute_schemas (db (snd (removeAttributeOption 2 ''L'' (demo_world None))))))
       = [JArr [option_entry ''S'' ''Small'', option_entry ''M'' ''Medium'']]"
proof -
  let ?w = "demo_world None"
  let ?opts = "[option_entry ''S'' ''Small'', option_entry ''M'' ''Medium'', option_entry ''L'' ''Large'']"
  let ?a = "schema_row 2 1 ''size'' (JArr ?opts) True 0"
  have p: "plan ?w = []" by (simp add: demo_world_simps)
  have ok: "store_ok (db ?w)" by (simp add: demo_world_simps demo_store_ok)
  have h: "?a \<in> set (product_attribute_schemas (db ?w)) \<and> options ?a = JArr ?opts \<and> JNull \<notin> set ?opts"
    by (simp add: demo_world_simps demo_rows schema_row_def option_entry_def)
  have i: "row_id ?a = 2" "product_id ?a = 1" "attribute_key ?a = ''size''"
    by (simp_all add: schema_row_def)
  have e9: "\<not> list_ex (\<lambda>a. row_id a = 9) (product_attribute_schemas demo_store)"
    and e2: "list_ex (\<lambda>a. row_id a = 2 \<and> product_id a = 1 \<and> attribute_key a = ''size''
                \<and> options a = JArr ?opts) (product_attribute_schemas demo_store)"
    by (simp_all add: demo_rows schema_row_def)
  have vM: "list_ex (\<lambda>x. variant_product_id x = 1 \<and> holds_value (variant_attributes x) ''size'' ''M'')
        (product_variants demo_store)"
    and vL: "\<not> list_ex (\<lambda>x. variant_product_id x = 1 \<and> holds_value (variant_attributes x) ''size'' ''L'')
        (product_variants demo_store)"
    by (simp_all add: demo_variants holds_value_def)
  from removeAttributeOption_guarded[OF p ok, where aid = 9 and v = "''M''"] e9
  have c9: "removeAttributeOption 9 ''M'' ?w = (Inr (Failure ''Attribute not found''), ?w)"
    by (simp add: demo_world_simps list_ex_iff)
  from removeAttributeOption_guarded[OF p ok, where a = ?a and opts = ?opts and v = "''XL''"] h
  have cX: "removeAttributeOption 2 ''XL'' ?w = (Inr (Failure ''Option not found''), ?w)"
    by (simp add: i entry_value_option_entry)
  from removeAttributeOption_guarded[OF p ok, where a = ?a and opts = ?opts and v = "''M''"] h vM
  have cM: "removeAttributeOption 2 ''M'' ?w =
      (Inr (Failure ''Cannot remove option that is used by variants''), ?w)"
    by (simp add: i entry_value_option_entry demo_world_simps list_ex_iff)
  from removeAttributeOption_guarded[OF p ok, where a = ?a and opts = ?opts and v = "''L''"] h vL
  have cL: "removeAttributeOption 2 ''L'' ?w =
      (Inr (Success None),
       ?w\<lparr>db := demo_store\<lparr>product_attribute_schemas :=
            map (\<lambda>r. if row_id r = 2
                      then r\<lparr>options := JArr [option_entry ''S'' ''Small'', option_entry ''M'' ''Medium'']\<rparr>
                      else r)
              (product_attribute_schemas demo_store)\<rparr>\<rparr>)"
    by (simp add: i entry_value_option_entry demo_world_simps list_ex_iff)
  have m: "map options (filter (\<lambda>a. row_id a = 2)
        (map (\<lambda>r. if row_id r = 2
                      then r\<lparr>options := JArr [option_entry ''S'' ''Small'', option_entry ''M'' ''Medium'']\<rparr>
                      else r)
              (product_attribute_schemas demo_store)))
       = [JArr [option_entry ''S'' ''Small'', option_entry ''M'' ''Medium'']]"
    by (simp add: demo_rows schema_row_def)
  from p demo_store_ok e9 c9 e2 cX vM cM vL cL m show ?thesis by simp
qed

subsection \<open>C7: callers who do not own the brand\<close>

lemma select_product_owner_missing:
  "\<forall>p \<in> set (products s). product_pk p \<noteq> pid \<Longrightarrow>
     select_product_owner pid s = (None, Some ''JSON object requested, multiple (or no) rows returned'')"
  by (simp add: select_product_owner_def single_def filter_absent)

lemma select_attribute_owner_missing:
  "\<forall>a \<in> set (product_attribute_schemas s). row_id a \<noteq> aid \<Longrightarrow>
     select_attribute_owner aid s = (None, Some ''JSON object requested, multiple (or no) rows returned'')"
  by (simp add: select_attribute_owner_def single_def filter_absent)

lemma addAttributeOption_found:
  assumes "plan w = []" "store_ok (db w)" "a \<in> set (product_attribute_schemas (db w))"
    "options a = JArr opts" "JNull \<notin> set opts"
  shows "addAttributeOption (row_id a) (v, l) w =
     (if list_ex (\<lambda>entry. entry_value entry = Some (JStr v)) opts
      then (Inr (Failure ''Option value already exists''), w)
      else (Inr (Success None),
            w\<lparr>db := update_where_id (row_id a)
                 (\<lambda>r. r\<lparr>options := JArr (opts @ [JObj [(''value'', JStr v), (''label'', JStr l)]])\<rparr>)
                 (db w)\<rparr>))"
  unfolding addAttributeOption_def
  using assms(1,4,5) select_attribute_found[OF assms(2,3)]
  by (auto simp: io_defs reliable as_array_def some_value_eq_total update_columns_def
           split: option.splits prod.splits)

lemma run_all_reliable:
  "plan w = [] \<Longrightarrow>
     run_all (map (\<lambda>(i, n). store_write (update_columns i (f n))) orders) w =
       (map (\<lambda>x. Inr (None, None)) orders,
        w\<lparr>db := fold (\<lambda>(i, n) s. update_where_id i (f n) s) orders (db w)\<rparr>)"
proof (induction orders arbitrary: w)
  case Nil
  then show ?case by simp
next
  case (Cons x xs)
  obtain i n where x: "x = (i, n)" by (cases x)
  let ?w = "w\<lparr>db := update_where_id i (f n) (db w)\<rparr>"
  have "plan ?w = []" using Cons.prems by simp
  from Cons.IH[OF this] Cons.prems x show ?case
    by (simp add: reliable update_columns_def)
qed

lemma first_rejection_none: "first_rejection (map (\<lambda>x. Inr (g x)) xs) = Inr (map g xs)"
  by (induction xs) auto

lemma updateAttributeOrder_reliable:
  assumes "plan w = []"
  shows "updateAttributeOrder orders w =
     (Inr (Success None),
      w\<lparr>db := fold (\<lambda>(i, n) s. update_where_id i (\<lambda>a. a\<lparr>sort_order := n\<rparr>) s) orders (db w)\<rparr>)"
proof -
  have "first_rejection (map (\<lambda>x. Inr (None, None)) orders)
          = (Inr (map (\<lambda>x. (None, None)) orders) :: exn + unit response list)"
    by (rule first_rejection_none)
  moreover have "filter (\<lambda>(d, error). error \<noteq> None) (map (\<lambda>x. (None, None)) orders) = ([] :: unit response list)"
    by (induction orders) auto
  ultimately show ?thesis
    unfolding updateAttributeOrder_def Promise_all_def
    using assms run_all_reliable[OF assms, of "\<lambda>n a. a\<lparr>sort_order := n\<rparr>" orders]
    by (simp add: io_defs reliable)
qed

lemma createProductAttribute_stranger:
  assumes "plan w = []" "store_ok (db w)" "owns_product (db w) u (new_product_id data)"
    "u \<noteq> []" "session_user w \<noteq> Some u"
  shows "createProductAttribute data w = (Inr (Failure ''Unauthorized''), w)"
proof -
  from owns_product_chain[OF assms(2,3)] obtain c where
    c: "chain_user_id (Some (new_product_id data, c)) = Some u"
       "select_product_owner (new_product_id data) (db w) = (Some (new_product_id data, c), None)"
    by blast
  show ?thesis
    unfolding createProductAttribute_def using assms(1,4,5) c
    by (auto simp: io_defs reliable falsy_string_def)
qed

lemma createProductAttribute_missing_product:
  assumes "plan w = []" "\<forall>p \<in> set (products (db w)). product_pk p \<noteq> new_product_id data"
  shows "createProductAttribute data w = (Inr (Failure ''Product not found or access denied''), w)"
  using select_product_owner_missing[OF assms(2)] assms(1)
  unfolding createProductAttribute_def
  by (simp add: io_defs reliable falsy_string_def chain_user_id_def)

text \<open>
  Claim C7 asks that every mutating action fails with Unauthorized for a caller who is not
  the owner, with the same outcome whether or not the target exists. In the small catalog,
  owned by alice, the caller mallory is refused with \<^verbatim>\<open>Unauthorized\<close> on product 1
  and with \<^verbatim>\<open>Product not found or access denied\<close> on the missing product 9, so the
  two cases differ; and \<open>addAttributeOption\<close>, \<open>removeAttributeOption\<close> and
  \<open>updateAttributeOrder\<close>, which look at no owner, succeed for mallory and for a
  caller without identity.
\<close>

theorem mallory_mutates:
  "owns_product demo_store ''alice'' 1
   \<and> fst (createProductAttribute (new_attribute 1 ''weight'') (demo_world (Some ''mallory''))) =
       Inr (Failure ''Unauthorized'')
   \<and> \<not> list_ex (\<lambda>p. product_pk p = 9) (products demo_store)
   \<and> fst (createProductAttribute (new_attribute 9 ''weight'') (demo_world (Some ''mallory''))) =
       Inr (Failure ''Product not found or access denied'')
   \<and> fst (addAttributeOption 1 (''green'', ''Green'') (demo_world (Some ''mallory''))) =
       Inr (Success None)
   \<and> map options (filter (\<lambda>a. row_id a = 1)
        (product_attribute_schemas
           (db (snd (addAttributeOption 1 (''green'', ''Green'') (demo_world (Some ''mallory'')))))))
       = [JArr [option_entry ''red'' ''Red'', option_entry ''blue'' ''Blue'', option_entry ''green'' ''Green'']]
   \<and> fst (removeAttributeOption 1 ''blue'' (demo_world (Some ''mallory''))) = Inr (Success None)
   \<and> fst (updateAttributeOrder [(1, 7)] (demo_world None)) = Inr (Success None)
   \<and> map sort_order (filter (\<lambda>a. row_id a = 1)
        (product_attribute_schemas (db (snd (updateAttributeOrder [(1, 7)] (demo_world None))))))
       = [7]"
proof -
  let ?m = "demo_world (Some ''mallory'')"
  let ?opts = "[option_entry ''red'' ''Red'', option_entry ''blue'' ''Blue'']"
  let ?a = "schema_row 1 1 ''color'' (JArr ?opts) True 1"
  have p: "plan ?m = []" and ok: "store_ok (db ?m)"
    by (simp_all add: demo_world_simps demo_store_ok)
  have a: "?a \<in> set (product_attribute_schemas (db ?m))" "options ?a = JArr ?opts" "JNull \<notin> set ?opts"
    by (simp_all add: demo_world_simps demo_rows schema_row_def option_entry_def)
  have i: "row_id ?a = 1" "product_id ?a = 1" "attribute_key ?a = ''color''"
    by (simp_all add: schema_row_def)
  have c1: "createProductAttribute (new_attribute 1 ''weight'') ?m = (Inr (Failure ''Unauthorized''), ?m)"
    using createProductAttribute_stranger[OF p ok, of "''alice''" "new_attribute 1 ''weight''"]
      alice_owns(1)
    by (simp add: demo_world_simps new_attribute_def)
  have e9: "\<not> list_ex (\<lambda>p. product_pk p = 9) (products demo_store)"
    by (simp add: demo_store_def)
  have c9: "createProductAttribute (new_attribute 9 ''weight'') ?m =
      (Inr (Failure ''Product not found or access denied''), ?m)"
    using createProductAttribute_missing_product[OF p, of "new_attribute 9 ''weight''"] e9
    by (simp add: demo_world_simps new_attribute_def list_ex_iff)
  have add: "addAttributeOption 1 (''green'', ''Green'') ?m =
      (Inr (Success None),
       ?m\<lparr>db := update_where_id 1
           (\<lambda>r. r\<lparr>options := JArr (?opts @ [option_entry ''green'' ''Green''])\<rparr>) demo_store\<rparr>)"
    using addAttributeOption_found[OF p ok a, of "''green''" "''Green''"]
    by (simp add: i entry_value_option_entry demo_world_simps option_entry_def[of "''green''"])
  have addm: "map options (filter (\<lambda>a. row_id a = 1)
        (product_attribute_schemas (update_where_id 1
           (\<lambda>r. r\<lparr>options := JArr (?opts @ [option_entry ''green'' ''Green''])\<rparr>) demo_store)))
       = [JArr [option_entry ''red'' ''Red'', option_entry ''blue'' ''Blue'', option_entry ''green'' ''Green'']]"
    by (simp add: update_where_id_def demo_rows schema_row_def)
  have rem: "fst (removeAttributeOption 1 ''blue'' ?m) = Inr (Success None)"
    using removeAttributeOption_found[OF p ok a, of "''blue''"]
    by (simp add: i entry_value_option_entry demo_world_simps demo_variants option_in_use_def)
  have ord: "updateAttributeOrder [(1, 7)] (demo_world None) =
      (Inr (Success None),
       demo_world None\<lparr>db := update_where_id 1 (\<lambda>a. a\<lparr>sort_order := 7\<rparr>) demo_store\<rparr>)"
    using updateAttributeOrder_reliable[of "demo_world None" "[(1, 7)]"]
    by (simp add: demo_world_simps)
  have ordm: "map sort_order (filter (\<lambda>a. row_id a = 1)
        (product_attribute_schemas (update_where_id 1 (\<lambda>a. a\<lparr>sort_order := 7\<rparr>) demo_store))) = [7]"
    by (simp add: update_where_id_def demo_rows schema_row_def)
  from alice_owns(1) c1 e9 c9 add addm rem ord ordm show ?thesis by simp
qed

text \<open>
  Claim C7, amended. For every store with well-formed primary keys whose calls work, and every
  caller whose identity is missing or is not the user of the owning brand:
  \<open>createProductAttribute\<close>, \<open>updateProductAttribute\<close> and
  \<open>deleteProductAttribute\<close> fail with \<^verbatim>\<open>Unauthorized\<close> when the target exists
  and its brand has an owner, and with the message that the product or the attribute was
  not found or access was denied when the target does not exist; the store is unchanged.
\<close>

theorem mutations_by_other_users:
  assumes "plan w = []" and "store_ok (db w)"
  shows "(owns_product (db w) u (new_product_id data) \<and> u \<noteq> [] \<and> session_user w \<noteq> Some u
          \<longrightarrow> createProductAttribute data w = (Inr (Failure ''Unauthorized''), w))
       \<and> ((\<forall>p \<in> set (products (db w)). product_pk p \<noteq> new_product_id data)
          \<longrightarrow> createProductAttribute data w =
                (Inr (Failure ''Product not found or access denied''), w))
       \<and> (a \<in> set (product_attribute_schemas (db w)) \<and> owns_product (db w) u (product_id a)
            \<and> u \<noteq> [] \<and> session_user w \<noteq> Some u
          \<longrightarrow> (upd_id upd = row_id a
                  \<longrightarrow> updateProductAttribute upd w = (Inr (Failure ''Unauthorized''), w))
              \<and> deleteProductAttribute (row_id a) w = (Inr (Failure ''Unauthorized''), w))
       \<and> ((\<forall>a \<in> set (product_attribute_schemas (db w)). row_id a \<noteq> aid)
          \<longrightarrow> (upd_id upd = aid
                  \<longrightarrow> updateProductAttribute upd w =
                        (Inr (Failure ''Attribute not found or access denied''), w))
              \<and> deleteProductAttribute aid w =
                  (Inr (Failure ''Attribute not found or access denied''), w))"
proof (intro conjI impI)
  assume "owns_product (db w) u (new_product_id data) \<and> u \<noteq> [] \<and> session_user w \<noteq> Some u"
  then show "createProductAttribute data w = (Inr (Failure ''Unauthorized''), w)"
    using createProductAttribute_stranger[OF assms] by blast
next
  assume "\<forall>p \<in> set (products (db w)). product_pk p \<noteq> new_product_id data"
  then show "createProductAttribute data w = (Inr (Failure ''Product not found or access denied''), w)"
    by (rule createProductAttribute_missing_product[OF assms(1)])
next
  assume h: "a \<in> set (product_attribute_schemas (db w)) \<and> owns_product (db w) u (product_id a)
            \<and> u \<noteq> [] \<and> session_user w \<noteq> Some u"
  with select_attribute_owner_chain[OF assms(2), of a u] obtain c where
    c: "select_attribute_owner (row_id a) (db w) =
          (Some (row_id a, attribute_key a, Some (product_id a, c)), None)"
       "chain_user_id (Some (product_id a, c)) = Some u" by blast
  show "deleteProductAttribute (row_id a) w = (Inr (Failure ''Unauthorized''), w)"
    unfolding deleteProductAttribute_def using assms(1) h c
    by (auto simp: io_defs reliable falsy_string_def)
  assume "upd_id upd = row_id a"
  then show "updateProductAttribute upd w = (Inr (Failure ''Unauthorized''), w)"
    unfolding updateProductAttribute_def using assms(1) h c
    by (auto simp: io_defs reliable falsy_string_def)
next
  assume h: "\<forall>a \<in> set (product_attribute_schemas (db w)). row_id a \<noteq> aid"
  from select_attribute_owner_missing[OF h] assms(1)
  show "deleteProductAttribute aid w = (Inr (Failure ''Attribute not found or access denied''), w)"
    unfolding deleteProductAttribute_def
    by (simp add: io_defs reliable)
  assume "upd_id upd = aid"
  with select_attribute_owner_missing[OF h] assms(1)
  show "updateProductAttribute upd w = (Inr (Failure ''Attribute not found or access denied''), w)"
    unfolding updateProductAttribute_def
    by (simp add: io_defs reliable)
qed

text \<open>The theorem in the small catalog, for mallory and for a caller without identity.\<close>

theorem mutations_by_other_users_witness:
  "plan (demo_world (Some ''mallory'')) = [] \<and> store_ok demo_store
   \<and> owns_product demo_store ''alice'' 1 \<and> session_user (demo_world (Some ''mallory'')) \<noteq> Some ''alice''
   \<and> createProductAttribute (new_attribute 1 ''weight'') (demo_world (Some ''mallory'')) =
       (Inr (Failure ''Unauthorized''), demo_world (Some ''mallory''))
   \<and> updateProductAttribute (rename_key 2 ''weight'') (demo_world (Some ''mallory'')) =
       (Inr (Failure ''Unauthorized''), demo_world (Some ''mallory''))
   \<and> deleteProductAttribute 2 (demo_world (Some ''mallory'')) =
       (Inr (Failure ''Unauthorized''), demo_world (Some ''mallory''))
   \<and> deleteProductAttribute 2 (demo_world None) = (Inr (Failure ''Unauthorized''), demo_world None)
   \<and> \<not> list_ex (\<lambda>p. product_pk p = 9) (products demo_store)
   \<and> createProductAttribute (new_attribute 9 ''weight'') (demo_world (Some ''mallory'')) =
       (Inr (Failure ''Product not found or access denied''), demo_world (Some ''mallory''))
   \<and> \<not> list_ex (\<lambda>a. row_id a = 9) (product_attribute_schemas demo_store)
   \<and> updateProductAttribute (rename_key 9 ''weight'') (demo_world (Some ''mallory'')) =
       (Inr (Failure ''Attribute not found or access denied''), demo_world (Some ''mallory''))
   \<and> deleteProductAttribute 9 (demo_world (Some ''mallory'')) =
       (Inr (Failure ''Attribute not found or access denied''), demo_world (Some ''mallory''))"
proof -
  let ?m = "demo_world (Some ''mallory'')"
  let ?a = "schema_row 2 1 ''size''
        (JArr [option_entry ''S'' ''Small'', option_entry ''M'' ''Medium'', option_entry ''L'' ''Large''])
        True 0"
  have p: "plan ?m = []" and ok: "store_ok (db ?m)"
    and p0: "plan (demo_world None) = []" and ok0: "store_ok (db (demo_world None))"
    by (simp_all add: demo_world_simps demo_store_ok)
  have i: "row_id ?a = 2" "product_id ?a = 1" by (simp_all add: schema_row_def)
  have a: "?a \<in> set (product_attribute_schemas demo_store)" by (simp add: demo_rows)
  have e9: "\<not> list_ex (\<lambda>p. product_pk p = 9) (products demo_store)"
    and f9: "\<not> list_ex (\<lambda>a. row_id a = 9) (product_attribute_schemas demo_store)"
    by (simp_all add: demo_store_def schema_row_def)
  note t1 = mutations_by_other_users[OF p ok, where u = "''alice''" and a = ?a
      and data = "new_attribute 1 ''weight''" and upd = "rename_key 2 ''weight''"]
  note t0 = mutations_by_other_users[OF p0 ok0, where u = "''alice''" and a = ?a]
  note t9 = mutations_by_other_users[OF p ok, where aid = 9
      and data = "new_attribute 9 ''weight''" and upd = "rename_key 9 ''weight''"]
  have c1: "createProductAttribute (new_attribute 1 ''weight'') ?m = (Inr (Failure ''Unauthorized''), ?m)"
    and c2: "updateProductAttribute (rename_key 2 ''weight'') ?m = (Inr (Failure ''Unauthorized''), ?m)"
    and c3: "deleteProductAttribute 2 ?m = (Inr (Failure ''Unauthorized''), ?m)"
    using t1 alice_owns(1) a i
    by (simp_all add: demo_world_simps new_attribute_def rename_key_def)
  have c4: "deleteProductAttribute 2 (demo_world None) = (Inr (Failure ''Unauthorized''), demo_world None)"
    using t0 alice_owns(1) a i by (simp add: demo_world_simps)
  have c5: "createProductAttribute (new_attribute 9 ''weight'') ?m =
       (Inr (Failure ''Product not found or access denied''), ?m)"
    and c6: "updateProductAttribute (rename_key 9 ''weight'') ?m =
       (Inr (Failure ''Attribute not found or access denied''), ?m)"
    and c7: "deleteProductAttribute 9 ?m = (Inr (Failure ''Attribute not found or access denied''), ?m)"
    using t9 e9 f9
    by (simp_all add: demo_world_simps new_attribute_def rename_key_def list_ex_iff)
  from p demo_store_ok alice_owns(1) c1 c2 c3 c4 e9 c5 f9 c6 c7 show ?thesis
    by (simp add: demo_world_simps)
qed

subsection \<open>C8: the listing of the attributes of a product\<close>


lemma getProductAttributes_run:
  "getProductAttributes pid w =
     (case next_outcome w of
        (Works, w') \<Rightarrow>
          (Inr (sort_key (\<lambda>a. (sort_order a, created_at a))
                  (filter (\<lambda>a. product_id a = pid) (product_attribute_schemas (db w')))), w')
      | (Fails message, w') \<Rightarrow> (Inr [], w')
      | (Throws e, w') \<Rightarrow> (Inr [], w'))"
  unfolding getProductAttributes_def
  by (auto simp: io_defs store_read_def select_attributes_ordered_def split: prod.splits outcome.splits)

lemma next_outcome_db: "db (snd (next_outcome w)) = db w"
  by (simp add: next_outcome_def split: list.splits)



subsection \<open>C9: no failure escapes an action\<close>

lemma try_catch_returns: "\<exists>r w'. try_catch body handler w = (Inr r, w')"
  by (auto simp: try_catch_def split: prod.splits sum.splits)

lemma store_read_throws:
  "plan w = Throws e # rest \<Longrightarrow> store_read q w = (Inl e, w\<lparr>plan := rest\<rparr>)"
  by (simp add: store_read_def next_outcome_def)

lemma store_write_throws:
  "plan w = Throws e # rest \<Longrightarrow> store_write c w = (Inl e, w\<lparr>plan := rest\<rparr>)"
  by (simp add: store_write_def next_outcome_def)

lemma revalidatePath_throws:
  "plan w = Throws e # rest \<Longrightarrow> revalidatePath w = (Inl e, w\<lparr>plan := rest\<rparr>)"
  by (simp add: revalidatePath_def next_outcome_def)

lemma run_all_first_throws:
  "plan w = Throws e # rest \<Longrightarrow>
     \<exists>rs w'. run_all (map (\<lambda>(i, n). store_write (c i n)) (x # xs)) w = (Inl e # rs, w')"
  by (cases x) (auto simp: store_write_throws split: prod.splits)

lemma updateAttributeOrder_throws:
  assumes "plan w = Throws e # rest"
  shows "fst (updateAttributeOrder orders w) = Inr (error_envelope e)"
proof (cases orders)
  case Nil
  with assms show ?thesis
    by (simp add: updateAttributeOrder_def Promise_all_def try_catch_def io_bind_def
          revalidatePath_throws)
next
  case (Cons x xs)
  from run_all_first_throws[OF assms, of "\<lambda>i n. update_columns i (\<lambda>a. a\<lparr>sort_order := n\<rparr>)" x xs]
  obtain rs w' where
    "run_all (map (\<lambda>(i, n). store_write (update_columns i (\<lambda>a. a\<lparr>sort_order := n\<rparr>))) (x # xs)) w
       = (Inl e # rs, w')" by blast
  with Cons show ?thesis
    by (simp add: updateAttributeOrder_def Promise_all_def try_catch_def io_bind_def)
qed

lemma getProductAttributeById_run:
  "getProductAttributeById aid w =
     (case next_outcome w of
        (Works, w') \<Rightarrow>
          (Inr (case filter (\<lambda>a. row_id a = aid) (product_attribute_schemas (db w')) of
                  [a] \<Rightarrow> Some a | _ \<Rightarrow> None), w')
      | (Fails message, w') \<Rightarrow> (Inr None, w')
      | (Throws e, w') \<Rightarrow> (Inr None, w'))"
  unfolding getProductAttributeById_def
  by (auto simp: io_defs store_read_def select_attribute_def single_def
           split: prod.splits outcome.splits list.splits)

lemma exported_constructed: "client_failure w = None \<Longrightarrow> exported action w = action w"
  by (simp add: exported_def createClient_def io_bind_def)

lemma exported_escapes: "client_failure w = Some e \<Longrightarrow> exported action w = (Inl e, w)"
  by (simp add: exported_def createClient_def io_bind_def)

lemma getAttributeCombinations_degrades:
  "client_failure w = None \<Longrightarrow> fst (next_outcome w) \<noteq> Works \<Longrightarrow>
     fst (getAttributeCombinations pid w) = Inr []"
  unfolding getAttributeCombinations_def
  by (cases "next_outcome w")
     (auto simp: io_defs exported_constructed getProductAttributes_run split: prod.splits outcome.splits)

lemma generateCombination_terminates: "generateCombination_dom x"
proof -
  have "All generateCombination_dom"
    by (relation "measure (\<lambda>(keys, attributes, depth, st). length keys - depth)")
       (auto simp: js_index_def split: if_splits)
  then show ?thesis by (rule spec)
qed

lemma throws_later_cases:
  assumes "throws_later e w v"
  obtains rest where "plan w = Throws e # rest"
  | k rest where "plan w = Works # replicate k Works @ Throws e # rest"
proof -
  from assms obtain k rest where p: "plan w = replicate k Works @ Throws e # rest"
    by (auto simp: throws_later_def)
  show ?thesis
  proof (cases k)
    case 0
    with p that(1) show ?thesis by simp
  next
    case (Suc j)
    with p that(2) show ?thesis by simp
  qed
qed

lemma throws_later_next:
  assumes "throws_later e w v" and "plan w = Works # replicate k Works @ Throws e # rest"
  shows "throws_later e (w\<lparr>plan := replicate k Works @ Throws e # rest, db := s\<rparr>) (v\<lparr>db := s\<rparr>)"
    and "throws_later e (w\<lparr>plan := replicate k Works @ Throws e # rest\<rparr>) v"
  using assms by (auto simp: throws_later_def)

lemma couD:
  "caught_or_unreached e m \<Longrightarrow> throws_later e w v \<Longrightarrow>
     fst (m w) = Inl e \<or> (fst (m w) = fst (m v) \<and> throws_later e (snd (m w)) (snd (m v)))"
  by (simp add: caught_or_unreached_def)

lemma cou_return: "caught_or_unreached e (io_return x)"
  by (simp add: caught_or_unreached_def io_return_def)

lemma cou_throw: "caught_or_unreached e (throw x)"
  by (simp add: caught_or_unreached_def throw_def)

lemma cou_lift: "caught_or_unreached e (lift r)"
  by (simp add: caught_or_unreached_def lift_def)

lemma cou_bind:
  assumes "caught_or_unreached e m" and "\<And>x. caught_or_unreached e (f x)"
  shows "caught_or_unreached e (io_bind m f)"
  unfolding caught_or_unreached_def
proof (intro allI impI)
  fix w v assume r: "throws_later e w v"
  obtain a w' where mw: "m w = (a, w')" by (cases "m w")
  obtain b v' where mv: "m v = (b, v')" by (cases "m v")
  from couD[OF assms(1) r] mw mv consider "a = Inl e" | "a = b" "throws_later e w' v'"
    by auto
  then show "fst (io_bind m f w) = Inl e \<or>
      (fst (io_bind m f w) = fst (io_bind m f v) \<and> throws_later e (snd (io_bind m f w)) (snd (io_bind m f v)))"
  proof cases
    case 1
    with mw show ?thesis by (simp add: io_bind_def)
  next
    case 2
    show ?thesis
    proof (cases a)
      case (Inl x)
      with 2 have "m w = (Inl x, w')" "m v = (Inl x, v')" using mw mv by simp_all
      with 2 show ?thesis by (simp add: io_bind_def)
    next
      case (Inr x)
      with 2 have "m w = (Inr x, w')" "m v = (Inr x, v')" using mw mv by simp_all
      with couD[OF assms(2)[of x] 2(2)] show ?thesis
        by (simp add: io_bind_def)
    qed
  qed
qed

lemma cou_store_read: "caught_or_unreached e (store_read q)"
  unfolding caught_or_unreached_def
proof (intro allI impI)
  fix w v assume r: "throws_later e w v"
  then have v: "plan v = []" "db w = db v" by (auto simp: throws_later_def)
  from r show "fst (store_read q w) = Inl e \<or>
      (fst (store_read q w) = fst (store_read q v) \<and> throws_later e (snd (store_read q w)) (snd (store_read q v)))"
  proof (cases rule: throws_later_cases)
    case (1 rest)
    then show ?thesis by (simp add: store_read_def next_outcome_def)
  next
    case (2 k rest)
    with throws_later_next(2)[OF r 2] v show ?thesis
      by (simp add: store_read_def next_outcome_def)
  qed
qed

lemma cou_store_write: "caught_or_unreached e (store_write c)"
  unfolding caught_or_unreached_def
proof (intro allI impI)
  fix w v assume r: "throws_later e w v"
  then have v: "plan v = []" "db w = db v" by (auto simp: throws_later_def)
  from r show "fst (store_write c w) = Inl e \<or>
      (fst (store_write c w) = fst (store_write c v) \<and> throws_later e (snd (store_write c w)) (snd (store_write c v)))"
  proof (cases rule: throws_later_cases)
    case (1 rest)
    then show ?thesis by (simp add: store_write_def next_outcome_def)
  next
    case (2 k rest)
    with throws_later_next(1)[OF r 2, of "snd (c (db v))"] v show ?thesis
      by (simp add: store_write_def next_outcome_def)
  qed
qed

lemma cou_auth_getUser: "caught_or_unreached e auth_getUser"
  unfolding caught_or_unreached_def
proof (intro allI impI)
  fix w v assume r: "throws_later e w v"
  then have v: "plan v = []" "session_user w = session_user v" by (auto simp: throws_later_def)
  from r show "fst (auth_getUser w) = Inl e \<or>
      (fst (auth_getUser w) = fst (auth_getUser v) \<and> throws_later e (snd (auth_getUser w)) (snd (auth_getUser v)))"
  proof (cases rule: throws_later_cases)
    case (1 rest)
    then show ?thesis by (simp add: auth_getUser_def next_outcome_def)
  next
    case (2 k rest)
    with throws_later_next(2)[OF r 2] v show ?thesis
      by (simp add: auth_getUser_def next_outcome_def)
  qed
qed

lemma cou_revalidatePath: "caught_or_unreached e revalidatePath"
  unfolding caught_or_unreached_def
proof (intro allI impI)
  fix w v assume r: "throws_later e w v"
  then have v: "plan v = []" by (auto simp: throws_later_def)
  from r show "fst (revalidatePath w) = Inl e \<or>
      (fst (revalidatePath w) = fst (revalidatePath v) \<and> throws_later e (snd (revalidatePath w)) (snd (revalidatePath v)))"
  proof (cases rule: throws_later_cases)
    case (1 rest)
    then show ?thesis by (simp add: revalidatePath_def next_outcome_def)
  next
    case (2 k rest)
    with throws_later_next(2)[OF r 2] v show ?thesis
      by (simp add: revalidatePath_def next_outcome_def)
  qed
qed

lemma cou_createClient: "caught_or_unreached e createClient"
  by (auto simp: caught_or_unreached_def createClient_def throws_later_def split: option.splits)

lemma cou_exported: "caught_or_unreached e m \<Longrightarrow> caught_or_unreached e (exported m)"
  unfolding exported_def by (intro cou_bind cou_createClient)

lemma try_catch_caught:
  assumes "caught_or_unreached e body" and "throws_later e w v"
  shows "fst (try_catch body handler w) = Inr (handler e)
       \<or> fst (try_catch body handler w) = fst (try_catch body handler v)"
proof -
  obtain a w' where mw: "body w = (a, w')" by (cases "body w")
  obtain b v' where mv: "body v = (b, v')" by (cases "body v")
  from couD[OF assms] mw mv have "a = Inl e \<or> a = b"
    by auto
  with mw mv show ?thesis
    by (auto simp: try_catch_def split: sum.splits)
qed

lemma cou_Promise_all_writes:
  "caught_or_unreached e (Promise_all (map (\<lambda>(i, n). store_write (c i n)) orders))"
  unfolding caught_or_unreached_def
proof (intro allI impI)
  fix w v
  show "throws_later e w v \<Longrightarrow>
     fst (Promise_all (map (\<lambda>(i, n). store_write (c i n)) orders) w) = Inl e
     \<or> (fst (Promise_all (map (\<lambda>(i, n). store_write (c i n)) orders) w)
          = fst (Promise_all (map (\<lambda>(i, n). store_write (c i n)) orders) v)
        \<and> throws_later e (snd (Promise_all (map (\<lambda>(i, n). store_write (c i n)) orders) w))
            (snd (Promise_all (map (\<lambda>(i, n). store_write (c i n)) orders) v)))"
  proof (induction orders arbitrary: w v)
    case Nil
    then show ?case by (simp add: Promise_all_def)
  next
    case (Cons x xs)
    obtain i n where x: "x = (i, n)" by (cases x)
    let ?ms = "map (\<lambda>(i, n). store_write (c i n)) xs"
    from couD[OF cou_store_write[of e "c i n"] Cons.prems]
    consider "fst (store_write (c i n) w) = Inl e"
      | "fst (store_write (c i n) w) = fst (store_write (c i n) v)"
        "throws_later e (snd (store_write (c i n) w)) (snd (store_write (c i n) v))"
      by auto
    then show ?case
    proof cases
      case 1
      then show ?thesis
        by (auto simp: x Promise_all_def split: prod.splits)
    next
      case 2
      obtain a w' where mw: "store_write (c i n) w = (a, w')" by (cases "store_write (c i n) w")
      obtain b v' where mv: "store_write (c i n) v = (b, v')" by (cases "store_write (c i n) v")
      from 2 mw mv have ab: "a = b" and r: "throws_later e w' v'" by simp_all
      have "plan v = []" using Cons.prems by (simp add: throws_later_def)
      then have "\<exists>y. b = Inr y" using mv by (auto simp: store_write_def next_outcome_def)
      then obtain y where y: "b = Inr y" by blast
      from Cons.IH[OF r] mw mv ab y show ?thesis
        by (auto simp: x Promise_all_def split: prod.splits sum.splits)
    qed
  qed
qed

lemmas cou_intros = cou_bind cou_return cou_throw cou_lift cou_store_read cou_store_write
  cou_auth_getUser cou_revalidatePath cou_Promise_all_writes

lemma createProductAttribute_caught:
  "throws_later e w v \<Longrightarrow>
     fst (createProductAttribute data w) = Inr (error_envelope e)
     \<or> fst (createProductAttribute data w) = fst (createProductAttribute data v)"
  unfolding createProductAttribute_def
  by (rule try_catch_caught) (auto intro!: cou_intros split: prod.splits option.splits)

lemma updateProductAttribute_caught:
  "throws_later e w v \<Longrightarrow>
     fst (updateProductAttribute data w) = Inr (error_envelope e)
     \<or> fst (updateProductAttribute data w) = fst (updateProductAttribute data v)"
  unfolding updateProductAttribute_def
  by (rule try_catch_caught) (auto intro!: cou_intros split: prod.splits option.splits)

lemma deleteProductAttribute_caught:
  "throws_later e w v \<Longrightarrow>
     fst (deleteProductAttribute aid w) = Inr (error_envelope e)
     \<or> fst (deleteProductAttribute aid w) = fst (deleteProductAttribute aid v)"
  unfolding deleteProductAttribute_def
  by (rule try_catch_caught) (auto intro!: cou_intros split: prod.splits option.splits)

lemma updateAttributeOrder_caught:
  "throws_later e w v \<Longrightarrow>
     fst (updateAttributeOrder orders w) = Inr (error_envelope e)
     \<or> fst (updateAttributeOrder orders w) = fst (updateAttributeOrder orders v)"
  unfolding updateAttributeOrder_def
  by (rule try_catch_caught) (auto intro!: cou_intros split: prod.splits option.splits)

lemma addAttributeOption_caught:
  "throws_later e w v \<Longrightarrow>
     fst (addAttributeOption aid option w) = Inr (error_envelope e)
     \<or> fst (addAttributeOption aid option w) = fst (addAttributeOption aid option v)"
  unfolding addAttributeOption_def
  by (rule try_catch_caught) (auto intro!: cou_intros split: prod.splits option.splits)

lemma removeAttributeOption_caught:
  "throws_later e w v \<Longrightarrow>
     fst (removeAttributeOption aid x w) = Inr (error_envelope e)
     \<or> fst (removeAttributeOption aid x w) = fst (removeAttributeOption aid x v)"
  unfolding removeAttributeOption_def
  by (rule try_catch_caught) (auto intro!: cou_intros split: prod.splits option.splits)

lemma validateAttributeValues_caught:
  "throws_later e w v \<Longrightarrow>
     fst (validateAttributeValues validate pid values w) = Inr (error_envelope e)
     \<or> fst (validateAttributeValues validate pid values w) = fst (validateAttributeValues validate pid values v)"
  unfolding validateAttributeValues_def
  by (rule try_catch_caught) (auto intro!: cou_intros split: prod.splits option.splits)

text \<open>
  Claim C9 asks that no failure escapes an action. Every action constructs its client
  before it enters its \<^verbatim>\<open>try\<close> statement: when \<^verbatim>\<open>createClient\<close> throws, the
  exception leaves the action, for a mutating action and for a read alike.
\<close>

theorem createClient_failure_escapes:
  "client_failure clientless_world = Some (Error ''no request scope'')
   \<and> plan clientless_world = []
   \<and> exported (createProductAttribute (new_attribute 1 ''weight'')) clientless_world =
       (Inl (Error ''no request scope''), clientless_world)
   \<and> exported (updateAttributeOrder [(1, 7)]) clientless_world =
       (Inl (Error ''no request scope''), clientless_world)
   \<and> exported (getProductAttributes 1) clientless_world =
       (Inl (Error ''no request scope''), clientless_world)
   \<and> exported (getAttributeCombinations 1) clientless_world =
       (Inl (Error ''no request scope''), clientless_world)"
  by (simp add: exported_escapes clientless_world_def)

text \<open>
  Claim C9, amended. For every action, every input and every world in which the client is
  constructed, whatever the plan of the store: the action returns a value and no exception
  escapes. The mutating actions return the envelope. A call that throws, at whatever
  position of the plan, either is not reached, and the action ends as it does with the
  store that works, or makes the result the failure envelope of the thrown value; a store
  call that fails at the start of a mutating action that reads first gives a failure
  envelope. The reads \<open>getProductAttributes\<close>, \<open>getProductAttributeById\<close>,
  \<open>getAttributeCombinations\<close> and \<open>getProductAttributeSchema\<close> return the empty
  list, no row, the empty mapping and the empty object when their lookup does not work.
  The generator calls neither the client nor the store, and its recursion terminates on
  every mapping.
\<close>

theorem no_failure_escapes:
  assumes "client_failure w = None"
  shows "(\<exists>r w'. exported (createProductAttribute data) w = (Inr r, w'))
   \<and> (\<exists>r w'. exported (updateProductAttribute upd) w = (Inr r, w'))
   \<and> (\<exists>r w'. exported (deleteProductAttribute aid) w = (Inr r, w'))
   \<and> (\<exists>r w'. exported (updateAttributeOrder orders) w = (Inr r, w'))
   \<and> (\<exists>r w'. exported (addAttributeOption aid option) w = (Inr r, w'))
   \<and> (\<exists>r w'. exported (removeAttributeOption aid x) w = (Inr r, w'))
   \<and> (\<exists>r w'. exported (getProductAttributes pid) w = (Inr r, w'))
   \<and> (\<exists>r w'. exported (getProductAttributeById aid) w = (Inr r, w'))
   \<and> (\<exists>r w'. exported (getAttributeCombinations pid) w = (Inr r, w'))
   \<and> (\<exists>r w'. exported (getProductAttributeSchema get_schema pid) w = (Inr r, w'))
   \<and> (\<exists>r w'. exported (validateAttributeValues validate pid values) w = (Inr r, w'))
   \<and> generateCombination_dom (Object_keys attributes, attributes, 0, (([], Object_prototype), []))
   \<and> (plan w = replicate k Works @ Throws e # rest \<longrightarrow>
         (fst (exported (createProductAttribute data) w) = Inr (error_envelope e)
          \<or> fst (exported (createProductAttribute data) w) =
              fst (exported (createProductAttribute data) (w\<lparr>plan := []\<rparr>)))
       \<and> (fst (exported (updateProductAttribute upd) w) = Inr (error_envelope e)
          \<or> fst (exported (updateProductAttribute upd) w) =
              fst (exported (updateProductAttribute upd) (w\<lparr>plan := []\<rparr>)))
       \<and> (fst (exported (deleteProductAttribute aid) w) = Inr (error_envelope e)
          \<or> fst (exported (deleteProductAttribute aid) w) =
              fst (exported (deleteProductAttribute aid) (w\<lparr>plan := []\<rparr>)))
       \<and> (fst (exported (updateAttributeOrder orders) w) = Inr (error_envelope e)
          \<or> fst (exported (updateAttributeOrder orders) w) =
              fst (exported (updateAttributeOrder orders) (w\<lparr>plan := []\<rparr>)))
       \<and> (fst (exported (addAttributeOption aid option) w) = Inr (error_envelope e)
          \<or> fst (exported (addAttributeOption aid option) w) =
              fst (exported (addAttributeOption aid option) (w\<lparr>plan := []\<rparr>)))
       \<and> (fst (exported (removeAttributeOption aid x) w) = Inr (error_envelope e)
          \<or> fst (exported (removeAttributeOption aid x) w) =
              fst (exported (removeAttributeOption aid x) (w\<lparr>plan := []\<rparr>)))
       \<and> (fst (exported (validateAttributeValues validate pid values) w) = Inr (error_envelope e)
          \<or> fst (exported (validateAttributeValues validate pid values) w) =
              fst (exported (validateAttributeValues validate pid values) (w\<lparr>plan := []\<rparr>))))
   \<and> (plan w = Throws e # rest \<longrightarrow>
         fst (exported (createProductAttribute data) w) = Inr (error_envelope e)
       \<and> fst (exported (updateProductAttribute upd) w) = Inr (error_envelope e)
       \<and> fst (exported (deleteProductAttribute aid) w) = Inr (error_envelope e)
       \<and> fst (exported (updateAttributeOrder orders) w) = Inr (error_envelope e)
       \<and> fst (exported (addAttributeOption aid option) w) = Inr (error_envelope e)
       \<and> fst (exported (removeAttributeOption aid x) w) = Inr (error_envelope e)
       \<and> fst (exported (validateAttributeValues validate pid values) w) = Inr (error_envelope e))
   \<and> (plan w = Fails message # rest \<longrightarrow>
         (\<exists>text. fst (exported (createProductAttribute data) w) = Inr (Failure text))
       \<and> (\<exists>text. fst (exported (updateProductAttribute upd) w) = Inr (Failure text))
       \<and> (\<exists>text. fst (exported (deleteProductAttribute aid) w) = Inr (Failure text))
       \<and> (\<exists>text. fst (exported (addAttributeOption aid option) w) = Inr (Failure text))
       \<and> (\<exists>text. fst (exported (removeAttributeOption aid x) w) = Inr (Failure text))
       \<and> fst (exported (validateAttributeValues validate pid values) w) = Inr (Failure message))
   \<and> (fst (next_outcome w) \<noteq> Works \<longrightarrow>
         fst (exported (getProductAttributes pid) w) = Inr []
       \<and> fst (exported (getProductAttributeById aid) w) = Inr None
       \<and> fst (exported (getAttributeCombinations pid) w) = Inr []
       \<and> fst (exported (getProductAttributeSchema get_schema pid) w) = Inr (JObj []))"
  unfolding exported_constructed[OF assms]
proof (intro conjI impI)
  show "\<exists>r w'. createProductAttribute data w = (Inr r, w')"
    unfolding createProductAttribute_def by (rule try_catch_returns)
  show "\<exists>r w'. updateProductAttribute upd w = (Inr r, w')"
    unfolding updateProductAttribute_def by (rule try_catch_returns)
  show "\<exists>r w'. deleteProductAttribute aid w = (Inr r, w')"
    unfolding deleteProductAttribute_def by (rule try_catch_returns)
  show "\<exists>r w'. updateAttributeOrder orders w = (Inr r, w')"
    unfolding updateAttributeOrder_def by (rule try_catch_returns)
  show "\<exists>r w'. addAttributeOption aid option w = (Inr r, w')"
    unfolding addAttributeOption_def by (rule try_catch_returns)
  show "\<exists>r w'. removeAttributeOption aid x w = (Inr r, w')"
    unfolding removeAttributeOption_def by (rule try_catch_returns)
  show "\<exists>r w'. getProductAttributes pid w = (Inr r, w')"
    unfolding getProductAttributes_def by (rule try_catch_returns)
  show "\<exists>r w'. getProductAttributeById aid w = (Inr r, w')"
    unfolding getProductAttributeById_def by (rule try_catch_returns)
  show "\<exists>r w'. getAttributeCombinations pid w = (Inr r, w')"
    unfolding getAttributeCombinations_def by (rule try_catch_returns)
  show "\<exists>r w'. getProductAttributeSchema get_schema pid w = (Inr r, w')"
    unfolding getProductAttributeSchema_def by (rule try_catch_returns)
  show "\<exists>r w'. validateAttributeValues validate pid values w = (Inr r, w')"
    unfolding validateAttributeValues_def by (rule try_catch_returns)
  show "generateCombination_dom (Object_keys attributes, attributes, 0, (([], Object_prototype), []))"
    by (rule generateCombination_terminates)
next
  assume "plan w = replicate k Works @ Throws e # rest"
  then have t: "throws_later e w (w\<lparr>plan := []\<rparr>)"
    by (auto simp: throws_later_def)
  have c: "client_failure (w\<lparr>plan := []\<rparr>) = None" using assms by simp
  note ex = exported_constructed[OF c]
  show "fst (createProductAttribute data w) = Inr (error_envelope e)
          \<or> fst (createProductAttribute data w) =
              fst (exported (createProductAttribute data) (w\<lparr>plan := []\<rparr>))"
    unfolding ex by (rule createProductAttribute_caught[OF t])
  show "fst (updateProductAttribute upd w) = Inr (error_envelope e)
          \<or> fst (updateProductAttribute upd w) =
              fst (exported (updateProductAttribute upd) (w\<lparr>plan := []\<rparr>))"
    unfolding ex by (rule updateProductAttribute_caught[OF t])
  show "fst (deleteProductAttribute aid w) = Inr (error_envelope e)
          \<or> fst (deleteProductAttribute aid w) =
              fst (exported (deleteProductAttribute aid) (w\<lparr>plan := []\<rparr>))"
    unfolding ex by (rule deleteProductAttribute_caught[OF t])
  show "fst (updateAttributeOrder orders w) = Inr (error_envelope e)
          \<or> fst (updateAttributeOrder orders w) =
              fst (exported (updateAttributeOrder orders) (w\<lparr>plan := []\<rparr>))"
    unfolding ex by (rule updateAttributeOrder_caught[OF t])
  show "fst (addAttributeOption aid option w) = Inr (error_envelope e)
          \<or> fst (addAttributeOption aid option w) =
              fst (exported (addAttributeOption aid option) (w\<lparr>plan := []\<rparr>))"
    unfolding ex by (rule addAttributeOption_caught[OF t])
  show "fst (removeAttributeOption aid x w) = Inr (error_envelope e)
          \<or> fst (removeAttributeOption aid x w) =
              fst (exported (removeAttributeOption aid x) (w\<lparr>plan := []\<rparr>))"
    unfolding ex by (rule removeAttributeOption_caught[OF t])
  show "fst (validateAttributeValues validate pid values w) = Inr (error_envelope e)
          \<or> fst (validateAttributeValues validate pid values w) =
              fst (exported (validateAttributeValues validate pid values) (w\<lparr>plan := []\<rparr>))"
    unfolding ex by (rule validateAttributeValues_caught[OF t])
next
  assume t: "plan w = Throws e # rest"
  then have r: "\<And>q. store_read q w = (Inl e, w\<lparr>plan := rest\<rparr>)"
    by (simp add: store_read_throws)
  show "fst (createProductAttribute data w) = Inr (error_envelope e)"
    unfolding createProductAttribute_def by (simp add: try_catch_def io_bind_def r)
  show "fst (updateProductAttribute upd w) = Inr (error_envelope e)"
    unfolding updateProductAttribute_def by (simp add: try_catch_def io_bind_def r)
  show "fst (deleteProductAttribute aid w) = Inr (error_envelope e)"
    unfolding deleteProductAttribute_def by (simp add: try_catch_def io_bind_def r)
  show "fst (updateAttributeOrder orders w) = Inr (error_envelope e)"
    by (rule updateAttributeOrder_throws[OF t])
  show "fst (addAttributeOption aid option w) = Inr (error_envelope e)"
    unfolding addAttributeOption_def by (simp add: try_catch_def io_bind_def r)
  show "fst (removeAttributeOption aid x w) = Inr (error_envelope e)"
    unfolding removeAttributeOption_def by (simp add: try_catch_def io_bind_def r)
  show "fst (validateAttributeValues validate pid values w) = Inr (error_envelope e)"
    unfolding validateAttributeValues_def by (simp add: try_catch_def io_bind_def r)
next
  assume f: "plan w = Fails message # rest"
  then have r: "\<And>q. store_read q w = (Inr (None, Some message), w\<lparr>plan := rest\<rparr>)"
    by (simp add: store_read_def next_outcome_def)
  show "\<exists>text. fst (createProductAttribute data w) = Inr (Failure text)"
    unfolding createProductAttribute_def
    by (simp add: io_defs r falsy_string_def chain_user_id_def)
  show "\<exists>text. fst (updateProductAttribute upd w) = Inr (Failure text)"
    unfolding updateProductAttribute_def
    by (simp add: io_defs r)
  show "\<exists>text. fst (deleteProductAttribute aid w) = Inr (Failure text)"
    unfolding deleteProductAttribute_def
    by (simp add: io_defs r)
  show "\<exists>text. fst (addAttributeOption aid option w) = Inr (Failure text)"
    unfolding addAttributeOption_def
    by (simp add: io_defs r)
  show "\<exists>text. fst (removeAttributeOption aid x w) = Inr (Failure text)"
    unfolding removeAttributeOption_def
    by (simp add: io_defs r)
  show "fst (validateAttributeValues validate pid values w) = Inr (Failure message)"
    unfolding validateAttributeValues_def
    by (simp add: io_defs r)
next
  assume n: "fst (next_outcome w) \<noteq> Works"
  then show "fst (getProductAttributes pid w) = Inr []"
    by (cases "next_outcome w") (auto simp: getProductAttributes_run split: outcome.splits)
  from n show "fst (getProductAttributeById aid w) = Inr None"
    by (cases "next_outcome w") (auto simp: getProductAttributeById_run split: outcome.splits)
  from n show "fst (getAttributeCombinations pid w) = Inr []"
    by (rule getAttributeCombinations_degrades[OF assms])
  from n show "fst (getProductAttributeSchema get_schema pid w) = Inr (JObj [])"
    unfolding getProductAttributeSchema_def
    by (cases "next_outcome w")
       (auto simp: io_defs store_read_def split: outcome.splits)
qed

text \<open>
  The theorem in the small catalog, with a store whose first call throws, and with the
  store of alice whose third call throws.
\<close>

theorem no_failure_escapes_witness:
  "client_failure (demo_world None) = None
   \<and> plan (demo_world None\<lparr>plan := [Throws (Error ''network down'')]\<rparr>) = [Throws (Error ''network down'')]
   \<and> fst (exported (createProductAttribute (new_attribute 1 ''weight''))
            (demo_world None\<lparr>plan := [Throws (Error ''network down'')]\<rparr>)) = Inr (Failure ''network down'')
   \<and> fst (exported (updateProductAttribute (rename_key 2 ''weight''))
            (demo_world None\<lparr>plan := [Throws (Error ''network down'')]\<rparr>)) = Inr (Failure ''network down'')
   \<and> fst (exported (deleteProductAttribute 2)
            (demo_world None\<lparr>plan := [Throws (Error ''network down'')]\<rparr>)) = Inr (Failure ''network down'')
   \<and> fst (exported (updateAttributeOrder [(1, 7)])
            (demo_world None\<lparr>plan := [Throws (Error ''network down'')]\<rparr>)) = Inr (Failure ''network down'')
   \<and> fst (exported (addAttributeOption 2 (''XL'', ''Extra large''))
            (demo_world None\<lparr>plan := [Throws (Error ''network down'')]\<rparr>)) = Inr (Failure ''network down'')
   \<and> fst (exported (removeAttributeOption 2 ''L'')
            (demo_world None\<lparr>plan := [Throws (Error ''network down'')]\<rparr>)) = Inr (Failure ''network down'')
   \<and> fst (next_outcome (demo_world None\<lparr>plan := [Throws (Error ''network down'')]\<rparr>)) \<noteq> Works
   \<and> fst (exported (getProductAttributes 1)
            (demo_world None\<lparr>plan := [Throws (Error ''network down'')]\<rparr>)) = Inr []
   \<and> fst (exported (getProductAttributeById 2)
            (demo_world None\<lparr>plan := [Throws (Error ''network down'')]\<rparr>)) = Inr None
   \<and> fst (exported (getAttributeCombinations 1)
            (demo_world None\<lparr>plan := [Throws (Error ''network down'')]\<rparr>)) = Inr []
   \<and> plan (demo_world (Some ''alice'')\<lparr>plan := [Works, Works, Throws (Error ''network down'')]\<rparr>) =
       replicate 2 Works @ Throws (Error ''network down'') # []
   \<and> fst (exported (deleteProductAttribute 1)
            (demo_world (Some ''alice'')\<lparr>plan := []\<rparr>)) = Inr (Success None)
   \<and> fst (exported (deleteProductAttribute 1)
            (demo_world (Some ''alice'')\<lparr>plan := [Works, Works, Throws (Error ''network down'')]\<rparr>)) =
       Inr (Failure ''network down'')"
proof -
  let ?w = "demo_world None\<lparr>plan := [Throws (Error ''network down'')]\<rparr>"
  let ?a = "demo_world (Some ''alice'')\<lparr>plan := [Works, Works, Throws (Error ''network down'')]\<rparr>"
  have c: "client_failure ?w = None" "client_failure (demo_world None) = None" "client_failure ?a = None"
    by (simp_all add: demo_world_def)
  have p: "plan ?w = Throws (Error ''network down'') # []" by simp
  have n: "fst (next_outcome ?w) \<noteq> Works" by (simp add: next_outcome_def)
  have pa: "plan ?a = replicate 2 Works @ Throws (Error ''network down'') # []"
    by (simp add: numeral_2_eq_2)
  let ?color = "schema_row 1 1 ''color'' (JArr [option_entry ''red'' ''Red'', option_entry ''blue'' ''Blue'']) True 1"
  have a1: "?color \<in> set (product_attribute_schemas demo_store)"
    by (simp add: demo_store_def)
  from select_attribute_owner_chain[OF demo_store_ok a1] alice_owns(1)
  obtain ch where ch: "select_attribute_owner 1 demo_store = (Some (1, ''color'', Some (1, ch)), None)"
    "chain_user_id (Some (1, ch)) = Some ''alice''"
    by (auto simp: schema_row_def)
  have d0: "fst (deleteProductAttribute 1 (demo_world (Some ''alice'')\<lparr>plan := []\<rparr>)) = Inr (Success None)"
    using ch
    by (simp add: deleteProductAttribute_def io_defs store_read_def store_write_def auth_getUser_def
          revalidatePath_def next_outcome_def demo_world_def falsy_string_def delete_schema_def
          select_variants_def demo_variants attribute_in_use_def Object_prototype_names_def)
  have d1: "fst (deleteProductAttribute 1 ?a) = Inr (Failure ''network down'')"
    using ch
    by (simp add: deleteProductAttribute_def io_defs store_read_def store_write_def auth_getUser_def
          revalidatePath_def next_outcome_def demo_world_def falsy_string_def)
  from no_failure_escapes[OF c(1), where data = "new_attribute 1 ''weight''"
      and upd = "rename_key 2 ''weight''" and aid = 2 and orders = "[(1, 7)]"
      and option = "(''XL'', ''Extra large'')" and x = "''L''" and pid = 1
      and e = "Error ''network down''" and rest = "[]"] p n
  have first: "fst (exported (createProductAttribute (new_attribute 1 ''weight'')) ?w) = Inr (Failure ''network down'')
     \<and> fst (exported (updateProductAttribute (rename_key 2 ''weight'')) ?w) = Inr (Failure ''network down'')
     \<and> fst (exported (deleteProductAttribute 2) ?w) = Inr (Failure ''network down'')
     \<and> fst (exported (updateAttributeOrder [(1, 7)]) ?w) = Inr (Failure ''network down'')
     \<and> fst (exported (addAttributeOption 2 (''XL'', ''Extra large'')) ?w) = Inr (Failure ''network down'')
     \<and> fst (exported (removeAttributeOption 2 ''L'') ?w) = Inr (Failure ''network down'')
     \<and> fst (exported (getProductAttributes 1) ?w) = Inr []
     \<and> fst (exported (getProductAttributeById 2) ?w) = Inr None
     \<and> fst (exported (getAttributeCombinations 1) ?w) = Inr []"
    by (simp add: error_envelope_def)
  from no_failure_escapes[OF c(3), where aid = 1 and k = 2 and e = "Error ''network down''" and rest = "[]"] pa
  have "fst (exported (deleteProductAttribute 1) ?a) = Inr (error_envelope (Error ''network down''))
     \<or> fst (exported (deleteProductAttribute 1) ?a) =
         fst (exported (deleteProductAttribute 1) (?a\<lparr>plan := []\<rparr>))"
    by blast
  moreover have "fst (exported (deleteProductAttribute 1) (demo_world (Some ''alice'')\<lparr>plan := []\<rparr>)) = Inr (Success None)"
    using d0 by (simp add: exported_constructed demo_world_def)
  moreover have "fst (exported (deleteProductAttribute 1) ?a) = Inr (Failure ''network down'')"
    using d1 c(3) by (simp add: exported_constructed)
  ultimately show ?thesis
    using first c(2) p n pa by simp
qed

subsection \<open>C10: the mapping handed to the generator\<close>

lemma collect_options_total:
  "\<forall>a \<in> set rows. options_ok a \<Longrightarrow>
     collect_options rows acc =
       Inr (fold (\<lambda>a acc. js_set acc (attribute_key a) (option_values a)) rows acc)"
proof (induction rows arbitrary: acc)
  case Nil
  then show ?case by simp
next
  case (Cons a rows)
  from Cons.prems obtain opts where o: "options a = JArr opts" "JNull \<notin> set opts"
    by (auto simp: options_ok_def split: json.splits)
  with Cons show ?case
    by (simp add: as_array_def map_value_total option_values_def)
qed

lemma keys_fold_js_set:
  "fst ` set (fold (\<lambda>a acc. js_set acc (k a) (v a)) rows acc) =
     fst ` set acc \<union> (k ` set rows - {''__proto__''})"
proof (induction rows arbitrary: acc)
  case Nil
  then show ?case by simp
next
  case (Cons a rows)
  have "fst ` set (js_set acc (k a) (v a)) = fst ` set acc \<union> ({k a} - {''__proto__''})"
    by (auto simp: js_set_def dom_update)
  then show ?case
    unfolding fold_simps Cons by auto
qed

lemma distinct_fold_js_set:
  "distinct (map fst acc) \<Longrightarrow>
     distinct (map fst (fold (\<lambda>a acc. js_set acc (k a) (v a)) rows acc))"
  by (induction rows arbitrary: acc) (auto simp: js_set_def distinct_update)

lemma get_fold_js_set:
  "key \<noteq> ''__proto__'' \<Longrightarrow>
     (key \<in> k ` set rows \<longrightarrow>
        (\<exists>a \<in> set rows. k a = key
           \<and> js_get (fold (\<lambda>a acc. js_set acc (k a) (v a)) rows acc) key = Some (v a)))
     \<and> (key \<notin> k ` set rows \<longrightarrow>
          js_get (fold (\<lambda>a acc. js_set acc (k a) (v a)) rows acc) key = js_get acc key)"
proof (induction rows arbitrary: acc)
  case Nil
  then show ?case by simp
next
  case (Cons b rows)
  let ?acc = "js_set acc (k b) (v b)"
  note IH = Cons.IH[OF Cons.prems, of ?acc]
  show ?case
  proof (cases "key \<in> k ` set rows")
    case True
    with IH show ?thesis by auto
  next
    case False
    with IH have keep: "js_get (fold (\<lambda>a acc. js_set acc (k a) (v a)) rows ?acc) key = js_get ?acc key"
      by simp
    show ?thesis
    proof (cases "k b = key")
      case True
      with Cons.prems have "js_get ?acc key = Some (v b)"
        by (simp add: js_get_def js_set_def update_conv')
      with keep True show ?thesis by simp
    next
      case ne: False
      then have "js_get ?acc key = js_get acc key"
        by (simp add: js_get_def js_set_def update_conv')
      with keep ne False show ?thesis by simp
    qed
  qed
qed

lemma total_assignment_keys:
  "total_assignment attributes c \<Longrightarrow> map fst c = map fst attributes"
  unfolding total_assignment_def
  by (induction rule: list_all2_induct) auto

lemma getAttributeCombinations_run:
  assumes "client_failure w = None" and "fst (next_outcome w) = Works"
    and "\<forall>a \<in> set (product_attribute_schemas (db w)). product_id a = pid \<longrightarrow> options_ok a"
  shows "fst (getAttributeCombinations pid w) =
     Inr (fold (\<lambda>a acc. js_set acc (attribute_key a) (option_values a))
            (sort_key (\<lambda>a. (sort_order a, created_at a))
               (filter (\<lambda>a. product_id a = pid) (product_attribute_schemas (db w)))) [])"
proof -
  obtain w' where n: "next_outcome w = (Works, w')"
    using assms(2) by (cases "next_outcome w") auto
  with next_outcome_db[of w] have d: "db w' = db w" by simp
  let ?rows = "sort_key (\<lambda>a. (sort_order a, created_at a))
               (filter (\<lambda>a. product_id a = pid) (product_attribute_schemas (db w)))"
  have "\<forall>a \<in> set ?rows. options_ok a" using assms(3) by simp
  from collect_options_total[OF this, of "[]"] show ?thesis
    unfolding getAttributeCombinations_def
    by (simp add: io_defs exported_def createClient_def assms(1) getProductAttributes_run n d)
qed

text \<open>
  Claim C10 asks, for every product, for a mapping built from every attribute schema. The
  action casts the column \<^verbatim>\<open>options\<close> to an array of option objects and calls
  \<^verbatim>\<open>map\<close> on it inside its \<^verbatim>\<open>try\<close> statement: when one schema of the product
  holds \<^verbatim>\<open>null\<close> there, the call throws and the action returns the empty mapping,
  with no key of any schema. It returns the empty mapping as well when the listing of the
  schemas fails.
\<close>

theorem getAttributeCombinations_untyped_options:
  "list_ex (\<lambda>a. product_id a = 1 \<and> attribute_key a = ''color'' \<and> options a =
        JArr [option_entry ''red'' ''Red'', option_entry ''blue'' ''Blue''])
     (product_attribute_schemas (db null_options_world))
   \<and> list_ex (\<lambda>a. product_id a = 1 \<and> attribute_key a = ''material'' \<and> options a = JNull)
     (product_attribute_schemas (db null_options_world))
   \<and> client_failure null_options_world = None \<and> plan null_options_world = []
   \<and> fst (getAttributeCombinations 1 null_options_world) = Inr []
   \<and> js_get [] ''color'' = (None :: json option list option)
   \<and> fst (getAttributeCombinations 1 (demo_world None\<lparr>plan := [Fails ''connection lost'']\<rparr>)) = Inr []"
proof -
  have rows: "sort_key (\<lambda>a. (sort_order a, created_at a))
      (filter (\<lambda>a. product_id a = 1) (product_attribute_schemas (db null_options_world))) =
      [schema_row 2 1 ''size''
         (JArr [option_entry ''S'' ''Small'', option_entry ''M'' ''Medium'', option_entry ''L'' ''Large''])
         True 0,
       schema_row 1 1 ''color'' (JArr [option_entry ''red'' ''Red'', option_entry ''blue'' ''Blue'']) True 1,
       (schema_row 3 1 ''material'' (JArr [option_entry ''cotton'' ''Cotton'']) False 1)\<lparr>options := JNull\<rparr>]"
    by (simp add: null_options_world_def update_where_id_def demo_rows schema_row_def
          less_eq_prod_def less_prod_def)
  have p: "plan null_options_world = []" "client_failure null_options_world = None"
    by (simp_all add: null_options_world_def)
  have "getProductAttributes 1 null_options_world =
      (Inr (sort_key (\<lambda>a. (sort_order a, created_at a))
         (filter (\<lambda>a. product_id a = 1) (product_attribute_schemas (db null_options_world)))),
       null_options_world)"
    by (simp add: getProductAttributes_run next_outcome_def p)
  then have "fst (getAttributeCombinations 1 null_options_world) = Inr []"
    unfolding getAttributeCombinations_def rows
    by (simp add: io_defs exported_def createClient_def p as_array_def map_value_total
          schema_row_def option_entry_def)
  moreover have "fst (getAttributeCombinations 1 (demo_world None\<lparr>plan := [Fails ''connection lost'']\<rparr>)) = Inr []"
    unfolding getAttributeCombinations_def
    by (simp add: io_defs exported_def createClient_def getProductAttributes_run next_outcome_def
          demo_world_def)
  ultimately show ?thesis
    by (simp add: null_options_world_def update_where_id_def demo_rows schema_row_def js_get_def)
qed

text \<open>
  Claim C10, amended. For every product whose schemas are listed (the client is constructed
  and the lookup works) and hold, as options, an array without \<^verbatim>\<open>null\<close> entries:
  every key of the mapping built by \<open>getAttributeCombinations\<close> is the key of an
  attribute schema of the product, and every attribute schema of the product with a key
  other than \<^verbatim>\<open>__proto__\<close> has its key in the mapping, whatever its flag
  \<open>is_variant_defining\<close>; such a key is mapped to the value fields of the options, in
  stored order, of a schema of the product that has this key; and every combination
  generated from the mapping has all the keys of the mapping, those of the attributes that
  are not variant defining among them.
\<close>

theorem getAttributeCombinations_all_attributes:
  assumes "client_failure w = None" and "fst (next_outcome w) = Works"
    and "\<forall>a \<in> set (product_attribute_schemas (db w)). product_id a = pid \<longrightarrow> options_ok a"
  shows "\<exists>combinations.
           fst (getAttributeCombinations pid w) = Inr combinations
         \<and> (\<forall>a \<in> set (product_attribute_schemas (db w)).
               product_id a = pid \<and> attribute_key a \<noteq> ''__proto__''
               \<longrightarrow> attribute_key a \<in> set (Object_keys combinations))
         \<and> (\<forall>k \<in> set (Object_keys combinations).
               \<exists>a \<in> set (product_attribute_schemas (db w)). product_id a = pid \<and> attribute_key a = k)
         \<and> distinct (Object_keys combinations)
         \<and> (\<forall>a \<in> set (product_attribute_schemas (db w)).
               product_id a = pid \<and> attribute_key a \<noteq> ''__proto__''
               \<longrightarrow> (\<exists>b \<in> set (product_attribute_schemas (db w)).
                      product_id b = pid \<and> attribute_key b = attribute_key a
                      \<and> js_get combinations (attribute_key a) = Some (option_values b)))
         \<and> (\<forall>c \<in> set (generateVariantCombinations combinations).
               Object_keys c = Object_keys combinations)"
proof -
  let ?rows = "sort_key (\<lambda>a. (sort_order a, created_at a))
               (filter (\<lambda>a. product_id a = pid) (product_attribute_schemas (db w)))"
  let ?combinations = "fold (\<lambda>a acc. js_set acc (attribute_key a) (option_values a)) ?rows []"
  have rows: "set ?rows = {a \<in> set (product_attribute_schemas (db w)). product_id a = pid}"
    by auto
  have run: "fst (getAttributeCombinations pid w) = Inr ?combinations"
    by (rule getAttributeCombinations_run[OF assms])
  have keys: "set (Object_keys ?combinations) =
      attribute_key ` {a \<in> set (product_attribute_schemas (db w)). product_id a = pid} - {''__proto__''}"
    unfolding Object_keys_def set_key_order set_map keys_fold_js_set rows by simp
  have dist: "distinct (Object_keys ?combinations)"
    unfolding Object_keys_def distinct_key_order by (rule distinct_fold_js_set) simp
  have np: "''__proto__'' \<notin> set (Object_keys ?combinations)"
    unfolding keys by simp
  have vals: "\<forall>a \<in> set (product_attribute_schemas (db w)).
               product_id a = pid \<and> attribute_key a \<noteq> ''__proto__''
               \<longrightarrow> (\<exists>b \<in> set (product_attribute_schemas (db w)).
                      product_id b = pid \<and> attribute_key b = attribute_key a
                      \<and> js_get ?combinations (attribute_key a) = Some (option_values b))"
  proof (intro ballI impI)
    fix a
    assume a: "a \<in> set (product_attribute_schemas (db w))"
      and h: "product_id a = pid \<and> attribute_key a \<noteq> ''__proto__''"
    then have "attribute_key a \<in> attribute_key ` set ?rows" by auto
    with get_fold_js_set[of "attribute_key a" attribute_key ?rows option_values "[]"] h
    obtain b where "b \<in> set ?rows" "attribute_key b = attribute_key a"
      "js_get ?combinations (attribute_key a) = Some (option_values b)" by blast
    then show "\<exists>b \<in> set (product_attribute_schemas (db w)).
                      product_id b = pid \<and> attribute_key b = attribute_key a
                      \<and> js_get ?combinations (attribute_key a) = Some (option_values b)"
      by auto
  qed
  have gen: "\<forall>c \<in> set (generateVariantCombinations ?combinations).
               Object_keys c = Object_keys ?combinations"
  proof (cases "[] \<in> set (Object_keys ?combinations)")
    case True
    then show ?thesis by (simp add: generateVariantCombinations_empty_key)
  next
    case False
    show ?thesis
    proof
      fix c assume "c \<in> set (generateVariantCombinations ?combinations)"
      with set_generateVariantCombinations[OF dist False np]
      have "total_assignment (js_entries ?combinations) c" by simp
      then have "map fst c = Object_keys ?combinations"
        by (simp add: total_assignment_keys map_fst_js_entries)
      then show "Object_keys c = Object_keys ?combinations"
        by (simp add: Object_keys_def key_order_idem)
    qed
  qed
  from run keys dist vals gen show ?thesis by (intro exI[where x = ?combinations]) auto
qed

text \<open>
  The theorem in the small catalog: material is not variant defining, is a key of the
  mapping of product 1, and has a value in the generated combinations.
\<close>

theorem getAttributeCombinations_all_attributes_witness:
  "client_failure (demo_world None) = None \<and> fst (next_outcome (demo_world None)) = Works
   \<and> list_all options_ok (filter (\<lambda>a. product_id a = 1) (product_attribute_schemas demo_store))
   \<and> list_ex (\<lambda>a. product_id a = 1 \<and> attribute_key a = ''material'' \<and> \<not> is_variant_defining a)
        (product_attribute_schemas demo_store)
   \<and> (\<exists>combinations.
         fst (getAttributeCombinations 1 (demo_world None)) = Inr combinations
       \<and> js_get combinations ''material'' = Some [Some (JStr ''cotton'')]
       \<and> list_all (\<lambda>c. Object_keys c = Object_keys combinations)
             (generateVariantCombinations combinations))
   \<and> fst (getAttributeCombinations 1 (demo_world None)) =
       Inr [(''size'', [Some (JStr ''S''), Some (JStr ''M''), Some (JStr ''L'')]),
            (''color'', [Some (JStr ''red''), Some (JStr ''blue'')]),
            (''material'', [Some (JStr ''cotton'')])]
   \<and> hd (generateVariantCombinations
            [(''size'', [Some (JStr ''S''), Some (JStr ''M''), Some (JStr ''L'')]),
             (''color'', [Some (JStr ''red''), Some (JStr ''blue'')]),
             (''material'', [Some (JStr ''cotton'')])]) =
       [(''size'', Some (JStr ''S'')), (''color'', Some (JStr ''red'')),
        (''material'', Some (JStr ''cotton''))]"
proof -
  let ?w = "demo_world None"
  let ?material = "schema_row 3 1 ''material'' (JArr [option_entry ''cotton'' ''Cotton'']) False 1"
  let ?result = "[(''size'', [Some (JStr ''S''), Some (JStr ''M''), Some (JStr ''L'')]),
            (''color'', [Some (JStr ''red''), Some (JStr ''blue'')]),
            (''material'', [Some (JStr ''cotton'')])]"
  have n: "fst (next_outcome ?w) = Works"
    by (simp add: next_outcome_def demo_world_simps)
  have cl: "client_failure ?w = None"
    by (simp add: demo_world_def)
  have ok: "list_all options_ok (filter (\<lambda>a. product_id a = 1) (product_attribute_schemas demo_store))"
    by (simp add: demo_rows schema_row_def options_ok_def option_entry_def)
  then have ok': "\<forall>a \<in> set (product_attribute_schemas (db ?w)). product_id a = 1 \<longrightarrow> options_ok a"
    by (simp add: demo_world_simps list_all_iff)
  have m: "list_ex (\<lambda>a. product_id a = 1 \<and> attribute_key a = ''material'' \<and> \<not> is_variant_defining a)
        (product_attribute_schemas demo_store)"
    by (simp add: demo_rows schema_row_def)
  have u: "?material \<in> set (product_attribute_schemas (db ?w))"
    "product_id ?material = 1 \<and> attribute_key ?material \<noteq> ''__proto__''"
    by (simp_all add: demo_world_simps demo_rows schema_row_def)
  have only: "\<And>b. b \<in> set (product_attribute_schemas (db ?w)) \<Longrightarrow>
      attribute_key b = attribute_key ?material \<Longrightarrow> b = ?material"
    by (auto simp: demo_world_simps demo_rows schema_row_def)
  have v: "option_values ?material = [Some (JStr ''cotton'')]" "attribute_key ?material = ''material''"
    by (simp_all add: option_values_def schema_row_def entry_value_option_entry)
  from getAttributeCombinations_all_attributes[OF cl n ok'] obtain combinations where
    c: "fst (getAttributeCombinations 1 ?w) = Inr combinations"
    and j: "\<forall>a \<in> set (product_attribute_schemas (db ?w)).
               product_id a = 1 \<and> attribute_key a \<noteq> ''__proto__''
               \<longrightarrow> (\<exists>b \<in> set (product_attribute_schemas (db ?w)).
                      product_id b = 1 \<and> attribute_key b = attribute_key a
                      \<and> js_get combinations (attribute_key a) = Some (option_values b))"
    and g: "\<forall>c \<in> set (generateVariantCombinations combinations). Object_keys c = Object_keys combinations"
    by blast
  from j u obtain b where "b \<in> set (product_attribute_schemas (db ?w))"
    "attribute_key b = attribute_key ?material"
    "js_get combinations (attribute_key ?material) = Some (option_values b)"
    by blast
  with only[of b] have "js_get combinations (attribute_key ?material) = Some (option_values ?material)"
    by simp
  with v have jm: "js_get combinations ''material'' = Some [Some (JStr ''cotton'')]" by simp
  from c jm g have e: "\<exists>combinations.
         fst (getAttributeCombinations 1 ?w) = Inr combinations
       \<and> js_get combinations ''material'' = Some [Some (JStr ''cotton'')]
       \<and> list_all (\<lambda>c. Object_keys c = Object_keys combinations)
             (generateVariantCombinations combinations)"
    by (auto simp: list_all_iff)
  have r: "fst (getAttributeCombinations 1 ?w) = Inr ?result"
    unfolding getAttributeCombinations_run[OF cl n ok']
    by (simp add: demo_world_simps demo_rows schema_row_def less_eq_prod_def less_prod_def
          option_values_def entry_value_option_entry js_set_def)
  have h: "hd (generateVariantCombinations ?result) =
       [(''size'', Some (JStr ''S'')), (''color'', Some (JStr ''red'')),
        (''material'', Some (JStr ''cotton''))]"
    by (simp add: generator_eval)
  from cl n ok m e r h show ?thesis by blast
qed

end
